(* ===== verification/Prelude.thy ===== *)
theory Prelude
  imports Main
begin

text \<open>
  Shared vocabulary of the development: the environment a store call runs in,
  transactions as a state monad with early return, their weakest-precondition
  rules, and the list and sum lemmas the table models need.

  A Go store method has the shape \<open>tx := Begin; defer tx.Rollback; ...; if bad
  { return Rejected{...} }; ...; tx.Commit; return Done{...}\<close>.  A transaction
  body is a function from the environment, a call counter and the tables it
  sees to an outcome.  \<open>Ret r g\<close> is a return statement before the commit: the
  deferred rollback undoes the tables, and \<open>g\<close> is what the method wrote outside
  its transaction in the meantime (only the budget-refusal counter does that;
  it is \<open>id\<close> everywhere else).  \<open>Cont a\<close> goes on with \<open>a\<close>.

  Every SQL statement asks the environment's \<open>fault\<close> oracle at the current call
  counter, so each \<open>err != nil\<close> branch of the source is a branch of the model
  and a theorem that does not constrain the oracle covers every pattern of
  database failures.
\<close>

named_theorems wp_rules "weakest-precondition rules of the transaction monad"
named_theorems run_rules "evaluation of transactions without faults"
named_theorems tables "evaluation of table reads and updates"
named_theorems val_simps "evaluation of domain value constructors"

section \<open>Environment\<close>

text \<open>
  What the program is given from outside: which statements fail, the UUID package, the
  clock, the text PostgreSQL gives back for a \<open>jsonb\<close> value (none when the cast is
  refused), the SHA-256 digest in hexadecimal, and the random bytes of the system.
\<close>

record env =
  fault :: "nat \<Rightarrow> bool"
  uuid_parse :: "string \<Rightarrow> string + string"
  uuid_new :: "nat \<Rightarrow> string + string"
  clock :: "nat \<Rightarrow> int"
  jsonb_text :: "string \<Rightarrow> string option"
  sha256_hex :: "string \<Rightarrow> string"
  entropy :: "nat \<Rightarrow> string option"

text \<open>
  A fault-free run: no statement fails, an identifier can be generated, and parsing gives an
  identifier back.  The last clause is asked of every text although \<open>uuid.Parse\<close> refuses some
  and normalises others; the store parses nothing but its own \<open>uuid\<close> columns, whose text is
  canonical.
\<close>

definition quiet :: "env \<Rightarrow> bool" where
  "quiet e \<longleftrightarrow> fault e = (\<lambda>_. False) \<and> (\<forall>n. \<exists>i. uuid_new e n = Inr i) \<and>
     (\<forall>x. uuid_parse e x = Inr x)"

section \<open>Transactions\<close>

datatype ('s, 'r, 'a) outcome = Ret 'r "'s \<Rightarrow> 's" | Cont 'a

type_synonym ('s, 'r, 'a) tx = "env \<Rightarrow> nat \<Rightarrow> 's \<Rightarrow> ('s, 'r, 'a) outcome \<times> nat \<times> 's"

definition retT :: "'a \<Rightarrow> ('s, 'r, 'a) tx" where
  "retT a = (\<lambda>e n s. (Cont a, n, s))"

definition raiseT :: "'r \<Rightarrow> ('s, 'r, 'a) tx" where
  "raiseT r = (\<lambda>e n s. (Ret r id, n, s))"

definition bindT :: "('s, 'r, 'a) tx \<Rightarrow> ('a \<Rightarrow> ('s, 'r, 'b) tx) \<Rightarrow> ('s, 'r, 'b) tx" where
  "bindT m k = (\<lambda>e n s. case m e n s of
     (Ret r g, n', s') \<Rightarrow> (Ret r g, n', s')
   | (Cont a, n', s') \<Rightarrow> k a e n' s')"

text \<open>A statement that reads: an error returns \<open>err\<close>, otherwise the rows read.\<close>

definition queryT :: "'r \<Rightarrow> ('s \<Rightarrow> 'a) \<Rightarrow> ('s, 'r, 'a) tx" where
  "queryT err f = (\<lambda>e n s.
     if fault e n then (Ret err id, Suc n, s) else (Cont (f s), Suc n, s))"

text \<open>A statement that writes: \<open>None\<close> is a violated constraint.\<close>

definition execT :: "'r \<Rightarrow> ('s \<Rightarrow> 's option) \<Rightarrow> ('s, 'r, unit) tx" where
  "execT err f = (\<lambda>e n s.
     if fault e n then (Ret err id, Suc n, s)
     else case f s of None \<Rightarrow> (Ret err id, Suc n, s) | Some s' \<Rightarrow> (Cont (), Suc n, s'))"

text \<open>A write whose caller tells a unique violation from any other error.\<close>

definition execU :: "'r \<Rightarrow> 'r \<Rightarrow> ('s \<Rightarrow> 's option) \<Rightarrow> ('s, 'r, unit) tx" where
  "execU violated err f = (\<lambda>e n s.
     if fault e n then (Ret err id, Suc n, s)
     else case f s of None \<Rightarrow> (Ret violated id, Suc n, s) | Some s' \<Rightarrow> (Cont (), Suc n, s'))"

definition askT :: "(env \<Rightarrow> nat \<Rightarrow> 'a) \<Rightarrow> ('s, 'r, 'a) tx" where
  "askT f = (\<lambda>e n s. (Cont (f e n), Suc n, s))"

text \<open>A helper's rejection, wrapped by its caller into the caller's own result.\<close>

definition liftT :: "('q \<Rightarrow> 'r) \<Rightarrow> ('s, 'q, 'a) tx \<Rightarrow> ('s, 'r, 'a) tx" where
  "liftT w m = (\<lambda>e n s. case m e n s of
     (Ret r g, n', s') \<Rightarrow> (Ret (w r) g, n', s')
   | (Cont a, n', s') \<Rightarrow> (Cont a, n', s'))"

text \<open>
  A helper whose rejection the caller inspects instead of returning it.  It is
  used around helpers that only read, and around those whose rejection ends the
  transaction, so a rejected helper leaves the tables as it found them.
\<close>

definition tryT :: "('s, 'q, 'a) tx \<Rightarrow> ('s, 'r, 'q + 'a) tx" where
  "tryT m = (\<lambda>e n s. case m e n s of
     (Ret r g, n', s') \<Rightarrow> (Cont (Inl r), n', s)
   | (Cont a, n', s') \<Rightarrow> (Cont (Inr a), n', s'))"

fun forT :: "'a list \<Rightarrow> ('a \<Rightarrow> ('s, 'r, unit) tx) \<Rightarrow> ('s, 'r, unit) tx" where
  "forT [] body = retT ()"
| "forT (x # xs) body = bindT (body x) (\<lambda>_. forT xs body)"

fun mapT :: "'a list \<Rightarrow> ('a \<Rightarrow> ('s, 'r, 'b) tx) \<Rightarrow> ('s, 'r, 'b list) tx" where
  "mapT [] f = retT []"
| "mapT (x # xs) f = bindT (f x) (\<lambda>y. bindT (mapT xs f) (\<lambda>ys. retT (y # ys)))"

text \<open>
  A method around its transaction: \<open>Begin\<close>, the body, and \<open>Commit\<close>.  The body
  ends at the commit statement with the result of a failed commit and the
  result of a successful one.
\<close>

definition runT :: "'r \<Rightarrow> ('s, 'r, 'r \<times> 'r) tx \<Rightarrow> env \<Rightarrow> nat \<Rightarrow> 's \<Rightarrow> 'r \<times> 's" where
  "runT beginErr body e n s =
     (if fault e n then (beginErr, s)
      else case body e (Suc n) s of
        (Ret r g, n', s') \<Rightarrow> (r, g s)
      | (Cont (commitErr, r), n', s') \<Rightarrow> if fault e n' then (commitErr, s) else (r, s'))"

text \<open>
  Methods that run several transactions, or statements outside any, thread the
  call counter: \<open>runN\<close> is \<open>runT\<close> with the counter it ends at, and \<open>readN\<close> runs
  statements that only read straight on the handle.
\<close>

definition runN :: "'r \<Rightarrow> ('s, 'r, 'r \<times> 'r) tx \<Rightarrow> env \<Rightarrow> nat \<Rightarrow> 's \<Rightarrow> 'r \<times> nat \<times> 's" where
  "runN beginErr body e n s =
     (if fault e n then (beginErr, Suc n, s)
      else case body e (Suc n) s of
        (Ret r g, n', s') \<Rightarrow> (r, n', g s)
      | (Cont (commitErr, r), n', s') \<Rightarrow> if fault e n' then (commitErr, Suc n', s) else (r, Suc n', s'))"

definition readN :: "('s, 'r, 'r) tx \<Rightarrow> env \<Rightarrow> nat \<Rightarrow> 's \<Rightarrow> 'r \<times> nat" where
  "readN body e n s = (case body e n s of
     (Ret r g, n', s') \<Rightarrow> (r, n') | (Cont r, n', s') \<Rightarrow> (r, n'))"

text \<open>A write that reports the number of rows it changed.\<close>

definition countT :: "'r \<Rightarrow> ('s \<Rightarrow> nat) \<Rightarrow> ('s \<Rightarrow> 's option) \<Rightarrow> ('s, 'r, nat) tx" where
  "countT err c f = (\<lambda>e n s.
     if fault e n then (Ret err id, Suc n, s)
     else case f s of None \<Rightarrow> (Ret err id, Suc n, s) | Some s' \<Rightarrow> (Cont (c s), Suc n, s'))"

section \<open>Weakest preconditions\<close>

text \<open>
  \<open>wp e m Q E s\<close>: started in \<open>s\<close> at any call counter, \<open>m\<close> either goes on with a
  value and tables that satisfy \<open>Q\<close>, or returns early with \<open>E\<close>.
\<close>

definition wp :: "env \<Rightarrow> ('s, 'r, 'a) tx \<Rightarrow> ('a \<Rightarrow> 's \<Rightarrow> bool) \<Rightarrow> ('r \<Rightarrow> ('s \<Rightarrow> 's) \<Rightarrow> bool) \<Rightarrow> 's \<Rightarrow> bool" where
  "wp e m Q E s \<longleftrightarrow> (\<forall>n. case m e n s of
     (Ret r g, n', s') \<Rightarrow> E r g | (Cont a, n', s') \<Rightarrow> Q a s')"

lemma wp_ret [wp_rules]: "Q a s \<Longrightarrow> wp e (retT a) Q E s"
  by (simp add: wp_def retT_def)

lemma wp_raise [wp_rules]: "E r id \<Longrightarrow> wp e (raiseT r) Q E s"
  by (simp add: wp_def raiseT_def)

lemma wp_bind [wp_rules]: "wp e m (\<lambda>a s'. wp e (k a) Q E s') E s \<Longrightarrow> wp e (bindT m k) Q E s"
  by (fastforce simp: wp_def bindT_def split: prod.splits outcome.splits)

lemma wp_query [wp_rules]: "\<lbrakk>E err id; Q (f s) s\<rbrakk> \<Longrightarrow> wp e (queryT err f) Q E s"
  by (simp add: wp_def queryT_def)

lemma wp_exec [wp_rules]:
  "\<lbrakk>E err id; \<And>s'. f s = Some s' \<Longrightarrow> Q () s'\<rbrakk> \<Longrightarrow> wp e (execT err f) Q E s"
  by (simp add: wp_def execT_def split: option.splits)

lemma wp_execU [wp_rules]:
  "\<lbrakk>E violated id; E err id; \<And>s'. f s = Some s' \<Longrightarrow> Q () s'\<rbrakk> \<Longrightarrow> wp e (execU violated err f) Q E s"
  by (simp add: wp_def execU_def split: option.splits)

lemma wp_count [wp_rules]:
  "\<lbrakk>E err id; \<And>s'. f s = Some s' \<Longrightarrow> Q (c s) s'\<rbrakk> \<Longrightarrow> wp e (countT err c f) Q E s"
  by (simp add: wp_def countT_def split: option.splits)

lemma wp_ask [wp_rules]: "(\<And>n. Q (f e n) s) \<Longrightarrow> wp e (askT f) Q E s"
  by (simp add: wp_def askT_def)

lemma wp_lift [wp_rules]: "wp e m Q (\<lambda>r. E (w r)) s \<Longrightarrow> wp e (liftT w m) Q E s"
  by (fastforce simp: wp_def liftT_def split: prod.splits outcome.splits)

lemma wp_if [wp_rules]:
  "\<lbrakk>b \<Longrightarrow> wp e m Q E s; \<not> b \<Longrightarrow> wp e m' Q E s\<rbrakk> \<Longrightarrow> wp e (if b then m else m') Q E s"
  by simp

lemma wp_case_option [wp_rules]:
  "\<lbrakk>x = None \<Longrightarrow> wp e m Q E s; \<And>a. x = Some a \<Longrightarrow> wp e (k a) Q E s\<rbrakk>
    \<Longrightarrow> wp e (case x of None \<Rightarrow> m | Some a \<Rightarrow> k a) Q E s"
  by (cases x) simp_all

lemma wp_case_sum [wp_rules]:
  "\<lbrakk>\<And>a. x = Inl a \<Longrightarrow> wp e (m a) Q E s; \<And>a. x = Inr a \<Longrightarrow> wp e (k a) Q E s\<rbrakk>
    \<Longrightarrow> wp e (case x of Inl a \<Rightarrow> m a | Inr a \<Rightarrow> k a) Q E s"
  by (cases x) simp_all

lemma wp_case_prod [wp_rules]:
  "(\<And>a b. x = (a, b) \<Longrightarrow> wp e (k a b) Q E s) \<Longrightarrow> wp e (case x of (a, b) \<Rightarrow> k a b) Q E s"
  by (cases x) simp

lemma wp_let [wp_rules]: "wp e (k v) Q E s \<Longrightarrow> wp e (let x = v in k x) Q E s"
  by simp

lemma wp_try [wp_rules]:
  "wp e m (\<lambda>a. Q (Inr a)) (\<lambda>r g. Q (Inl r) s) s \<Longrightarrow> wp e (tryT m) Q E s"
  by (fastforce simp: wp_def tryT_def split: prod.splits outcome.splits)

lemma wp_mono:
  "\<lbrakk>wp e m Q E s; \<And>a s'. Q a s' \<Longrightarrow> Q' a s'; \<And>r g. E r g \<Longrightarrow> E' r g\<rbrakk> \<Longrightarrow> wp e m Q' E' s"
  by (fastforce simp: wp_def split: prod.splits outcome.splits)

lemma wp_conj:
  "\<lbrakk>wp e m Q E s; wp e m Q' E' s\<rbrakk> \<Longrightarrow> wp e m (\<lambda>a s'. Q a s' \<and> Q' a s') (\<lambda>r g. E r g \<and> E' r g) s"
  by (fastforce simp: wp_def split: prod.splits outcome.splits)

text \<open>Loops are treated with an invariant on the tables.\<close>

lemma wp_for:
  assumes body: "\<And>x s. \<lbrakk>x \<in> set xs; I s\<rbrakk> \<Longrightarrow> wp e (body x) (\<lambda>_. I) E s"
    and start: "I s" and fin: "\<And>s'. I s' \<Longrightarrow> Q () s'"
  shows "wp e (forT xs body) Q E s"
  using body start
proof (induction xs arbitrary: s)
  case Nil
  then show ?case by (simp add: wp_ret fin)
next
  case (Cons x xs)
  have "wp e (body x) (\<lambda>_ s'. wp e (forT xs body) Q E s') E s"
    by (rule wp_mono [OF Cons.prems(1)]) (use Cons in auto)
  then show ?case by (simp add: wp_bind)
qed

lemma wp_map:
  assumes body: "\<And>x s. \<lbrakk>x \<in> set xs; I s\<rbrakk> \<Longrightarrow> wp e (f x) (\<lambda>_. I) E s"
    and start: "I s" and fin: "\<And>ys s'. I s' \<Longrightarrow> Q ys s'"
  shows "wp e (mapT xs f) Q E s"
  using body start fin
proof (induction xs arbitrary: s Q)
  case Nil
  then show ?case by (simp add: wp_ret)
next
  case (Cons x xs)
  have rest: "wp e (mapT xs f) (\<lambda>ys s'. wp e (retT (y # ys)) Q E s') E s'" if "I s'" for y s'
    by (rule Cons.IH [OF _ that]) (use Cons.prems in \<open>auto intro: wp_ret\<close>)
  have "wp e (f x) (\<lambda>y s'. wp e (bindT (mapT xs f) (\<lambda>ys. retT (y # ys))) Q E s') E s"
    by (rule wp_mono [OF Cons.prems(1)]) (use Cons.prems rest in \<open>auto intro: wp_bind\<close>)
  then show ?case by (simp add: wp_bind)
qed

text \<open>The method rule: what the body establishes carries over to the method.\<close>

lemma runT_rule:
  assumes "runT b body e n s = (r, s')"
    and "wp e body (\<lambda>(cerr, v) t. P cerr s \<and> P v t) (\<lambda>v g. P v (g s)) s"
    and "P b s"
  shows "P r s'"
proof -
  from assms(2) have "case body e (Suc n) s of (Ret r g, n', s') \<Rightarrow> P r (g s)
      | (Cont (cerr, v), n', t) \<Rightarrow> P cerr s \<and> P v t"
    by (fastforce simp: wp_def split: prod.splits outcome.splits)
  with assms(1,3) show ?thesis
    by (fastforce simp: runT_def split: if_splits prod.splits outcome.splits)
qed

lemma runN_runT: "runN b body e n s = (r, n', s') \<Longrightarrow> runT b body e n s = (r, s')"
  by (auto simp: runN_def runT_def split: if_splits prod.splits outcome.splits)

lemma runT_runN: "runT b body e n s = (fst (runN b body e n s), snd (snd (runN b body e n s)))"
  by (auto simp: runN_def runT_def split: if_splits prod.splits outcome.splits)

lemma readN_rule:
  assumes "readN body e n s = (r, n')" and "wp e body (\<lambda>v t. P v) (\<lambda>v g. P v) s"
  shows "P r"
  using assms by (fastforce simp: readN_def wp_def split: prod.splits outcome.splits)

section \<open>Running transactions without faults\<close>

lemma run_ret [run_rules]: "retT a e n s = (Cont a, n, s)"
  by (simp add: retT_def)

lemma run_raise [run_rules]: "raiseT r e n s = (Ret r id, n, s)"
  by (simp add: raiseT_def)

lemma run_bind [run_rules]:
  "bindT m k e n s = (case m e n s of
     (Ret r g, n', s') \<Rightarrow> (Ret r g, n', s') | (Cont a, n', s') \<Rightarrow> k a e n' s')"
  by (simp add: bindT_def)

lemma run_query [run_rules]: "fault e = (\<lambda>_. False) \<Longrightarrow> queryT err f e n s = (Cont (f s), Suc n, s)"
  by (simp add: queryT_def)

lemma run_exec [run_rules]:
  "fault e = (\<lambda>_. False) \<Longrightarrow> execT err f e n s =
     (case f s of None \<Rightarrow> (Ret err id, Suc n, s) | Some s' \<Rightarrow> (Cont (), Suc n, s'))"
  by (simp add: execT_def)

lemma run_count [run_rules]:
  "fault e = (\<lambda>_. False) \<Longrightarrow> countT err c f e n s =
     (case f s of None \<Rightarrow> (Ret err id, Suc n, s) | Some s' \<Rightarrow> (Cont (c s), Suc n, s'))"
  by (simp add: countT_def)

lemma run_execU [run_rules]:
  "fault e = (\<lambda>_. False) \<Longrightarrow> execU violated err f e n s =
     (case f s of None \<Rightarrow> (Ret violated id, Suc n, s) | Some s' \<Rightarrow> (Cont (), Suc n, s'))"
  by (simp add: execU_def)

lemma run_ask [run_rules]: "askT f e n s = (Cont (f e n), Suc n, s)"
  by (simp add: askT_def)

lemma run_lift [run_rules]:
  "liftT w m e n s = (case m e n s of
     (Ret r g, n', s') \<Rightarrow> (Ret (w r) g, n', s') | (Cont a, n', s') \<Rightarrow> (Cont a, n', s'))"
  by (simp add: liftT_def)

lemma run_try [run_rules]:
  "tryT m e n s = (case m e n s of
     (Ret r g, n', s') \<Rightarrow> (Cont (Inl r), n', s) | (Cont a, n', s') \<Rightarrow> (Cont (Inr a), n', s'))"
  by (simp add: tryT_def)

lemma run_tx [run_rules]:
  "fault e = (\<lambda>_. False) \<Longrightarrow> runT b body e n s = (case body e (Suc n) s of
        (Ret r g, n', s') \<Rightarrow> (r, g s) | (Cont (c, r), n', s') \<Rightarrow> (r, s'))"
  by (simp add: runT_def split: prod.splits outcome.splits)

section \<open>Rows of a table\<close>

text \<open>
  A table is the list of its rows in insertion order.  \<open>rowWhere\<close> is the row a
  \<open>select ... where\<close> on a unique key returns, \<open>updateWhere\<close> and \<open>deleteWhere\<close>
  are the statements of those names, and \<open>sumOf\<close> is SQL's \<open>sum\<close>, which
  \<open>coalesce\<close> turns to 0 on no rows.
\<close>

abbreviation rowWhere :: "('a \<Rightarrow> bool) \<Rightarrow> 'a list \<Rightarrow> 'a option" where
  "rowWhere \<equiv> List.find"

definition updateWhere :: "('a \<Rightarrow> bool) \<Rightarrow> ('a \<Rightarrow> 'a) \<Rightarrow> 'a list \<Rightarrow> 'a list" where
  "updateWhere p f rows = map (\<lambda>r. if p r then f r else r) rows"

definition deleteWhere :: "('a \<Rightarrow> bool) \<Rightarrow> 'a list \<Rightarrow> 'a list" where
  "deleteWhere p rows = filter (\<lambda>r. \<not> p r) rows"

definition sumOf :: "('a \<Rightarrow> int) \<Rightarrow> 'a list \<Rightarrow> int" where
  "sumOf f rows = sum_list (map f rows)"

lemma sumOf_simps [simp]:
  "sumOf f [] = 0" "sumOf f (x # xs) = f x + sumOf f xs" "sumOf f (xs @ ys) = sumOf f xs + sumOf f ys"
  by (simp_all add: sumOf_def)

lemma updateWhere_simps [simp]:
  "updateWhere p f [] = []"
  "updateWhere p f (x # xs) = (if p x then f x else x) # updateWhere p f xs"
  by (simp_all add: updateWhere_def)

lemma deleteWhere_simps [simp]:
  "deleteWhere p [] = []"
  "deleteWhere p (x # xs) = (if p x then deleteWhere p xs else x # deleteWhere p xs)"
  by (simp_all add: deleteWhere_def)

lemma set_deleteWhere [simp]: "set (deleteWhere p rows) = {r \<in> set rows. \<not> p r}"
  by (auto simp: deleteWhere_def)

lemma set_updateWhere: "set (updateWhere p f rows) = (\<lambda>r. if p r then f r else r) ` set rows"
  by (simp add: updateWhere_def)

lemma map_updateWhere [simp]:
  "(\<And>r. p r \<Longrightarrow> h (f r) = h r) \<Longrightarrow> map h (updateWhere p f rows) = map h rows"
  by (induction rows) simp_all

lemma sumOf_updateWhere [simp]:
  "(\<And>r. p r \<Longrightarrow> h (f r) = h r) \<Longrightarrow> sumOf h (updateWhere p f rows) = sumOf h rows"
  by (simp add: sumOf_def)

lemma distinct_map_deleteWhere [simp]:
  "distinct (map k rows) \<Longrightarrow> distinct (map k (deleteWhere p rows))"
  by (simp add: deleteWhere_def distinct_map_filter)

lemma sumOf_nonneg: "(\<And>r. r \<in> set rows \<Longrightarrow> 0 \<le> h r) \<Longrightarrow> 0 \<le> sumOf h rows"
  by (induction rows) simp_all

lemma rowWhere_SomeD:
  "rowWhere p rows = Some r \<Longrightarrow> r \<in> set rows \<and> p r"
  by (induction rows) (auto split: if_splits)

lemma rowWhere_None: "rowWhere p rows = None \<longleftrightarrow> (\<forall>r \<in> set rows. \<not> p r)"
  by (induction rows) auto

lemma rowWhere_append:
  "rowWhere p (xs @ ys) = (case rowWhere p xs of None \<Rightarrow> rowWhere p ys | Some r \<Rightarrow> Some r)"
  by (induction xs) auto

lemma sumOf_delete_key:
  assumes "distinct (map k rows)" "rowWhere (\<lambda>r. k r = x) rows = Some r"
  shows "sumOf h (deleteWhere (\<lambda>r. k r = x) rows) = sumOf h rows - h r"
  using assms
proof (induction rows)
  case (Cons y ys)
  show ?case
  proof (cases "k y = x")
    case True
    with Cons.prems have "deleteWhere (\<lambda>r. k r = x) ys = ys"
      by (simp add: deleteWhere_def filter_id_conv image_iff) metis
    with True Cons.prems show ?thesis by simp
  next
    case False
    with Cons show ?thesis by simp
  qed
qed simp

lemma sumOf_update_key:
  assumes "distinct (map k rows)" "rowWhere (\<lambda>r. k r = x) rows = Some r"
  shows "sumOf h (updateWhere (\<lambda>r. k r = x) f rows) = sumOf h rows - h r + h (f r)"
  using assms
proof (induction rows)
  case (Cons y ys)
  show ?case
  proof (cases "k y = x")
    case True
    with Cons.prems have "updateWhere (\<lambda>r. k r = x) f ys = ys"
      by (simp add: updateWhere_def image_iff, intro map_idI) auto
    with True Cons.prems show ?thesis by simp
  next
    case False
    with Cons show ?thesis by simp
  qed
qed simp

lemma sumOf_filter_split:
  "sumOf h rows = sumOf h (filter p rows) + sumOf h (filter (\<lambda>r. \<not> p r) rows)"
  by (induction rows) simp_all

section \<open>Machine integers in columns\<close>

text \<open>A \<open>bigint\<close> column or an \<open>int64\<close> scan target.\<close>

definition int64 :: "int \<Rightarrow> bool" where
  "int64 v \<longleftrightarrow> - (2 ^ 63) \<le> v \<and> v < 2 ^ 63"

text \<open>Go's \<open>int\<close> and \<open>int64\<close> addition wraps around.\<close>

definition wrap64 :: "int \<Rightarrow> int" where
  "wrap64 v = (v + 2 ^ 63) mod 2 ^ 64 - 2 ^ 63"

lemma wrap64_id [simp]: "int64 v \<Longrightarrow> wrap64 v = v"
  by (simp add: int64_def wrap64_def)

lemma int64_wrap64 [simp]: "int64 (wrap64 v)"
  by (simp add: int64_def wrap64_def)

section \<open>Text\<close>

text \<open>\<open>strconv.FormatInt(v, 10)\<close> and the \<open>%d\<close> verb.\<close>

fun nat_digits :: "nat \<Rightarrow> string" where
  "nat_digits n = (if n < 10 then [char_of (48 + n)]
     else nat_digits (n div 10) @ [char_of (48 + n mod 10)])"

definition formatInt :: "int \<Rightarrow> string" where
  "formatInt v = (if v < 0 then ''-'' @ nat_digits (nat (- v)) else nat_digits (nat v))"

declare nat_digits.simps [simp del]

text \<open>\<open>strconv.ParseInt(raw, 10, 64)\<close>; \<open>None\<close> is its syntax or range error.\<close>

definition is_digit :: "char \<Rightarrow> bool" where
  "is_digit c \<longleftrightarrow> 48 \<le> (of_char c :: nat) \<and> (of_char c :: nat) \<le> 57"

definition digits_value :: "string \<Rightarrow> nat" where
  "digits_value ds = foldl (\<lambda>v c. 10 * v + (of_char c - 48)) 0 ds"

definition parseDigits :: "string \<Rightarrow> int option" where
  "parseDigits ds = (if ds \<noteq> [] \<and> list_all is_digit ds then Some (int (digits_value ds)) else None)"

definition parseInt :: "string \<Rightarrow> int option" where
  "parseInt raw =
     (case (case raw of [] \<Rightarrow> None
              | c # cs \<Rightarrow> if c = CHR ''+'' then parseDigits cs
                          else if c = CHR ''-'' then map_option uminus (parseDigits cs)
                          else parseDigits raw) of
        None \<Rightarrow> None
      | Some v \<Rightarrow> if int64 v then Some v else None)"

lemma digit_char: "d < 10 \<Longrightarrow> (of_char (char_of (48 + d) :: char) :: nat) = 48 + d"
  by simp

lemma nat_digits_ok: "nat_digits n \<noteq> [] \<and> list_all is_digit (nat_digits n) \<and> digits_value (nat_digits n) = n"
proof (induction n rule: nat_digits.induct)
  case (1 n)
  show ?case
  proof (cases "n < 10")
    case True
    then show ?thesis
      by (subst (1 2 3) nat_digits.simps) (simp add: is_digit_def digits_value_def)
  next
    case False
    with 1 have IH: "list_all is_digit (nat_digits (n div 10))" "digits_value (nat_digits (n div 10)) = n div 10"
      by simp_all
    have "digits_value (xs @ [char_of (48 + n mod 10)]) = 10 * digits_value xs + n mod 10" for xs
      by (simp add: digits_value_def)
    moreover have "nat_digits n = nat_digits (n div 10) @ [char_of (48 + n mod 10)]"
      by (subst nat_digits.simps) (simp add: False)
    moreover have "is_digit (char_of (48 + n mod 10))"
      by (simp add: is_digit_def less_Suc_eq_le [symmetric])
    ultimately show ?thesis using IH by simp
  qed
qed

lemma parseDigits_nat_digits [simp]: "parseDigits (nat_digits n) = Some (int n)"
  by (simp add: parseDigits_def nat_digits_ok)

lemma parseInt_formatInt [simp]:
  assumes "int64 v"
  shows "parseInt (formatInt v) = Some v"
proof (cases "v < 0")
  case True
  then show ?thesis using assms by (simp add: parseInt_def formatInt_def)
next
  case False
  obtain c cs where ds: "nat_digits (nat v) = c # cs" "is_digit c"
    using nat_digits_ok [of "nat v"] by (cases "nat_digits (nat v)") auto
  then have "c \<noteq> CHR ''+''" "c \<noteq> CHR ''-''"
    by (auto simp: is_digit_def)
  with ds(1) have "parseInt (c # cs) = (case parseDigits (c # cs) of
      None \<Rightarrow> None | Some v \<Rightarrow> if int64 v then Some v else None)"
    by (simp add: parseInt_def)
  then show ?thesis
    using False assms ds(1) parseDigits_nat_digits [of "nat v"] by (simp add: formatInt_def)
qed

text \<open>
  \<open>strings.TrimSpace\<close>: a Go string is its UTF-8 bytes, and the trimmed runes are
  the Unicode white space, listed here by encoding.
\<close>

definition space_codes :: "nat list list" where
  "space_codes = [[9], [10], [11], [12], [13], [32], [0xC2, 0x85], [0xC2, 0xA0], [0xE1, 0x9A, 0x80],
     [0xE2, 0x80, 0x80], [0xE2, 0x80, 0x81], [0xE2, 0x80, 0x82], [0xE2, 0x80, 0x83], [0xE2, 0x80, 0x84],
     [0xE2, 0x80, 0x85], [0xE2, 0x80, 0x86], [0xE2, 0x80, 0x87], [0xE2, 0x80, 0x88], [0xE2, 0x80, 0x89],
     [0xE2, 0x80, 0x8A], [0xE2, 0x80, 0xA8], [0xE2, 0x80, 0xA9], [0xE2, 0x80, 0xAF], [0xE2, 0x81, 0x9F],
     [0xE3, 0x80, 0x80]]"

definition spaces :: "string list" where
  "spaces = map (map char_of) space_codes"

lemma spaces_nonempty: "w \<in> set spaces \<Longrightarrow> 0 < length w"
  by (auto simp: spaces_def space_codes_def)

function trimPrefix :: "string list \<Rightarrow> string \<Rightarrow> string" where
  "trimPrefix ws s = (case List.find (\<lambda>w. 0 < length w \<and> length w \<le> length s \<and> take (length w) s = w) ws of
     None \<Rightarrow> s
   | Some w \<Rightarrow> trimPrefix ws (drop (length w) s))"
  by auto
termination
proof (relation "measure (\<lambda>(ws, s). length s)")
  fix ws w and s :: string
  assume "List.find (\<lambda>w. 0 < length w \<and> length w \<le> length s \<and> take (length w) s = w) ws = Some w"
  from rowWhere_SomeD [OF this] have "0 < length w" "length w \<le> length s"
    by simp_all
  then have "length s - length w < length s"
    by arith
  then show "((ws, drop (length w) s), ws, s) \<in> measure (\<lambda>(ws, s). length s)"
    by simp
qed simp

declare trimPrefix.simps [simp del]

definition TrimSpace :: "string \<Rightarrow> string" where
  "TrimSpace s = rev (trimPrefix (map rev spaces) (rev (trimPrefix spaces s)))"

lemma length_trimPrefix: "length (trimPrefix ws s) \<le> length s"
proof (induction ws s rule: trimPrefix.induct)
  case (1 ws s)
  then show ?case
    by (subst trimPrefix.simps) (auto split: option.split intro: order_trans)
qed

lemma length_TrimSpace: "length (TrimSpace s) \<le> length s"
  unfolding TrimSpace_def length_rev
  by (metis length_rev length_trimPrefix order_trans)

end
