(* ===== verification/Core.thy ===== *)
theory Core
  imports Prelude
begin

text \<open>
  \<open>internal/core\<close>: domain errors, identifiers, pagination and the sealed string
  enumerations.  A Go result interface with an accepted and a rejected variant
  is a sum whose left side is the domain error.
\<close>

section \<open>Domain errors\<close>

datatype ErrorCode =
    ErrorCodeInvalidID
  | ErrorCodeInvalidEnum
  | ErrorCodeInvalidState
  | ErrorCodeInvalidArgument
  | ErrorCodeNotFound
  | ErrorCodePermissionDenied
  | ErrorCodeConflict
  | ErrorCodeUnauthenticated
  | ErrorCodeRateLimited
  | ErrorCodeBudgetExceeded
  | ErrorCodeUnavailable

datatype DomainError = NewDomainError (Code: ErrorCode) (Description: string)

type_synonym 'a result = "DomainError + 'a"

fun ErrorCode_String :: "ErrorCode \<Rightarrow> string" where
  "ErrorCode_String ErrorCodeInvalidID = ''invalid_id''"
| "ErrorCode_String ErrorCodeInvalidEnum = ''invalid_enum''"
| "ErrorCode_String ErrorCodeInvalidState = ''invalid_state''"
| "ErrorCode_String ErrorCodeInvalidArgument = ''invalid_argument''"
| "ErrorCode_String ErrorCodeNotFound = ''not_found''"
| "ErrorCode_String ErrorCodePermissionDenied = ''permission_denied''"
| "ErrorCode_String ErrorCodeConflict = ''conflict''"
| "ErrorCode_String ErrorCodeUnauthenticated = ''unauthenticated''"
| "ErrorCode_String ErrorCodeRateLimited = ''rate_limited''"
| "ErrorCode_String ErrorCodeBudgetExceeded = ''budget_exceeded''"
| "ErrorCode_String ErrorCodeUnavailable = ''unavailable''"

definition AllErrorCodes :: "ErrorCode list" where
  "AllErrorCodes = [ErrorCodeInvalidID, ErrorCodeInvalidEnum, ErrorCodeInvalidState,
     ErrorCodeInvalidArgument, ErrorCodeNotFound, ErrorCodePermissionDenied, ErrorCodeConflict,
     ErrorCodeUnauthenticated, ErrorCodeRateLimited, ErrorCodeBudgetExceeded, ErrorCodeUnavailable]"

section \<open>Identifiers\<close>

text \<open>
  An identifier is the canonical text of its UUID.  Parsing and generating
  UUIDs is the \<open>google/uuid\<close> package: the environment's \<open>uuid_parse\<close> and
  \<open>uuid_new\<close>, whose left results are the package's error texts.
\<close>

type_synonym UserID = string
type_synonym TaskID = string
type_synonym OrganizationID = string
type_synonym SubmissionID = string
type_synonym CollectibleID = string
type_synonym CreditAccountID = string
type_synonym LedgerEntryID = string
type_synonym AgentCredentialID = string
type_synonym TaskReservationID = string
type_synonym TaskSeriesID = string
type_synonym TeamID = string
type_synonym SubmissionReceiptTokenID = string
type_synonym DomainEventID = string

fun fromIDResult :: "string + string \<Rightarrow> string result" where
  "fromIDResult (Inr v) = Inr v"
| "fromIDResult (Inl description) = Inl (NewDomainError ErrorCodeInvalidID description)"

text \<open>A parser that accepts an identifier gives back its text: the texts it is given are canonical.\<close>

definition exactIDs :: "env \<Rightarrow> bool" where
  "exactIDs e \<longleftrightarrow> (\<forall>x y. uuid_parse e x = Inr y \<longrightarrow> y = x)"

lemma fromIDResult_Inr: "fromIDResult x = Inr v \<longleftrightarrow> x = Inr v"
  by (cases x) simp_all

definition ParseUserID :: "env \<Rightarrow> string \<Rightarrow> UserID result" where
  "ParseUserID e raw = fromIDResult (uuid_parse e raw)"

definition ParseTaskID :: "env \<Rightarrow> string \<Rightarrow> TaskID result" where
  "ParseTaskID e raw = fromIDResult (uuid_parse e raw)"

definition ParseSubmissionID :: "env \<Rightarrow> string \<Rightarrow> SubmissionID result" where
  "ParseSubmissionID e raw = fromIDResult (uuid_parse e raw)"

definition ParseCollectibleID :: "env \<Rightarrow> string \<Rightarrow> CollectibleID result" where
  "ParseCollectibleID e raw = fromIDResult (uuid_parse e raw)"

definition ParseCreditAccountID :: "env \<Rightarrow> string \<Rightarrow> CreditAccountID result" where
  "ParseCreditAccountID e raw = fromIDResult (uuid_parse e raw)"

definition ParseLedgerEntryID :: "env \<Rightarrow> string \<Rightarrow> LedgerEntryID result" where
  "ParseLedgerEntryID e raw = fromIDResult (uuid_parse e raw)"

definition NewDomainEventID :: "env \<Rightarrow> nat \<Rightarrow> DomainEventID result" where
  "NewDomainEventID e n = fromIDResult (uuid_new e n)"

lemmas parse_id_defs [val_simps] =
  ParseUserID_def ParseTaskID_def ParseSubmissionID_def ParseCollectibleID_def
  ParseCreditAccountID_def ParseLedgerEntryID_def NewDomainEventID_def

text \<open>Inside a transaction, a text that does not parse returns the parser's reason.\<close>

definition parseT :: "(env \<Rightarrow> string \<Rightarrow> 'a result) \<Rightarrow> string \<Rightarrow> ('s, DomainError, 'a) tx" where
  "parseT p raw = bindT (askT (\<lambda>e n. p e raw))
     (\<lambda>r. case r of Inl reason \<Rightarrow> raiseT reason | Inr v \<Rightarrow> retT v)"

lemma wp_parse [wp_rules]:
  "\<lbrakk>\<And>v. p e raw = Inr v \<Longrightarrow> Q v s; \<And>reason. E reason id\<rbrakk> \<Longrightarrow> wp e (parseT p raw) Q E s"
  unfolding parseT_def by (intro wp_rules) simp_all

lemma run_parse [run_rules]: "p e raw = Inr v \<Longrightarrow> parseT p raw e n s = (Cont v, Suc n, s)"
  by (simp add: parseT_def run_rules)

text \<open>
  A query over several rows: the statement, a scan and a parse per row, and the
  error state of the row iterator after the loop.
\<close>

definition scanT ::
  "'r \<Rightarrow> 'r \<Rightarrow> 'r \<Rightarrow> ('s \<Rightarrow> 'a list) \<Rightarrow> ('a \<Rightarrow> ('s, 'r, 'b) tx) \<Rightarrow> ('s, 'r, 'b list) tx" where
  "scanT queryErr scanErr rowsErr rows parse =
     bindT (queryT queryErr rows)
     (\<lambda>rs. bindT (mapT rs (\<lambda>r. bindT (queryT scanErr (\<lambda>_. r)) parse))
     (\<lambda>vs. bindT (queryT rowsErr (\<lambda>_. ())) (\<lambda>_. retT vs)))"

lemma wp_scan:
  assumes "E queryErr id" "E scanErr id" "E rowsErr id"
    and "\<And>r. r \<in> set (rows s) \<Longrightarrow> wp e (parse r) (\<lambda>_ s'. s' = s) E s"
    and "\<And>vs. Q vs s"
  shows "wp e (scanT queryErr scanErr rowsErr rows parse) Q E s"
  unfolding scanT_def
proof (intro wp_rules assms(1,3))
  show "wp e (mapT (rows s) (\<lambda>r. bindT (queryT scanErr (\<lambda>_. r)) parse))
     (\<lambda>a s'. wp e (bindT (queryT rowsErr (\<lambda>_. ())) (\<lambda>_. retT a)) Q E s') E s"
    by (rule wp_map [where I = "\<lambda>t. t = s"]) (auto intro!: wp_rules assms)
qed

lemma run_mapT_ok:
  assumes "fault e = (\<lambda>_. False)" "\<And>r n. r \<in> set rs \<Longrightarrow> parse r e n s = (Cont (f r), Suc n, s)"
  shows "mapT rs (\<lambda>r. bindT (queryT err (\<lambda>_. r)) parse) e n s = (Cont (map f rs), n + 2 * length rs, s)"
  using assms by (induction rs arbitrary: n) (simp_all add: run_rules)

lemma run_scan:
  assumes "fault e = (\<lambda>_. False)" "\<And>r n. r \<in> set (rows s) \<Longrightarrow> parse r e n s = (Cont (f r), Suc n, s)"
  shows "scanT q c w rows parse e n s = (Cont (map f (rows s)), n + 2 * length (rows s) + 2, s)"
  using run_mapT_ok [where e = e and s = s and rs = "rows s" and parse = parse and f = f] assms
  by (simp add: scanT_def run_rules)

definition SystemUserID :: UserID where
  "SystemUserID = ''00000000-0000-7000-8000-000000000001''"

section \<open>Pagination\<close>

record Page =
  page_limit :: int
  page_offset :: int

definition pageLimitMaximum :: int where "pageLimitMaximum = 200"

definition DefaultPage :: Page where
  "DefaultPage = \<lparr>page_limit = 100, page_offset = 0\<rparr>"

definition NewPage :: "int \<Rightarrow> int \<Rightarrow> Page result" where
  "NewPage l off =
     (if l < 1 then Inl (NewDomainError ErrorCodeInvalidArgument ''page limit must be positive'')
      else if off < 0 then Inl (NewDomainError ErrorCodeInvalidArgument ''page offset must not be negative'')
      else Inr \<lparr>page_limit = (if l > pageLimitMaximum then pageLimitMaximum else l), page_offset = off\<rparr>)"

definition Probe :: "Page \<Rightarrow> Page" where
  "Probe p = \<lparr>page_limit = wrap64 (page_limit p + 1), page_offset = page_offset p\<rparr>"

definition ProbeListWindow :: "int \<Rightarrow> Page \<Rightarrow> int \<times> int" where
  "ProbeListWindow fetched page =
     (if fetched > page_limit page then (page_limit page, wrap64 (page_offset page + page_limit page))
      else (fetched, 0))"

text \<open>The rows \<open>limit l offset o\<close> of a query selects from the ordered rows.\<close>

definition sqlPage :: "Page \<Rightarrow> 'a list \<Rightarrow> 'a list" where
  "sqlPage page rows = take (nat (page_limit page)) (drop (nat (page_offset page)) rows)"

section \<open>Sealed string enumerations\<close>

text \<open>
  Every closed set of values is a Go struct around its wire string with a
  \<open>String\<close> method and a \<open>Parse\<close> function.  The interface: parsing accepts a text
  exactly when it is the wire string of the value it returns.
\<close>

locale sealed_enum =
  fixes to_string :: "'k \<Rightarrow> string" and parse :: "string \<Rightarrow> 'k result"
  assumes parse_accepts: "parse raw = Inr k \<longleftrightarrow> raw = to_string k"
begin

lemma parse_to_string [simp]: "parse (to_string k) = Inr k"
  by (simp add: parse_accepts)

lemma to_string_inject: "to_string k = to_string k' \<Longrightarrow> k = k'"
  by (metis parse_to_string sum.inject(2))

lemma parse_rejects: "(\<exists>r. parse raw = Inl r) \<longleftrightarrow> raw \<notin> range to_string"
proof (cases "parse raw")
  case (Inl r)
  then have "raw \<noteq> to_string k" for k
    using parse_accepts by (metis Inl_Inr_False)
  with Inl show ?thesis by auto
qed (simp add: parse_accepts)

end

text \<open>A parser that searches a list of all values, as \<open>ParseKind\<close> does.\<close>

definition parseFrom :: "'k list \<Rightarrow> ('k \<Rightarrow> string) \<Rightarrow> DomainError \<Rightarrow> string \<Rightarrow> 'k result" where
  "parseFrom ks str err raw = (case List.find (\<lambda>k. str k = raw) ks of None \<Rightarrow> Inl err | Some k \<Rightarrow> Inr k)"

lemma sealed_enum_parseFrom:
  assumes "\<And>k. k \<in> set ks" "distinct (map str ks)"
  shows "sealed_enum str (parseFrom ks str err)"
proof
  fix raw k
  have inj: "str k = str k' \<Longrightarrow> k = k'" for k k'
    using assms by (metis distinct_map inj_onD)
  have "List.find (\<lambda>k. str k = raw) ks = Some k \<longleftrightarrow> raw = str k"
    using rowWhere_SomeD [of "\<lambda>k. str k = raw" ks] rowWhere_None [of "\<lambda>k. str k = raw" ks] assms(1) inj
    by (cases "List.find (\<lambda>k. str k = raw) ks") auto
  then show "parseFrom ks str err raw = Inr k \<longleftrightarrow> raw = str k"
    by (auto simp: parseFrom_def split: option.splits)
qed

subsection \<open>Visibility and lifecycle kinds\<close>

datatype VisibilityKind = VisibilityKindPublic | VisibilityKindUser | VisibilityKindOrganization

datatype VisibilityScope = PublicVisibility | UserVisibility UserID | OrganizationVisibility OrganizationID

fun VisibilityKind_String :: "VisibilityKind \<Rightarrow> string" where
  "VisibilityKind_String VisibilityKindPublic = ''public''"
| "VisibilityKind_String VisibilityKindUser = ''user''"
| "VisibilityKind_String VisibilityKindOrganization = ''organization''"

definition ParseVisibilityKind :: "string \<Rightarrow> VisibilityKind result" where
  "ParseVisibilityKind raw =
     (if raw = ''public'' then Inr VisibilityKindPublic
      else if raw = ''user'' then Inr VisibilityKindUser
      else if raw = ''organization'' then Inr VisibilityKindOrganization
      else Inl (NewDomainError ErrorCodeInvalidEnum ''unknown visibility kind''))"

interpretation visibility_kind: sealed_enum VisibilityKind_String ParseVisibilityKind
  by unfold_locales (rename_tac raw k, case_tac k; simp add: ParseVisibilityKind_def)

datatype LifecycleState =
  LifecycleStateDraft | LifecycleStateActive | LifecycleStateClosed | LifecycleStateCancelled

fun LifecycleState_String :: "LifecycleState \<Rightarrow> string" where
  "LifecycleState_String LifecycleStateDraft = ''draft''"
| "LifecycleState_String LifecycleStateActive = ''active''"
| "LifecycleState_String LifecycleStateClosed = ''closed''"
| "LifecycleState_String LifecycleStateCancelled = ''cancelled''"

definition ParseLifecycleState :: "string \<Rightarrow> LifecycleState result" where
  "ParseLifecycleState raw =
     (if raw = ''draft'' then Inr LifecycleStateDraft
      else if raw = ''active'' then Inr LifecycleStateActive
      else if raw = ''closed'' then Inr LifecycleStateClosed
      else if raw = ''cancelled'' then Inr LifecycleStateCancelled
      else Inl (NewDomainError ErrorCodeInvalidState ''unknown lifecycle state''))"

interpretation lifecycle_state: sealed_enum LifecycleState_String ParseLifecycleState
  by unfold_locales (rename_tac raw k, case_tac k; simp add: ParseLifecycleState_def)

end
