(* ===== verification/TaskValues.thy ===== *)
theory TaskValues
  imports Core
begin

text \<open>
  \<open>internal/task\<close>: the enumerations of a task's life, the state transitions the
  service checks before it asks the store for one, and the work budget an agent
  credential carries (\<open>models.go\<close>, \<open>work_budget.go\<close>).
\<close>

section \<open>Task states\<close>

datatype TaskState = StateDraft | StateOpen | StateClosed | StateCancelled | StateExpired

fun TaskState_String :: "TaskState \<Rightarrow> string" where
  "TaskState_String StateDraft = ''draft''"
| "TaskState_String StateOpen = ''open''"
| "TaskState_String StateClosed = ''closed''"
| "TaskState_String StateCancelled = ''cancelled''"
| "TaskState_String StateExpired = ''expired''"

definition ParseState :: "string \<Rightarrow> TaskState result" where
  "ParseState raw =
     (if raw = ''draft'' then Inr StateDraft
      else if raw = ''open'' then Inr StateOpen
      else if raw = ''closed'' then Inr StateClosed
      else if raw = ''cancelled'' then Inr StateCancelled
      else if raw = ''expired'' then Inr StateExpired
      else Inl (NewDomainError ErrorCodeInvalidEnum ''task state is invalid''))"

interpretation task_state: sealed_enum TaskState_String ParseState
  by unfold_locales (rename_tac raw k, case_tac k; simp add: ParseState_def)

definition OpenState :: "TaskState \<Rightarrow> TaskState result" where
  "OpenState current =
     (if current \<noteq> StateDraft
      then Inl (NewDomainError ErrorCodeInvalidState ''only draft tasks can be opened'')
      else Inr StateOpen)"

definition CancelState :: "TaskState \<Rightarrow> TaskState result" where
  "CancelState current =
     (if current \<in> {StateDraft, StateOpen} then Inr StateCancelled
      else Inl (NewDomainError ErrorCodeInvalidState ''task cannot be cancelled from this state''))"

definition UnpublishState :: "TaskState \<Rightarrow> TaskState result" where
  "UnpublishState current =
     (if current \<noteq> StateOpen
      then Inl (NewDomainError ErrorCodeInvalidState ''only an open task can be moved back to draft'')
      else Inr StateDraft)"

definition ExpireState :: "TaskState \<Rightarrow> TaskState result" where
  "ExpireState current =
     (if current \<noteq> StateOpen
      then Inl (NewDomainError ErrorCodeInvalidState ''only open tasks can expire'')
      else Inr StateExpired)"

lemmas transition_defs = OpenState_def CancelState_def UnpublishState_def ExpireState_def

text \<open>
  The life of a task: the four checked transitions, and the close that accepting
  a submission performs on an open task.
\<close>

inductive task_step :: "TaskState \<Rightarrow> TaskState \<Rightarrow> bool" where
  "OpenState s = Inr t \<Longrightarrow> task_step s t"
| "CancelState s = Inr t \<Longrightarrow> task_step s t"
| "UnpublishState s = Inr t \<Longrightarrow> task_step s t"
| "ExpireState s = Inr t \<Longrightarrow> task_step s t"
| "task_step StateOpen StateClosed"

inductive_cases task_stepE: "task_step s t"

lemma task_step_iff:
  "task_step s t \<longleftrightarrow> (s = StateDraft \<and> t \<in> {StateOpen, StateCancelled}) \<or>
     (s = StateOpen \<and> t \<in> {StateDraft, StateClosed, StateCancelled, StateExpired})"
  by (auto simp: task_step.simps transition_defs split: if_splits)

definition settled :: "TaskState \<Rightarrow> bool" where
  "settled s \<longleftrightarrow> s \<in> {StateClosed, StateCancelled, StateExpired}"

lemma settled_final: "settled s \<Longrightarrow> \<not> task_step s t"
  by (auto simp: settled_def task_step_iff)

lemma settled_stays: "\<lbrakk>task_step\<^sup>*\<^sup>* s t; settled s\<rbrakk> \<Longrightarrow> t = s"
  by (induction rule: converse_rtranclp_induct) (use settled_final in blast)+

section \<open>Reward, participation, reservation\<close>

datatype RewardKind = RewardKindNone | RewardKindCredit | RewardKindCollectible | RewardKindBundle

datatype RewardSpec =
    NoRewardSpec
  | CreditRewardSpec int
  | CollectibleRewardSpec int
  | BundleRewardSpec int int

definition NewCreditRewardAmount :: "int \<Rightarrow> int result" where
  "NewCreditRewardAmount v =
     (if v \<le> 0 then Inl (NewDomainError ErrorCodeInvalidArgument ''credit reward amount must be positive'')
      else Inr v)"

definition NewCollectibleRewardCount :: "int \<Rightarrow> int result" where
  "NewCollectibleRewardCount v =
     (if v \<le> 0 then Inl (NewDomainError ErrorCodeInvalidArgument ''collectible reward count must be positive'')
      else Inr v)"

datatype ParticipationPolicy = ParticipationPolicyOpen | ParticipationPolicyReservationRequired

datatype AssigneeScope = AssigneeScopeUser | AssigneeScopeOrganizationTeam | AssigneeScopeTeam

datatype ReservationState =
    ReservationStateRequested
  | ReservationStateActive
  | ReservationStateDeclined
  | ReservationStateCancelledByRequester
  | ReservationStateCancelledByWorker
  | ReservationStateExpired
  | ReservationStateSubmitted

datatype SubmissionState =
    SubmissionStateSubmitted
  | SubmissionStateInvalid
  | SubmissionStateAccepted
  | SubmissionStateRejected
  | SubmissionStateChangesRequested
  | SubmissionStateSuperseded

text \<open>Expiration instants, as nanoseconds since the Unix epoch.\<close>

datatype ExpirationPolicy = NoExpiration | ExpiresAt int

definition NewExpiresAt :: "int \<Rightarrow> int \<Rightarrow> ExpirationPolicy result" where
  "NewExpiresAt instant now =
     (if \<not> instant > now
      then Inl (NewDomainError ErrorCodeInvalidArgument ''task expiration must be in the future'')
      else Inr (ExpiresAt instant))"

section \<open>Task types\<close>

datatype TaskType =
    TaskTypeGeneral | TaskTypeCodeReview | TaskTypeSecurityReview | TaskTypeProductReview
  | TaskTypeUIUXReview | TaskTypeQATesting | TaskTypeDocumentReview | TaskTypeDocumentationWriting
  | TaskTypeDiagramWriting | TaskTypePlanning | TaskTypeResearch | TaskTypeDataExtraction
  | TaskTypeTroubleshooting | TaskTypeCodeAnalysis | TaskTypeArchitectureReview | TaskTypeThreatAnalysis

fun TaskType_String :: "TaskType \<Rightarrow> string" where
  "TaskType_String TaskTypeGeneral = ''general''"
| "TaskType_String TaskTypeCodeReview = ''code_review''"
| "TaskType_String TaskTypeSecurityReview = ''security_review''"
| "TaskType_String TaskTypeProductReview = ''product_review''"
| "TaskType_String TaskTypeUIUXReview = ''ui_ux_review''"
| "TaskType_String TaskTypeQATesting = ''qa_testing''"
| "TaskType_String TaskTypeDocumentReview = ''document_review''"
| "TaskType_String TaskTypeDocumentationWriting = ''documentation_writing''"
| "TaskType_String TaskTypeDiagramWriting = ''diagram_writing''"
| "TaskType_String TaskTypePlanning = ''planning''"
| "TaskType_String TaskTypeResearch = ''research''"
| "TaskType_String TaskTypeDataExtraction = ''data_extraction''"
| "TaskType_String TaskTypeTroubleshooting = ''troubleshooting''"
| "TaskType_String TaskTypeCodeAnalysis = ''code_analysis''"
| "TaskType_String TaskTypeArchitectureReview = ''architecture_review''"
| "TaskType_String TaskTypeThreatAnalysis = ''threat_analysis''"

definition AllTaskTypes :: "TaskType list" where
  "AllTaskTypes = [TaskTypeGeneral, TaskTypeCodeReview, TaskTypeSecurityReview, TaskTypeProductReview,
     TaskTypeUIUXReview, TaskTypeQATesting, TaskTypeDocumentReview, TaskTypeDocumentationWriting,
     TaskTypeDiagramWriting, TaskTypePlanning, TaskTypeResearch, TaskTypeDataExtraction,
     TaskTypeTroubleshooting, TaskTypeCodeAnalysis, TaskTypeArchitectureReview, TaskTypeThreatAnalysis]"

definition ParseTaskType :: "string \<Rightarrow> TaskType result" where
  "ParseTaskType raw =
     (if raw = '''' then Inr TaskTypeGeneral
      else parseFrom AllTaskTypes TaskType_String
             (NewDomainError ErrorCodeInvalidEnum ''task type is invalid'') raw)"

text \<open>
  The empty text stands for the general type, so the parser is a sealed
  enumeration on the nonempty texts only.
\<close>

interpretation task_type: sealed_enum TaskType_String
    "parseFrom AllTaskTypes TaskType_String (NewDomainError ErrorCodeInvalidEnum ''task type is invalid'')"
proof (rule sealed_enum_parseFrom)
  show "k \<in> set AllTaskTypes" for k
    by (cases k) (simp_all add: AllTaskTypes_def)
  show "distinct (map TaskType_String AllTaskTypes)"
    by (simp add: AllTaskTypes_def)
qed

lemma ParseTaskType_String: "ParseTaskType (TaskType_String t) = Inr t"
  using task_type.parse_to_string [of t] by (cases t) (simp_all add: ParseTaskType_def)

definition ParseParticipationPolicy :: "string \<Rightarrow> ParticipationPolicy result" where
  "ParseParticipationPolicy raw =
     (if raw = ''open'' then Inr ParticipationPolicyOpen
      else if raw = ''reservation_required'' then Inr ParticipationPolicyReservationRequired
      else Inl (NewDomainError ErrorCodeInvalidEnum ''task participation policy is invalid''))"

fun ParticipationPolicy_String :: "ParticipationPolicy \<Rightarrow> string" where
  "ParticipationPolicy_String ParticipationPolicyOpen = ''open''"
| "ParticipationPolicy_String ParticipationPolicyReservationRequired = ''reservation_required''"

interpretation participation_policy: sealed_enum ParticipationPolicy_String ParseParticipationPolicy
  by unfold_locales (rename_tac raw k, case_tac k; simp add: ParseParticipationPolicy_def)

fun ReservationState_String :: "ReservationState \<Rightarrow> string" where
  "ReservationState_String ReservationStateRequested = ''requested''"
| "ReservationState_String ReservationStateActive = ''active''"
| "ReservationState_String ReservationStateDeclined = ''declined''"
| "ReservationState_String ReservationStateCancelledByRequester = ''cancelled_by_requester''"
| "ReservationState_String ReservationStateCancelledByWorker = ''cancelled_by_worker''"
| "ReservationState_String ReservationStateExpired = ''expired''"
| "ReservationState_String ReservationStateSubmitted = ''submitted''"

definition ParseReservationState :: "string \<Rightarrow> ReservationState result" where
  "ParseReservationState raw =
     (if raw = ''requested'' then Inr ReservationStateRequested
      else if raw = ''active'' then Inr ReservationStateActive
      else if raw = ''declined'' then Inr ReservationStateDeclined
      else if raw = ''cancelled_by_requester'' then Inr ReservationStateCancelledByRequester
      else if raw = ''cancelled_by_worker'' then Inr ReservationStateCancelledByWorker
      else if raw = ''expired'' then Inr ReservationStateExpired
      else if raw = ''submitted'' then Inr ReservationStateSubmitted
      else Inl (NewDomainError ErrorCodeInvalidEnum ''task reservation state is invalid''))"

interpretation reservation_state: sealed_enum ReservationState_String ParseReservationState
  by unfold_locales (rename_tac raw k, case_tac k; simp add: ParseReservationState_def)

section \<open>Work budgets of agent credentials\<close>

datatype ReservationConcurrencyCap = NoReservationConcurrencyCap | ReservationConcurrencyCapAtMost int

datatype WorkTaskTypeCheck = AnyWorkTaskType | OnlyWorkTaskTypes "TaskType list"

datatype WorkRewardFloor = NoWorkRewardFloor | WorkRewardFloorAtLeast int

record CredentialWorkBudget =
  DailyTaskLimit :: int
  Concurrent :: ReservationConcurrencyCap
  Types :: WorkTaskTypeCheck
  RewardFloor :: WorkRewardFloor

datatype CredentialWorkPolicy = CredentialWorkDisabled | CredentialWorkEnabled CredentialWorkBudget

datatype WorkerOrigin =
    WorkerIsUser
  | WorkerViaTaskCredential AgentCredentialID
  | WorkerViaCredential AgentCredentialID CredentialWorkPolicy

datatype ReservationOrigin =
    ReservedByUserSession
  | ReservedViaWorkCredential AgentCredentialID int ReservationConcurrencyCap

datatype WorkBudgetCharge = NoWorkBudgetCharge | ChargeDailyTaskBudget AgentCredentialID int

fun Allows :: "TaskType list \<Rightarrow> TaskType \<Rightarrow> bool" where
  "Allows [] t = False"
| "Allows (allowed # rest) t = (if allowed = t then True else Allows rest t)"

fun creditRewardOf :: "RewardSpec \<Rightarrow> int" where
  "creditRewardOf (CreditRewardSpec amount) = amount"
| "creditRewardOf (BundleRewardSpec credit _) = credit"
| "creditRewardOf _ = 0"

text \<open>\<open>None\<close> is the nil problem: the policy permits the task.\<close>

definition checkWorkPolicyAgainstTask :: "CredentialWorkBudget \<Rightarrow> TaskType \<Rightarrow> RewardSpec \<Rightarrow> DomainError option" where
  "checkWorkPolicyAgainstTask budget type reward =
     (let typeDenied = (case Types budget of OnlyWorkTaskTypes ts \<Rightarrow> \<not> Allows ts type | AnyWorkTaskType \<Rightarrow> False);
          floorDenied = (case RewardFloor budget of
             WorkRewardFloorAtLeast minimum \<Rightarrow> creditRewardOf reward < minimum | NoWorkRewardFloor \<Rightarrow> False)
      in if typeDenied then Some (NewDomainError ErrorCodePermissionDenied
              (''agent credential is not allowed to work '' @ TaskType_String type @ '' tasks''))
         else if floorDenied then Some (NewDomainError ErrorCodePermissionDenied
              (''task credit reward is below the agent credential'' @ [CHR 0x27] @ ''s minimum reward floor''))
         else None)"

definition WorkBudgetForSubmission ::
  "WorkerOrigin \<Rightarrow> ParticipationPolicy \<Rightarrow> TaskType \<Rightarrow> RewardSpec \<Rightarrow> WorkBudgetCharge result" where
  "WorkBudgetForSubmission origin participation type reward = (case origin of
     WorkerViaCredential credentialID policy \<Rightarrow>
       if participation = ParticipationPolicyReservationRequired then Inr NoWorkBudgetCharge
       else (case policy of
          CredentialWorkDisabled \<Rightarrow> Inl (NewDomainError ErrorCodePermissionDenied
            ''agent credential is not enabled for work-seeking; its owner must enable it with a work budget'')
        | CredentialWorkEnabled budget \<Rightarrow>
            (case checkWorkPolicyAgainstTask budget type reward of
               Some problem \<Rightarrow> Inl problem
             | None \<Rightarrow> Inr (ChargeDailyTaskBudget credentialID (DailyTaskLimit budget))))
   | _ \<Rightarrow> Inr NoWorkBudgetCharge)"

lemma Allows_iff: "Allows ts t \<longleftrightarrow> t \<in> set ts"
  by (induction ts t rule: Allows.induct) auto

section \<open>Owners and visibility\<close>

datatype OwnerKind = OwnerKindUser | OwnerKindTeam | OwnerKindOrganization | OwnerKindOrganizationTeam

datatype Owner =
    UserOwner UserID
  | TeamOwner TeamID
  | OrganizationOwner OrganizationID
  | OrganizationTeamOwner OrganizationID TeamID

text \<open>Who may see a task; the names are those of the package \<open>task\<close>.\<close>

datatype Visibility =
    PublicVisibility
  | UserVisibility UserID
  | TeamVisibility TeamID
  | OrganizationVisibility OrganizationID
  | OrganizationTeamVisibility OrganizationID TeamID

end
