(* ===== verification/Events.thy ===== *)
theory Events
  imports Core
begin

text \<open>
  \<open>internal/event\<close>: the closed set of event kinds, event drafts and their
  recipients, cursors, and the outbox dispatch states.
\<close>

section \<open>Kinds\<close>

datatype Kind =
    KindTaskOpened | KindTaskFunded | KindTaskCancelled | KindTaskExpired | KindTaskCommented
  | KindSeriesCommented | KindReservationRequested | KindReservationApproved | KindReservationDeclined
  | KindReservationCancelled | KindReservationExpired | KindSubmissionCreated | KindSubmissionAccepted
  | KindSubmissionChangesRequested | KindSubmissionRejected | KindSubmissionSuperseded
  | KindSubmissionCommented | KindPayoutReceived | KindCreditGranted | KindTipReceived
  | KindCollectibleAwarded | KindCollectibleWithdrawn | KindCollectibleReleased | KindCreditsSent

fun Kind_String :: "Kind \<Rightarrow> string" where
  "Kind_String KindTaskOpened = ''task_opened''"
| "Kind_String KindTaskFunded = ''task_funded''"
| "Kind_String KindTaskCancelled = ''task_cancelled''"
| "Kind_String KindTaskExpired = ''task_expired''"
| "Kind_String KindTaskCommented = ''task_commented''"
| "Kind_String KindSeriesCommented = ''series_commented''"
| "Kind_String KindReservationRequested = ''reservation_requested''"
| "Kind_String KindReservationApproved = ''reservation_approved''"
| "Kind_String KindReservationDeclined = ''reservation_declined''"
| "Kind_String KindReservationCancelled = ''reservation_cancelled''"
| "Kind_String KindReservationExpired = ''reservation_expired''"
| "Kind_String KindSubmissionCreated = ''submission_created''"
| "Kind_String KindSubmissionAccepted = ''submission_accepted''"
| "Kind_String KindSubmissionChangesRequested = ''submission_changes_requested''"
| "Kind_String KindSubmissionRejected = ''submission_rejected''"
| "Kind_String KindSubmissionSuperseded = ''submission_superseded''"
| "Kind_String KindSubmissionCommented = ''submission_commented''"
| "Kind_String KindPayoutReceived = ''payout_received''"
| "Kind_String KindCreditGranted = ''credit_granted''"
| "Kind_String KindTipReceived = ''tip_received''"
| "Kind_String KindCollectibleAwarded = ''collectible_awarded''"
| "Kind_String KindCollectibleWithdrawn = ''collectible_withdrawn''"
| "Kind_String KindCollectibleReleased = ''collectible_released''"
| "Kind_String KindCreditsSent = ''credits_sent''"

definition AllKinds :: "Kind list" where
  "AllKinds = [KindTaskOpened, KindTaskFunded, KindTaskCancelled, KindTaskExpired, KindTaskCommented,
     KindSeriesCommented, KindReservationRequested, KindReservationApproved, KindReservationDeclined,
     KindReservationCancelled, KindReservationExpired, KindSubmissionCreated, KindSubmissionAccepted,
     KindSubmissionChangesRequested, KindSubmissionRejected, KindSubmissionSuperseded,
     KindSubmissionCommented, KindPayoutReceived, KindCreditGranted, KindTipReceived,
     KindCollectibleAwarded, KindCollectibleWithdrawn, KindCollectibleReleased, KindCreditsSent]"

definition ParseKind :: "string \<Rightarrow> Kind result" where
  "ParseKind = parseFrom AllKinds Kind_String (NewDomainError ErrorCodeInvalidEnum ''unknown domain event kind'')"

interpretation event_kind: sealed_enum Kind_String ParseKind
  unfolding ParseKind_def
proof (rule sealed_enum_parseFrom)
  show "k \<in> set AllKinds" for k
    by (cases k) (simp_all add: AllKinds_def)
  show "distinct (map Kind_String AllKinds)"
    by (simp add: AllKinds_def)
qed

section \<open>Actors, subjects and recipients\<close>

datatype Actor = ActorUser UserID | ActorSystem

fun ActorUserID :: "Actor \<Rightarrow> UserID" where
  "ActorUserID (ActorUser i) = i"
| "ActorUserID ActorSystem = SystemUserID"

record EventSubject =
  sj_task :: "TaskID option"
  sj_submission :: "SubmissionID option"
  sj_reservation :: "TaskReservationID option"
  sj_series :: "TaskSeriesID option"
  sj_organization :: "OrganizationID option"
  sj_collectible :: "CollectibleID option"

definition NoSubjectRefs :: EventSubject where
  "NoSubjectRefs = \<lparr>sj_task = None, sj_submission = None, sj_reservation = None,
     sj_series = None, sj_organization = None, sj_collectible = None\<rparr>"

fun newRecipientsLoop :: "UserID set \<Rightarrow> UserID list \<Rightarrow> UserID list" where
  "newRecipientsLoop seen [] = []"
| "newRecipientsLoop seen (u # us) =
     (if u \<in> seen then newRecipientsLoop seen us else u # newRecipientsLoop (insert u seen) us)"

definition NewRecipients :: "UserID list \<Rightarrow> UserID list" where
  "NewRecipients users = newRecipientsLoop {} users"

lemma set_newRecipientsLoop: "set (newRecipientsLoop seen us) = set us - seen"
  by (induction seen us rule: newRecipientsLoop.induct) auto

lemma distinct_newRecipientsLoop: "distinct (newRecipientsLoop seen us)"
  by (induction seen us rule: newRecipientsLoop.induct) (auto simp: set_newRecipientsLoop)

lemma NewRecipients_set [simp]: "set (NewRecipients us) = set us"
  by (simp add: NewRecipients_def set_newRecipientsLoop)

lemma NewRecipients_distinct [simp]: "distinct (NewRecipients us)"
  by (simp add: NewRecipients_def distinct_newRecipientsLoop)

lemma newRecipientsLoop_fresh:
  "\<lbrakk>distinct us; set us \<inter> seen = {}\<rbrakk> \<Longrightarrow> newRecipientsLoop seen us = us"
  by (induction seen us rule: newRecipientsLoop.induct) auto

lemma NewRecipients_idem [simp]: "NewRecipients (NewRecipients us) = NewRecipients us"
  by (simp add: NewRecipients_def newRecipientsLoop_fresh distinct_newRecipientsLoop)

section \<open>Drafts\<close>

type_synonym Metadata = string

definition TaskMetadata :: "TaskID \<Rightarrow> Metadata" where
  "TaskMetadata taskID = ''{\"task_id\":\"'' @ taskID @ ''\"}''"

definition TaskAmountMetadata :: "TaskID \<Rightarrow> int \<Rightarrow> Metadata" where
  "TaskAmountMetadata taskID amount =
     ''{\"task_id\":\"'' @ taskID @ ''\",\"amount\":'' @ formatInt amount @ ''}''"

definition AmountMetadata :: "int \<Rightarrow> Metadata" where
  "AmountMetadata amount = ''{\"amount\":'' @ formatInt amount @ ''}''"

definition TaskRefundMetadata :: "TaskID \<Rightarrow> Metadata" where
  "TaskRefundMetadata taskID = ''{\"task_id\":\"'' @ taskID @ ''\",\"cause\":\"refund\"}''"

definition TaskCollectibleMetadata :: "TaskID \<Rightarrow> CollectibleID \<Rightarrow> Metadata" where
  "TaskCollectibleMetadata taskID collectibleID =
     ''{\"task_id\":\"'' @ taskID @ ''\",\"collectible_id\":\"'' @ collectibleID @ ''\"}''"

record Draft =
  dr_id :: DomainEventID
  dr_kind :: Kind
  dr_actor :: Actor
  dr_subject :: EventSubject
  dr_metadata :: Metadata
  dr_recipients :: "UserID list"

definition NewDraft ::
  "Kind \<Rightarrow> Actor \<Rightarrow> EventSubject \<Rightarrow> Metadata \<Rightarrow> UserID list \<Rightarrow> ('s, DomainError, Draft) tx" where
  "NewDraft kind actor subject metadata recipients =
     bindT (askT NewDomainEventID) (\<lambda>created. case created of
       Inl reason \<Rightarrow> raiseT reason
     | Inr i \<Rightarrow> retT \<lparr>dr_id = i, dr_kind = kind, dr_actor = actor, dr_subject = subject,
                   dr_metadata = metadata, dr_recipients = recipients\<rparr>)"

definition WithRecipients :: "Draft \<Rightarrow> UserID list \<Rightarrow> Draft" where
  "WithRecipients draft users =
     draft\<lparr>dr_recipients := NewRecipients (dr_recipients draft @ users)\<rparr>"

datatype Plan = NoEvent | Record Draft

section \<open>Dispatch states\<close>

datatype DispatchState = DispatchStateRecorded | DispatchStateDispatched | DispatchStateFailed

fun DispatchState_String :: "DispatchState \<Rightarrow> string" where
  "DispatchState_String DispatchStateRecorded = ''recorded''"
| "DispatchState_String DispatchStateDispatched = ''dispatched''"
| "DispatchState_String DispatchStateFailed = ''dispatch_failed''"

definition ParseDispatchState :: "string \<Rightarrow> DispatchState result" where
  "ParseDispatchState raw =
     (if raw = ''recorded'' then Inr DispatchStateRecorded
      else if raw = ''dispatched'' then Inr DispatchStateDispatched
      else if raw = ''dispatch_failed'' then Inr DispatchStateFailed
      else Inl (NewDomainError ErrorCodeInvalidEnum ''unknown event dispatch state''))"

interpretation dispatch_state: sealed_enum DispatchState_String ParseDispatchState
  by unfold_locales (rename_tac raw k, case_tac k; simp add: ParseDispatchState_def)

section \<open>Cursors\<close>

type_synonym Cursor = int

definition Cursor_String :: "Cursor \<Rightarrow> string" where
  "Cursor_String c = formatInt c"

definition ParseCursor :: "string \<Rightarrow> Cursor result" where
  "ParseCursor raw = (case parseInt raw of
     None \<Rightarrow> Inl (NewDomainError ErrorCodeInvalidArgument ''event cursor must be a non-negative integer'')
   | Some sequence \<Rightarrow>
       if sequence < 0
       then Inl (NewDomainError ErrorCodeInvalidArgument ''event cursor must be a non-negative integer'')
       else Inr sequence)"

lemma ParseCursor_roundtrip:
  "\<lbrakk>0 \<le> c; int64 c\<rbrakk> \<Longrightarrow> ParseCursor (Cursor_String c) = Inr c"
  by (simp add: ParseCursor_def Cursor_String_def)

end
