(* ===== verification/LedgerValues.thy ===== *)
theory LedgerValues
  imports Core Events
begin

text \<open>
  \<open>internal/ledger\<close> values: amounts, idempotency keys, entry kinds, the
  selections of a review, and the spend budget an origin carries
  (\<open>values.go\<close>, \<open>models.go\<close>, \<open>results.go\<close>, \<open>work_budget.go\<close>).
\<close>

section \<open>Amounts, keys and notes\<close>

type_synonym CreditAmount = int
type_synonym IdempotencyKey = string

definition NewCreditAmount :: "int \<Rightarrow> CreditAmount result" where
  "NewCreditAmount v =
     (if v \<le> 0
      then Inl (NewDomainError ErrorCodeInvalidArgument ''credit amount must be a positive number of base units'')
      else Inr v)"

definition ParseSignedAmount :: "int \<Rightarrow> int result" where
  "ParseSignedAmount v =
     (if v = 0 then Inl (NewDomainError ErrorCodeInvalidArgument ''ledger entry amount must be non-zero'')
      else Inr v)"

record Balance =
  spendable :: int
  allocated :: int

definition Total :: "Balance \<Rightarrow> int" where
  "Total b = wrap64 (spendable b + allocated b)"

definition NewIdempotencyKey :: "string \<Rightarrow> IdempotencyKey result" where
  "NewIdempotencyKey raw =
     (if raw = '''' then Inl (NewDomainError ErrorCodeInvalidArgument ''idempotency key is required'')
      else if length raw > 200 then Inl (NewDomainError ErrorCodeInvalidArgument ''idempotency key is too long'')
      else Inr raw)"

definition NewGrantNote :: "string \<Rightarrow> string result" where
  "NewGrantNote raw =
     (let trimmed = TrimSpace raw in
      if trimmed = '''' then Inl (NewDomainError ErrorCodeInvalidArgument ''credit grant note is required'')
      else if length trimmed > 500 then Inl (NewDomainError ErrorCodeInvalidArgument ''credit grant note is too long'')
      else Inr trimmed)"

definition SignupGrantAmount :: CreditAmount where "SignupGrantAmount = 100"

section \<open>Entry kinds\<close>

datatype EntryKind =
    EntryKindSignupGrant
  | EntryKindTaskFund
  | EntryKindTaskRefund
  | EntryKindTaskPayout
  | EntryKindTaskTip
  | EntryKindManualAdjustment
  | EntryKindPeerTransfer

fun EntryKind_String :: "EntryKind \<Rightarrow> string" where
  "EntryKind_String EntryKindSignupGrant = ''signup_grant''"
| "EntryKind_String EntryKindTaskFund = ''task_fund''"
| "EntryKind_String EntryKindTaskRefund = ''task_refund''"
| "EntryKind_String EntryKindTaskPayout = ''task_payout''"
| "EntryKind_String EntryKindTaskTip = ''task_tip''"
| "EntryKind_String EntryKindManualAdjustment = ''manual_adjustment''"
| "EntryKind_String EntryKindPeerTransfer = ''peer_transfer''"

definition ParseEntryKind :: "string \<Rightarrow> EntryKind result" where
  "ParseEntryKind raw =
     (if raw = ''signup_grant'' then Inr EntryKindSignupGrant
      else if raw = ''task_fund'' then Inr EntryKindTaskFund
      else if raw = ''task_refund'' then Inr EntryKindTaskRefund
      else if raw = ''task_payout'' then Inr EntryKindTaskPayout
      else if raw = ''task_tip'' then Inr EntryKindTaskTip
      else if raw = ''manual_adjustment'' then Inr EntryKindManualAdjustment
      else if raw = ''peer_transfer'' then Inr EntryKindPeerTransfer
      else Inl (NewDomainError ErrorCodeInvalidEnum ''ledger entry kind is invalid''))"

interpretation entry_kind: sealed_enum EntryKind_String ParseEntryKind
  by unfold_locales (rename_tac raw k, case_tac k; simp add: ParseEntryKind_def)

section \<open>Review selections, transfers and outcomes\<close>

datatype GrantTarget = GrantToUser UserID | GrantToOrganization OrganizationID

datatype CreditReviewSelection =
  FullCreditReviewSelection | PartialCreditReviewSelection CreditAmount | NoCreditReviewSelection

datatype TipSelection = NoTipSelection | CreditTipSelection CreditAmount

datatype CollectibleTipSelection = NoCollectibleTipSelection | CollectibleTipSelected CollectibleID

datatype Reviewer = UserReviewer UserID | OrganizationReviewer OrganizationID

datatype BanSelection = NoBanSelection | BanImplementorSelection

datatype TransferSource = TransferFromSelf | TransferFromOrganization OrganizationID

datatype TransferTarget = TransferToUser UserID | TransferToOrganization OrganizationID

datatype TransferNote = NoTransferNote | TransferNoteProvided string

datatype Execution = FirstExecution | IdempotentReplay

record TaskFund =
  fund_task :: TaskID
  fund_account :: CreditAccountID
  fund_amount :: CreditAmount

datatype PayoutOutcome =
    NoPayout
  | CreditPayout UserID CreditAmount
  | CollectiblePayout UserID "CollectibleID list"
  | BundlePayout UserID CreditAmount "CollectibleID list"

datatype TipOutcome =
    NoTip
  | CreditTip UserID CreditAmount
  | CollectibleTip UserID CollectibleID
  | BundleTip UserID CreditAmount CollectibleID

datatype FundResult = TaskFunded TaskFund Execution "Draft list" | FundRejected DomainError

datatype AcceptResult =
    SubmissionAccepted TaskID SubmissionID UserID PayoutOutcome TipOutcome Execution "Draft list"
  | AcceptRejected DomainError

datatype RequestChangesResult =
    ChangesRequested TaskID SubmissionID UserID string Execution "Draft list"
  | RequestChangesRejected DomainError

datatype RejectResult =
    SubmissionRejected TaskID SubmissionID UserID PayoutOutcome TipOutcome Execution "Draft list"
  | RejectRejected DomainError

datatype RefundResult = TaskRefunded TaskFund Execution "Draft list" | RefundRejected DomainError

datatype GrantResult =
    CreditsGranted LedgerEntryID CreditAmount "UserID list" Execution "Draft list"
  | GrantRejected DomainError

datatype SendResult =
    CreditsSent LedgerEntryID CreditAmount "UserID list" Execution "Draft list"
  | SendRejected DomainError

section \<open>Spend budgets\<close>

definition DailyPeerTransferCeilingCredits :: int where
  "DailyPeerTransferCeilingCredits = 500"

datatype SpendDayCap = NoSpendDayCap | SpendDayCapAtMost CreditAmount

datatype SpendOrigin = SpendByUser | SpendViaWorkCredential AgentCredentialID SpendDayCap

datatype SpendCharge = NoSpendCharge | ChargeSpendBudget AgentCredentialID CreditAmount CreditAmount

fun spendChargeFor :: "SpendOrigin \<Rightarrow> CreditAmount \<Rightarrow> SpendCharge" where
  "spendChargeFor (SpendViaWorkCredential credential (SpendDayCapAtMost cap)) amount =
     ChargeSpendBudget credential cap amount"
| "spendChargeFor _ amount = NoSpendCharge"

fun tipSpendChargeFor :: "SpendOrigin \<Rightarrow> TipSelection \<Rightarrow> SpendCharge" where
  "tipSpendChargeFor origin (CreditTipSelection amount) = spendChargeFor origin amount"
| "tipSpendChargeFor origin NoTipSelection = NoSpendCharge"

section \<open>Merging outcomes\<close>

definition combinePayouts :: "PayoutOutcome \<Rightarrow> PayoutOutcome \<Rightarrow> PayoutOutcome" where
  "combinePayouts first second = (case (first, second) of
     (CreditPayout w a, CollectiblePayout w' cs) \<Rightarrow> if w = w' then BundlePayout w a cs else first
   | (NoPayout, _) \<Rightarrow> second
   | _ \<Rightarrow> first)"

definition combineTips :: "TipOutcome \<Rightarrow> TipOutcome \<Rightarrow> TipOutcome" where
  "combineTips first second = (case (first, second) of
     (CreditTip w a, CollectibleTip w' c) \<Rightarrow> if w = w' then BundleTip w a c else first
   | (NoTip, _) \<Rightarrow> second
   | _ \<Rightarrow> first)"

lemma combinePayouts_None_iff: "combinePayouts a b = NoPayout \<longleftrightarrow> a = NoPayout \<and> b = NoPayout"
  by (cases a; cases b) (auto simp: combinePayouts_def)

section \<open>Review events\<close>

fun reviewerActor :: "Reviewer \<Rightarrow> Actor \<times> UserID list" where
  "reviewerActor (UserReviewer i) = (ActorUser i, [i])"
| "reviewerActor (OrganizationReviewer _) = (ActorSystem, [])"

definition ReviewEventDrafts ::
  "Draft \<Rightarrow> Reviewer \<Rightarrow> TaskID \<Rightarrow> PayoutOutcome \<Rightarrow> TipOutcome \<Rightarrow> ('s, DomainError, Draft list) tx" where
  "ReviewEventDrafts reviewDraft reviewer taskID payout tip =
     (let (actor, extra) = reviewerActor reviewer;
          draftFor = (\<lambda>kind metadata worker.
             NewDraft kind actor (dr_subject reviewDraft) metadata (NewRecipients (worker # extra)))
      in bindT (case payout of
            CreditPayout w a \<Rightarrow> bindT (draftFor KindPayoutReceived (TaskAmountMetadata taskID a) w) (\<lambda>d. retT [d])
          | CollectiblePayout w cs \<Rightarrow> bindT (draftFor KindPayoutReceived (TaskMetadata taskID) w) (\<lambda>d. retT [d])
          | BundlePayout w a cs \<Rightarrow> bindT (draftFor KindPayoutReceived (TaskAmountMetadata taskID a) w) (\<lambda>d. retT [d])
          | NoPayout \<Rightarrow> retT [])
        (\<lambda>payoutDrafts. bindT (case tip of
            CreditTip w a \<Rightarrow> bindT (draftFor KindTipReceived (TaskAmountMetadata taskID a) w) (\<lambda>d. retT [d])
          | CollectibleTip w c \<Rightarrow> bindT (draftFor KindTipReceived (TaskCollectibleMetadata taskID c) w) (\<lambda>d. retT [d])
          | BundleTip w a c \<Rightarrow> bindT (draftFor KindTipReceived (TaskAmountMetadata taskID a) w) (\<lambda>d. retT [d])
          | NoTip \<Rightarrow> retT [])
        (\<lambda>tipDrafts. retT (payoutDrafts @ tipDrafts))))"

text \<open>Drawing up drafts touches no table.\<close>

lemma wp_NewDraft [wp_rules]:
  "\<lbrakk>\<And>i. Q \<lparr>dr_id = i, dr_kind = k, dr_actor = a, dr_subject = sj, dr_metadata = m, dr_recipients = rs\<rparr> s;
    \<And>r. E r id\<rbrakk> \<Longrightarrow> wp e (NewDraft k a sj m rs) Q E s"
  unfolding NewDraft_def by (intro wp_rules) simp_all

lemma wp_ReviewEventDrafts [wp_rules]:
  "\<lbrakk>\<And>ds. Q ds s; \<And>r. E r id\<rbrakk> \<Longrightarrow> wp e (ReviewEventDrafts d rv t p tp) Q E s"
  unfolding ReviewEventDrafts_def
  by (cases p; cases tp; cases "reviewerActor rv") (simp_all add: wp_rules)

end
