(* ===== verification/Organization.thy ===== *)
theory Organization
  imports Core
begin

text \<open>
  \<open>internal/org/roles.go\<close>, \<open>internal/orgactor\<close> and \<open>internal/authz\<close>: which
  permissions an organization role carries, and how an actor (a user, a guest
  or an organization-wide credential) gets access to an organization's
  resources.
\<close>

section \<open>Roles and permissions\<close>

datatype Role = RoleOwner | RoleAdmin | RoleMember | RoleBilling | RoleReviewer | RolePublicPublisher

fun Role_String :: "Role \<Rightarrow> string" where
  "Role_String RoleOwner = ''owner''"
| "Role_String RoleAdmin = ''admin''"
| "Role_String RoleMember = ''member''"
| "Role_String RoleBilling = ''billing''"
| "Role_String RoleReviewer = ''reviewer''"
| "Role_String RolePublicPublisher = ''public_publisher''"

definition ParseRole :: "string \<Rightarrow> Role result" where
  "ParseRole raw =
     (if raw = ''owner'' then Inr RoleOwner
      else if raw = ''admin'' then Inr RoleAdmin
      else if raw = ''member'' then Inr RoleMember
      else if raw = ''billing'' then Inr RoleBilling
      else if raw = ''reviewer'' then Inr RoleReviewer
      else if raw = ''public_publisher'' then Inr RolePublicPublisher
      else Inl (NewDomainError ErrorCodeInvalidEnum ''organization role is invalid''))"

interpretation role_enum: sealed_enum Role_String ParseRole
  by unfold_locales (rename_tac raw k, case_tac k; simp add: ParseRole_def)

datatype Permission =
    PermissionManageMembers
  | PermissionManageTeams
  | PermissionCreateOrganizationTask
  | PermissionReviewSubmissions
  | PermissionManageBilling
  | PermissionManageWallets
  | PermissionManageCollectibles
  | PermissionPublishPublicTask
  | PermissionSwitchTaskVisibility

datatype PermissionCheck = PermissionGranted | PermissionDenied DomainError

definition adminPermission :: "Permission \<Rightarrow> PermissionCheck" where
  "adminPermission permission =
     (if permission \<in> {PermissionManageMembers, PermissionManageTeams, PermissionCreateOrganizationTask,
          PermissionReviewSubmissions, PermissionSwitchTaskVisibility, PermissionManageCollectibles}
      then PermissionGranted
      else PermissionDenied (NewDomainError ErrorCodePermissionDenied ''admin role does not grant permission''))"

definition billingPermission :: "Permission \<Rightarrow> PermissionCheck" where
  "billingPermission permission =
     (if permission = PermissionManageBilling then PermissionGranted
      else PermissionDenied (NewDomainError ErrorCodePermissionDenied ''billing role does not grant permission''))"

definition reviewerPermission :: "Permission \<Rightarrow> PermissionCheck" where
  "reviewerPermission permission =
     (if permission = PermissionReviewSubmissions then PermissionGranted
      else PermissionDenied (NewDomainError ErrorCodePermissionDenied ''reviewer role does not grant permission''))"

definition publisherPermission :: "Permission \<Rightarrow> PermissionCheck" where
  "publisherPermission permission =
     (if permission \<in> {PermissionPublishPublicTask, PermissionSwitchTaskVisibility} then PermissionGranted
      else PermissionDenied (NewDomainError ErrorCodePermissionDenied ''public publisher role does not grant permission''))"

fun roleGrantsPermission :: "Role \<Rightarrow> Permission \<Rightarrow> PermissionCheck" where
  "roleGrantsPermission RoleOwner p = PermissionGranted"
| "roleGrantsPermission RoleAdmin p = adminPermission p"
| "roleGrantsPermission RoleBilling p = billingPermission p"
| "roleGrantsPermission RoleReviewer p = reviewerPermission p"
| "roleGrantsPermission RolePublicPublisher p = publisherPermission p"
| "roleGrantsPermission RoleMember p =
     PermissionDenied (NewDomainError ErrorCodePermissionDenied ''role does not grant permission'')"

fun CheckPermission :: "Role list \<Rightarrow> Permission \<Rightarrow> PermissionCheck" where
  "CheckPermission [] p =
     PermissionDenied (NewDomainError ErrorCodePermissionDenied ''organization permission denied'')"
| "CheckPermission (r # rs) p =
     (case roleGrantsPermission r p of
        PermissionGranted \<Rightarrow> PermissionGranted
      | PermissionDenied _ \<Rightarrow> CheckPermission rs p)"

lemma CheckPermission_granted:
  "CheckPermission rs p = PermissionGranted \<longleftrightarrow> (\<exists>r \<in> set rs. roleGrantsPermission r p = PermissionGranted)"
  by (induction rs) (auto split: PermissionCheck.split)

lemma CheckPermission_denied:
  "CheckPermission rs p = PermissionDenied d \<Longrightarrow>
     d = NewDomainError ErrorCodePermissionDenied ''organization permission denied''"
  by (induction rs) (auto split: PermissionCheck.splits)

lemma roleGrantsPermission_iff:
  "roleGrantsPermission r p = PermissionGranted \<longleftrightarrow>
     r = RoleOwner \<or>
     r = RoleAdmin \<and> p \<in> {PermissionManageMembers, PermissionManageTeams, PermissionCreateOrganizationTask,
        PermissionReviewSubmissions, PermissionSwitchTaskVisibility, PermissionManageCollectibles} \<or>
     r = RoleBilling \<and> p = PermissionManageBilling \<or>
     r = RoleReviewer \<and> p = PermissionReviewSubmissions \<or>
     r = RolePublicPublisher \<and> p \<in> {PermissionPublishPublicTask, PermissionSwitchTaskVisibility}"
  by (cases r) (simp_all add: adminPermission_def billingPermission_def reviewerPermission_def publisherPermission_def)

section \<open>Actors and organization access\<close>

datatype Subject = UserSubject UserID | GuestSubject string | OrgSubject OrganizationID

datatype OrgActor = NotApplicable | Match | Mismatch

definition Check :: "Subject \<Rightarrow> OrganizationID \<Rightarrow> OrgActor" where
  "Check actor organizationID = (case actor of
     OrgSubject i \<Rightarrow> if i = organizationID then Match else Mismatch
   | _ \<Rightarrow> NotApplicable)"

datatype Decision = Granted | Denied DomainError

type_synonym checker = "OrganizationID \<Rightarrow> UserID \<Rightarrow> Permission \<Rightarrow> PermissionCheck"

definition RequireOrganizationAccess ::
  "Subject \<Rightarrow> OrganizationID \<Rightarrow> checker \<Rightarrow> Permission \<Rightarrow> ErrorCode \<Rightarrow> string \<Rightarrow> Decision" where
  "RequireOrganizationAccess actor organizationID checker permission deniedCode deniedReason =
     (case Check actor organizationID of
        Match \<Rightarrow> Granted
      | Mismatch \<Rightarrow> Denied (NewDomainError deniedCode deniedReason)
      | NotApplicable \<Rightarrow>
          (case actor of
             UserSubject u \<Rightarrow>
               (case checker organizationID u permission of
                  PermissionDenied reason \<Rightarrow> Denied reason
                | PermissionGranted \<Rightarrow> Granted)
           | _ \<Rightarrow> Denied (NewDomainError deniedCode deniedReason)))"

text \<open>
  The checker is an interface of the Go code: what the clients rely on is that
  a user is granted exactly what one of the user's active roles grants.
\<close>

locale permission_checker =
  fixes check :: checker and roles_of :: "OrganizationID \<Rightarrow> UserID \<Rightarrow> Role list"
  assumes check_roles: "check org user p = PermissionGranted \<longleftrightarrow>
      (\<exists>r \<in> set (roles_of org user). roleGrantsPermission r p = PermissionGranted)"
begin

lemma access_granted_iff:
  "RequireOrganizationAccess actor org check p code why = Granted \<longleftrightarrow>
     actor = OrgSubject org \<or>
     (\<exists>u. actor = UserSubject u \<and>
        (\<exists>r \<in> set (roles_of org u). roleGrantsPermission r p = PermissionGranted))"
  using check_roles
  by (cases actor)
     (auto simp: RequireOrganizationAccess_def Check_def split: PermissionCheck.split,
      (metis PermissionCheck.distinct(1))+)

lemma guest_denied:
  "RequireOrganizationAccess (GuestSubject g) org check p code why = Denied (NewDomainError code why)"
  by (simp add: RequireOrganizationAccess_def Check_def)

lemma access_mono:
  assumes "RequireOrganizationAccess (UserSubject u) org check p code why = Granted"
    and "\<And>r. r \<in> set (roles_of org u) \<Longrightarrow> roleGrantsPermission r p = PermissionGranted \<Longrightarrow>
           roleGrantsPermission r q = PermissionGranted"
  shows "RequireOrganizationAccess (UserSubject u) org check q code why = Granted"
  using assms unfolding access_granted_iff by blast

end

interpretation member_roles: permission_checker "\<lambda>org user. CheckPermission (roles org user)" roles
  for roles :: "OrganizationID \<Rightarrow> UserID \<Rightarrow> Role list"
  by unfold_locales (simp add: CheckPermission_granted)

end
