(* ===== verification/Database.thy ===== *)
theory Database
  imports TaskValues LedgerValues Organization
begin

text \<open>
  The tables the stores of \<open>internal/db\<close> work on, with the unique and check
  constraints of the migrations that the code relies on, and the invariant those
  constraints and the stores maintain.  A table is the list of its rows in
  insertion order; an insert that violates a constraint is \<open>None\<close>.  The
  foreign keys of submissions, attachments and their side tables are checked; any
  other violated one is a failing statement, which the fault oracle covers.
\<close>

section \<open>Rows\<close>

record account_row =
  ca_id :: CreditAccountID
  ca_user :: "UserID option"
  ca_organization :: "OrganizationID option"

record ledger_row =
  le_id :: LedgerEntryID
  le_account :: CreditAccountID
  le_kind :: EntryKind
  le_amount :: int
  le_task :: "TaskID option"
  le_key :: "string option"
  le_note :: "string option"

record fund_row =
  tf_task :: TaskID
  tf_account :: CreditAccountID
  tf_amount :: int

record task_row =
  tk_id :: TaskID
  tk_state :: TaskState
  tk_created_by :: UserID
  tk_organization :: "OrganizationID option"
  tk_reward_kind :: RewardKind
  tk_reward_amount :: "int option"
  tk_participation :: ParticipationPolicy
  tk_ttl_hours :: int
  tk_expires_at :: "int option"
  tk_series :: "TaskSeriesID option"
  tk_series_position :: "int option"
  tk_owner_kind :: OwnerKind
  tk_user :: "UserID option"
  tk_team :: "TeamID option"
  tk_type :: TaskType
  tk_assignee_scope :: AssigneeScope
  tk_visibility :: Visibility
  tk_response_schema :: string

record submission_row =
  sb_id :: SubmissionID
  sb_task :: TaskID
  sb_user :: UserID
  sb_state :: SubmissionState
  sb_accepted_key :: "string option"
  sb_changes_key :: "string option"
  sb_review_key :: "string option"
  sb_note :: "string option"
  sb_reviewed_by :: "UserID option"
  sb_response :: string
  sb_created_at :: int

record reservation_row =
  rv_id :: TaskReservationID
  rv_task :: TaskID
  rv_assignee :: AssigneeScope
  rv_user :: "UserID option"
  rv_team :: "string option"
  rv_organization :: "OrganizationID option"
  rv_state :: ReservationState
  rv_requested_by :: UserID
  rv_expires_at :: int
  rv_credential :: "AgentCredentialID option"

record ban_row =
  bn_task :: TaskID
  bn_assignee :: AssigneeScope
  bn_key :: string
  bn_user :: "UserID option"
  bn_team :: "string option"
  bn_organization :: "OrganizationID option"
  bn_banned_by :: UserID

datatype CollectibleState =
  CollectibleStateMinted | CollectibleStateEscrowed | CollectibleStateAwarded | CollectibleStateWithdrawn

datatype TransferPolicy =
    TransferPolicyNonTransferableExceptPayout
  | TransferPolicyTransferableBetweenUsers
  | TransferPolicyTransferableWithinOrg
  | TransferPolicyIssuerControlled

datatype CollectibleOwnerKind =
  CollectibleOwnerKindUser | CollectibleOwnerKindTeam | CollectibleOwnerKindOrganization

record collectible_row =
  co_id :: CollectibleID
  co_state :: CollectibleState
  co_policy :: TransferPolicy
  co_owner_kind :: CollectibleOwnerKind
  co_owner :: string
  co_organization :: string

datatype SeriesState = SeriesStateDraft | SeriesStatePublished | SeriesStateClosed

record series_row =
  sr_id :: TaskSeriesID
  sr_state :: SeriesState

datatype MembershipStatus = MembershipStatusActive | MembershipStatusDeactivated | MembershipStatusRemoved

record membership_row =
  mb_organization :: OrganizationID
  mb_user :: UserID
  mb_status :: MembershipStatus
  mb_roles :: "string list"

record counter_row =
  ct_key :: string
  ct_day :: int
  ct_used :: int

record receipt_row =
  rt_id :: SubmissionReceiptTokenID
  rt_submission :: SubmissionID
  rt_hash :: string

record validation_error_row =
  ve_submission :: SubmissionID
  ve_index :: nat
  ve_path :: string
  ve_message :: string

record sensitive_field_row =
  sv_submission :: SubmissionID
  sv_index :: nat
  sv_path :: string
  sv_category :: string
  sv_retention :: string
  sv_redaction :: string
  sv_state :: string
  sv_redacted_at :: string

record attachment_row =
  at_owner :: string
  at_index :: nat
  at_filename :: string
  at_content_type :: string
  at_content :: string

record user_row =
  us_id :: UserID
  us_email :: string
  us_display_name :: string

datatype TeamOwnerKind = TeamOwnerKindOrganization | TeamOwnerKindUser

record team_row =
  tm_id :: TeamID
  tm_owner_kind :: TeamOwnerKind
  tm_organization :: "OrganizationID option"
  tm_owner_user :: "UserID option"
  tm_name :: string
  tm_created_by :: UserID

record event_row =
  ev_seq :: nat
  ev_draft :: Draft
  ev_state :: DispatchState

record db =
  credit_accounts :: "account_row list"
  ledger_entries :: "ledger_row list"
  task_funds :: "fund_row list"
  task_fund_collectibles :: "(TaskID \<times> CollectibleID) list"
  tasks :: "task_row list"
  submissions :: "submission_row list"
  task_reservations :: "reservation_row list"
  task_implementor_bans :: "ban_row list"
  collectibles :: "collectible_row list"
  organization_memberships :: "membership_row list"
  team_members :: "(string \<times> UserID) list"
  task_series :: "series_row list"
  agent_credentials :: "AgentCredentialID list"
  work_day_counters :: "counter_row list"
  domain_events :: "event_row list"
  next_event_seq :: nat
  submission_receipt_tokens :: "receipt_row list"
  submission_validation_errors :: "validation_error_row list"
  submission_sensitive_fields :: "sensitive_field_row list"
  submission_attachments :: "attachment_row list"
  task_attachments :: "attachment_row list"
  users :: "user_row list"
  teams :: "team_row list"

type_synonym ('r, 'a) dbtx = "(db, 'r, 'a) tx"

section \<open>Statements\<close>

text \<open>\<open>ledger_entries\<close>: primary key, non-zero amount, one row per account and key.\<close>

definition insertLedger :: "ledger_row \<Rightarrow> db \<Rightarrow> db option" where
  "insertLedger row d =
     (if le_amount row = 0 \<or> \<not> int64 (le_amount row)
         \<or> le_id row \<in> le_id ` set (ledger_entries d)
         \<or> (le_key row \<noteq> None \<and> (\<exists>r \<in> set (ledger_entries d).
               le_account r = le_account row \<and> le_key r = le_key row))
      then None
      else Some (d\<lparr>ledger_entries := ledger_entries d @ [row]\<rparr>))"

text \<open>\<open>task_funds\<close>: the task is the primary key and the amount is positive.\<close>

definition insertFund :: "fund_row \<Rightarrow> db \<Rightarrow> db option" where
  "insertFund row d =
     (if tf_amount row \<le> 0 \<or> tf_task row \<in> tf_task ` set (task_funds d) then None
      else Some (d\<lparr>task_funds := task_funds d @ [row]\<rparr>))"

definition deleteFund :: "TaskID \<Rightarrow> db \<Rightarrow> db option" where
  "deleteFund t d = Some (d\<lparr>task_funds := deleteWhere (\<lambda>r. tf_task r = t) (task_funds d)\<rparr>)"

definition setFundAmount :: "TaskID \<Rightarrow> int \<Rightarrow> db \<Rightarrow> db option" where
  "setFundAmount t v d =
     (if v \<le> 0 \<and> (\<exists>r \<in> set (task_funds d). tf_task r = t) then None
      else Some (d\<lparr>task_funds := updateWhere (\<lambda>r. tf_task r = t) (tf_amount_update (\<lambda>_. v)) (task_funds d)\<rparr>))"

definition updateTask :: "TaskID \<Rightarrow> (task_row \<Rightarrow> task_row) \<Rightarrow> db \<Rightarrow> db option" where
  "updateTask t f d = Some (d\<lparr>tasks := updateWhere (\<lambda>r. tk_id r = t) f (tasks d)\<rparr>)"

text \<open>\<open>task_reservations_one_active_idx\<close>: at most one active reservation per task.\<close>

definition single_active :: "reservation_row list \<Rightarrow> bool" where
  "single_active rows \<longleftrightarrow>
     distinct (map rv_task (filter (\<lambda>r. rv_state r = ReservationStateActive) rows))"

definition updateReservations :: "(reservation_row \<Rightarrow> bool) \<Rightarrow> ReservationState \<Rightarrow> db \<Rightarrow> db option" where
  "updateReservations p st d =
     (let rows = updateWhere p (rv_state_update (\<lambda>_. st)) (task_reservations d) in
      if single_active rows then Some (d\<lparr>task_reservations := rows\<rparr>) else None)"

definition insertReservation :: "reservation_row \<Rightarrow> db \<Rightarrow> db option" where
  "insertReservation row d =
     (let rows = task_reservations d @ [row] in
      if rv_id row \<in> rv_id ` set (task_reservations d) \<or> \<not> single_active rows then None
      else Some (d\<lparr>task_reservations := rows\<rparr>))"

text \<open>\<open>submissions_single_accepted_idx\<close>: at most one accepted submission per task.\<close>

definition single_accepted :: "submission_row list \<Rightarrow> bool" where
  "single_accepted rows \<longleftrightarrow>
     distinct (map sb_task (filter (\<lambda>r. sb_state r = SubmissionStateAccepted) rows))"

definition updateSubmissions :: "(submission_row \<Rightarrow> bool) \<Rightarrow> (submission_row \<Rightarrow> submission_row) \<Rightarrow> db \<Rightarrow> db option" where
  "updateSubmissions p f d =
     (let rows = updateWhere p f (submissions d) in
      if single_accepted rows then Some (d\<lparr>submissions := rows\<rparr>) else None)"

definition insertBan :: "ban_row \<Rightarrow> db \<Rightarrow> db option" where
  "insertBan row d =
     (if \<exists>r \<in> set (task_implementor_bans d).
           bn_task r = bn_task row \<and> bn_assignee r = bn_assignee row \<and> bn_key r = bn_key row
      then Some d
      else Some (d\<lparr>task_implementor_bans := task_implementor_bans d @ [row]\<rparr>))"

definition updateCollectible :: "CollectibleID \<Rightarrow> (collectible_row \<Rightarrow> collectible_row) \<Rightarrow> db \<Rightarrow> db option" where
  "updateCollectible c f d =
     Some (d\<lparr>collectibles := updateWhere (\<lambda>r. co_id r = c) f (collectibles d)\<rparr>)"

definition deleteHeld :: "TaskID \<Rightarrow> db \<Rightarrow> db option" where
  "deleteHeld t d =
     Some (d\<lparr>task_fund_collectibles := deleteWhere (\<lambda>(t', c). t' = t) (task_fund_collectibles d)\<rparr>)"

text \<open>\<open>tasks\<close>: the primary key, the columns of each kind of owner, and a position exactly in a series.\<close>

definition owner_columns_ok :: "task_row \<Rightarrow> bool" where
  "owner_columns_ok r = (case tk_owner_kind r of
     OwnerKindUser \<Rightarrow> tk_user r \<noteq> None \<and> tk_team r = None \<and> tk_organization r = None
   | OwnerKindTeam \<Rightarrow> tk_user r = None \<and> tk_team r \<noteq> None \<and> tk_organization r = None
   | OwnerKindOrganization \<Rightarrow> tk_user r = None \<and> tk_team r = None \<and> tk_organization r \<noteq> None
   | OwnerKindOrganizationTeam \<Rightarrow> tk_user r = None \<and> tk_team r \<noteq> None \<and> tk_organization r \<noteq> None)"

definition insertTask :: "task_row \<Rightarrow> db \<Rightarrow> db option" where
  "insertTask row d =
     (if tk_id row \<in> tk_id ` set (tasks d) \<or> \<not> owner_columns_ok row
         \<or> (case tk_series row of None \<Rightarrow> tk_series_position row \<noteq> None
            | Some _ \<Rightarrow> (case tk_series_position row of None \<Rightarrow> True | Some p \<Rightarrow> p \<le> 0))
      then None
      else Some (d\<lparr>tasks := tasks d @ [row]\<rparr>))"

definition insertSeries :: "series_row \<Rightarrow> db \<Rightarrow> db option" where
  "insertSeries row d =
     (if sr_id row \<in> sr_id ` set (task_series d) then None
      else Some (d\<lparr>task_series := task_series d @ [row]\<rparr>))"

definition attachment_row_ok :: "attachment_row \<Rightarrow> bool" where
  "attachment_row_ok row \<longleftrightarrow> 0 < length (at_content row) \<and> length (at_content row) \<le> 512000 \<and>
     at_content_type row \<in> {''image/png'', ''image/jpeg'', ''image/gif'', ''image/webp'', ''text/plain'',
       ''application/json'', ''application/pdf''}"

definition insertTaskAttachment :: "attachment_row \<Rightarrow> db \<Rightarrow> db option" where
  "insertTaskAttachment row d =
     (if (\<exists>r \<in> set (task_attachments d). at_owner r = at_owner row \<and> at_index r = at_index row)
         \<or> \<not> attachment_row_ok row \<or> at_owner row \<notin> tk_id ` set (tasks d) then None
      else Some (d\<lparr>task_attachments := task_attachments d @ [row]\<rparr>))"

text \<open>\<open>submissions\<close> and the tables that hang on a submission, with their references.\<close>

definition insertSubmission :: "submission_row \<Rightarrow> db \<Rightarrow> db option" where
  "insertSubmission row d =
     (let rows = submissions d @ [row] in
      if sb_id row \<in> sb_id ` set (submissions d) \<or> \<not> single_accepted rows
         \<or> sb_task row \<notin> tk_id ` set (tasks d) \<or> sb_user row \<notin> us_id ` set (users d) then None
      else Some (d\<lparr>submissions := rows\<rparr>))"

definition insertReceiptToken :: "receipt_row \<Rightarrow> db \<Rightarrow> db option" where
  "insertReceiptToken row d =
     (if rt_id row \<in> rt_id ` set (submission_receipt_tokens d) \<or> rt_hash row \<in> rt_hash ` set (submission_receipt_tokens d)
         \<or> rt_submission row \<notin> sb_id ` set (submissions d)
      then None
      else Some (d\<lparr>submission_receipt_tokens := submission_receipt_tokens d @ [row]\<rparr>))"

definition insertValidationError :: "validation_error_row \<Rightarrow> db \<Rightarrow> db option" where
  "insertValidationError row d =
     (if (\<exists>r \<in> set (submission_validation_errors d). ve_submission r = ve_submission row \<and> ve_index r = ve_index row)
         \<or> ve_submission row \<notin> sb_id ` set (submissions d)
      then None
      else Some (d\<lparr>submission_validation_errors := submission_validation_errors d @ [row]\<rparr>))"

definition insertSensitiveField :: "sensitive_field_row \<Rightarrow> db \<Rightarrow> db option" where
  "insertSensitiveField row d =
     (if (\<exists>r \<in> set (submission_sensitive_fields d). sv_submission r = sv_submission row \<and> sv_index r = sv_index row)
         \<or> sv_category row \<notin> {''pii'', ''secret''} \<or> sv_retention row \<notin> {''standard'', ''delete_on_request''}
         \<or> sv_redaction row \<notin> {''replace'', ''remove''} \<or> sv_submission row \<notin> sb_id ` set (submissions d)
      then None
      else Some (d\<lparr>submission_sensitive_fields := submission_sensitive_fields d @ [row]\<rparr>))"

definition insertSubmissionAttachment :: "attachment_row \<Rightarrow> db \<Rightarrow> db option" where
  "insertSubmissionAttachment row d =
     (if (\<exists>r \<in> set (submission_attachments d). at_owner r = at_owner row \<and> at_index r = at_index row)
         \<or> \<not> attachment_row_ok row \<or> at_owner row \<notin> sb_id ` set (submissions d) then None
      else Some (d\<lparr>submission_attachments := submission_attachments d @ [row]\<rparr>))"

lemmas insert_defs [tables] = insertTask_def insertSeries_def insertTaskAttachment_def insertSubmission_def
  insertReceiptToken_def insertValidationError_def insertSensitiveField_def insertSubmissionAttachment_def

text \<open>\<open>domain_events\<close>: a sequence number from the serial, and a unique event id;
  the recipient rows have the (user, event) primary key.\<close>

definition insertEvent :: "Draft \<Rightarrow> db \<Rightarrow> db option" where
  "insertEvent draft d =
     (if dr_id draft \<in> (\<lambda>r. dr_id (ev_draft r)) ` set (domain_events d)
         \<or> \<not> distinct (dr_recipients draft)
      then None
      else Some (d\<lparr>domain_events := domain_events d @
                    [\<lparr>ev_seq = next_event_seq d, ev_draft = draft, ev_state = DispatchStateRecorded\<rparr>],
                   next_event_seq := Suc (next_event_seq d)\<rparr>))"

lemmas statement_defs [tables] =
  insertLedger_def insertFund_def deleteFund_def setFundAmount_def updateTask_def updateReservations_def
  insertReservation_def
  updateSubmissions_def insertBan_def updateCollectible_def deleteHeld_def insertEvent_def

section \<open>Balances\<close>

definition spendableOf :: "db \<Rightarrow> CreditAccountID \<Rightarrow> int" where
  "spendableOf d a = sumOf le_amount (filter (\<lambda>r. le_account r = a) (ledger_entries d))"

definition allocatedOf :: "db \<Rightarrow> CreditAccountID \<Rightarrow> int" where
  "allocatedOf d a = sumOf tf_amount (filter (\<lambda>r. tf_account r = a) (task_funds d))"

text \<open>All credits of the platform: every spendable balance and every allocation.\<close>

definition totalCredits :: "db \<Rightarrow> int" where
  "totalCredits d = sumOf le_amount (ledger_entries d) + sumOf tf_amount (task_funds d)"

text \<open>The credits the platform issued: signup grants and manual adjustments.\<close>

definition grant_kind :: "EntryKind \<Rightarrow> bool" where
  "grant_kind k \<longleftrightarrow> k \<in> {EntryKindSignupGrant, EntryKindManualAdjustment}"

definition issued :: "db \<Rightarrow> int" where
  "issued d = sumOf le_amount (filter (\<lambda>r. grant_kind (le_kind r)) (ledger_entries d))"

section \<open>The table invariant\<close>

definition funds_ok :: "db \<Rightarrow> bool" where
  "funds_ok d \<longleftrightarrow> distinct (map tf_task (task_funds d)) \<and> (\<forall>r \<in> set (task_funds d). 0 < tf_amount r)"

definition ledger_ok :: "db \<Rightarrow> bool" where
  "ledger_ok d \<longleftrightarrow> distinct (map le_id (ledger_entries d)) \<and>
     (\<forall>r \<in> set (ledger_entries d). le_amount r \<noteq> 0) \<and>
     distinct (map (\<lambda>r. (le_account r, le_key r)) (filter (\<lambda>r. le_key r \<noteq> None) (ledger_entries d)))"

definition solvent :: "db \<Rightarrow> bool" where
  "solvent d \<longleftrightarrow> (\<forall>r \<in> set (ledger_entries d). 0 \<le> spendableOf d (le_account r))"

lemma solvent_iff: "solvent d \<longleftrightarrow> (\<forall>a. 0 \<le> spendableOf d a)"
proof
  assume *: "solvent d"
  show "\<forall>a. 0 \<le> spendableOf d a"
  proof
    fix a
    show "0 \<le> spendableOf d a"
    proof (cases "\<exists>r \<in> set (ledger_entries d). le_account r = a")
      case True
      with * show ?thesis by (auto simp: solvent_def)
    next
      case False
      then have "filter (\<lambda>r. le_account r = a) (ledger_entries d) = []"
        by (simp add: filter_empty_conv)
      then show ?thesis by (simp add: spendableOf_def)
    qed
  qed
qed (simp add: solvent_def)

definition db_ok :: "db \<Rightarrow> bool" where
  "db_ok d \<longleftrightarrow> funds_ok d \<and> ledger_ok d \<and> solvent d \<and> single_accepted (submissions d) \<and>
     single_active (task_reservations d)"

definition events_ok :: "db \<Rightarrow> bool" where
  "events_ok d \<longleftrightarrow> sorted_wrt (<) (map ev_seq (domain_events d)) \<and>
     (\<forall>r \<in> set (domain_events d). ev_seq r < next_event_seq d)"

end
