(* ===== verification/Budget.thy ===== *)
theory Budget
  imports Database
begin

text \<open>
  \<open>internal/db/work_budget_store.go\<close> and \<open>internal/db/event_store.go\<close>: what every
  mutating store method shares.  The UTC-day counters behind agent budgets and
  the peer-transfer ceiling, and the outbox write that records a domain event
  in the transaction of the mutation it describes.
\<close>

section \<open>Day counters\<close>

definition utcDay :: "int \<Rightarrow> int" where
  "utcDay now = now div (24 * 60 * 60 * 1000000000)"

definition workDayKeyAgentTasks :: string where "workDayKeyAgentTasks = ''agent_tasks:''"
definition workDayKeyAgentSpend :: string where "workDayKeyAgentSpend = ''agent_spend:''"
definition workDayKeyPeerSend :: string where "workDayKeyPeerSend = ''peer_send:''"
definition workDayKeyBudgetRefusals :: string where "workDayKeyBudgetRefusals = ''budget_refusals''"

definition usedOf :: "db \<Rightarrow> string \<Rightarrow> int \<Rightarrow> int" where
  "usedOf d key day = (case rowWhere (\<lambda>r. ct_key r = key \<and> ct_day r = day) (work_day_counters d) of
     None \<Rightarrow> 0 | Some r \<Rightarrow> ct_used r)"

text \<open>The upsert: insert the amount, or add it to the row of the same key and day.\<close>

definition bumpCounter :: "string \<Rightarrow> int \<Rightarrow> int \<Rightarrow> db \<Rightarrow> db" where
  "bumpCounter key day amount d =
     (case rowWhere (\<lambda>r. ct_key r = key \<and> ct_day r = day) (work_day_counters d) of
        None \<Rightarrow> d\<lparr>work_day_counters := work_day_counters d @ [\<lparr>ct_key = key, ct_day = day, ct_used = amount\<rparr>]\<rparr>
      | Some r \<Rightarrow> d\<lparr>work_day_counters := updateWhere (\<lambda>r. ct_key r = key \<and> ct_day r = day)
                        (ct_used_update (\<lambda>u. u + amount)) (work_day_counters d)\<rparr>)"

datatype dayCounterChargeResult = dayCounterCharged | dayCounterExhausted int | dayCounterChargeFailed

definition chargeWorkDayCounter ::
  "string \<Rightarrow> int \<Rightarrow> int \<Rightarrow> int \<Rightarrow> ('r, dayCounterChargeResult) dbtx" where
  "chargeWorkDayCounter key day amount cap = (\<lambda>e n d.
     let used = usedOf d key day + amount in
     if fault e n \<or> \<not> int64 used then (Cont dayCounterChargeFailed, Suc n, d)
     else (Cont (if used > cap then dayCounterExhausted (used - amount) else dayCounterCharged),
           Suc n, bumpCounter key day amount d))"

text \<open>
  Best effort, outside the transaction that is about to be rolled back: the
  refusal is returned together with the effect on the committed tables.
\<close>

definition recordBudgetRefusal :: "'r \<Rightarrow> ('r, 'a) dbtx" where
  "recordBudgetRefusal r = (\<lambda>e n d.
     (Ret r (if fault e n then id else bumpCounter workDayKeyBudgetRefusals (utcDay (clock e n)) 1),
      Suc n, d))"

definition budgetExceededError :: "string \<Rightarrow> DomainError" where
  "budgetExceededError message = NewDomainError ErrorCodeBudgetExceeded message"

definition dailyTaskBudgetMessage :: "int \<Rightarrow> int \<Rightarrow> string" where
  "dailyTaskBudgetMessage usedBefore cap =
     ''daily task budget exhausted ('' @ formatInt usedBefore @ '' of '' @ formatInt cap @
     '' used today, resets at 00:00 UTC)''"

definition concurrentReservationMessage :: "int \<Rightarrow> int \<Rightarrow> string" where
  "concurrentReservationMessage active cap =
     ''concurrent reservation budget exhausted ('' @ formatInt active @ '' of '' @ formatInt cap @
     '' reservations active)''"

definition dailySpendBudgetMessage :: "int \<Rightarrow> int \<Rightarrow> int \<Rightarrow> string" where
  "dailySpendBudgetMessage spentBefore cap amount =
     ''daily credit spend budget exhausted ('' @ formatInt spentBefore @ '' of '' @ formatInt cap @
     '' credits spent today, this '' @ formatInt amount @ ''-credit spend exceeds it, resets at 00:00 UTC)''"

definition peerTransferVelocityMessage :: "int \<Rightarrow> int \<Rightarrow> int \<Rightarrow> string" where
  "peerTransferVelocityMessage sentBefore cap amount =
     ''daily peer transfer ceiling reached ('' @ formatInt sentBefore @ '' of '' @ formatInt cap @
     '' credits sent today, this '' @ formatInt amount @ ''-credit send exceeds it, resets at 00:00 UTC)''"

definition lockCredential :: "string \<Rightarrow> AgentCredentialID \<Rightarrow> (DomainError, unit) dbtx" where
  "lockCredential failure credential =
     bindT (queryT (NewDomainError ErrorCodeInvalidState failure) (\<lambda>d. credential \<in> set (agent_credentials d)))
       (\<lambda>found. if found then retT () else raiseT (NewDomainError ErrorCodeInvalidState failure))"

definition applySpendCharge :: "SpendCharge \<Rightarrow> (DomainError, unit) dbtx" where
  "applySpendCharge charge = (case charge of
     NoSpendCharge \<Rightarrow> retT ()
   | ChargeSpendBudget credential cap amount \<Rightarrow>
       bindT (lockCredential ''lock agent credential for spend budget failed'' credential)
       (\<lambda>_. bindT (askT (\<lambda>e n. utcDay (clock e n)))
       (\<lambda>day. bindT (chargeWorkDayCounter (workDayKeyAgentSpend @ credential) day amount cap)
       (\<lambda>res. case res of
          dayCounterCharged \<Rightarrow> retT ()
        | dayCounterExhausted usedBefore \<Rightarrow>
            raiseT (budgetExceededError (dailySpendBudgetMessage usedBefore cap amount))
        | dayCounterChargeFailed \<Rightarrow>
            raiseT (NewDomainError ErrorCodeInvalidState ''consume daily spend budget failed'')))))"

definition applyPeerTransferVelocity :: "CreditAccountID \<Rightarrow> int \<Rightarrow> (DomainError, unit) dbtx" where
  "applyPeerTransferVelocity sourceAccountID amount =
     bindT (askT (\<lambda>e n. utcDay (clock e n)))
     (\<lambda>day. bindT (chargeWorkDayCounter (workDayKeyPeerSend @ sourceAccountID) day amount DailyPeerTransferCeilingCredits)
     (\<lambda>res. case res of
        dayCounterCharged \<Rightarrow> retT ()
      | dayCounterExhausted usedBefore \<Rightarrow>
          raiseT (budgetExceededError (peerTransferVelocityMessage usedBefore DailyPeerTransferCeilingCredits amount))
      | dayCounterChargeFailed \<Rightarrow>
          raiseT (NewDomainError ErrorCodeInvalidState ''consume peer transfer velocity budget failed'')))"

text \<open>The callers' shape: a problem is counted as a refusal and returned.\<close>

definition orRefuse :: "(DomainError, unit) dbtx \<Rightarrow> (DomainError \<Rightarrow> 'r) \<Rightarrow> ('r, unit) dbtx" where
  "orRefuse m rejected =
     bindT (tryT m) (\<lambda>res. case res of Inl problem \<Rightarrow> recordBudgetRefusal (rejected problem) | Inr _ \<Rightarrow> retT ())"

definition EvictStaleWorkDayCounters :: "env \<Rightarrow> nat \<Rightarrow> db \<Rightarrow> bool \<times> db" where
  "EvictStaleWorkDayCounters e n d =
     (if fault e n then (False, d)
      else (True, d\<lparr>work_day_counters := deleteWhere
              (\<lambda>r. ct_day r < utcDay (clock e n - 7 * 24 * 60 * 60 * 1000000000)) (work_day_counters d)\<rparr>))"

section \<open>The event outbox\<close>

text \<open>The fence lock, the event row, and one statement per recipient.\<close>

definition recordEventDraftInTx :: "'r \<Rightarrow> Draft \<Rightarrow> ('r, unit) dbtx" where
  "recordEventDraftInTx err draft =
     bindT (queryT err (\<lambda>d. ()))
     (\<lambda>_. bindT (execT err (insertEvent draft))
     (\<lambda>_. forT (dr_recipients draft) (\<lambda>u. queryT err (\<lambda>d. ()))))"

section \<open>What the shared steps leave alone\<close>

text \<open>
  Two database states that differ only in counters and recorded events.  A step
  that keeps \<open>books\<close> moves no credit, asset, task, submission or reservation.
\<close>

definition books :: "db \<Rightarrow> db" where
  "books d = d\<lparr>work_day_counters := [], domain_events := [], next_event_seq := 0\<rparr>"

lemma books_bumpCounter [simp]: "books (bumpCounter key day amount d) = books d"
  by (simp add: books_def bumpCounter_def split: option.split)

lemma books_sel [simp]:
  "credit_accounts (books d) = credit_accounts d" "ledger_entries (books d) = ledger_entries d"
  "task_funds (books d) = task_funds d" "task_fund_collectibles (books d) = task_fund_collectibles d"
  "tasks (books d) = tasks d" "submissions (books d) = submissions d"
  "task_reservations (books d) = task_reservations d"
  "task_implementor_bans (books d) = task_implementor_bans d" "collectibles (books d) = collectibles d"
  "organization_memberships (books d) = organization_memberships d" "team_members (books d) = team_members d"
  "task_series (books d) = task_series d"
  "agent_credentials (books d) = agent_credentials d"
  by (simp_all add: books_def)

lemma books_eqD:
  assumes "books d = books d'"
  shows "credit_accounts d = credit_accounts d'" "ledger_entries d = ledger_entries d'"
    "task_funds d = task_funds d'" "task_fund_collectibles d = task_fund_collectibles d'"
    "tasks d = tasks d'" "submissions d = submissions d'" "task_reservations d = task_reservations d'"
    "task_implementor_bans d = task_implementor_bans d'" "collectibles d = collectibles d'"
    "organization_memberships d = organization_memberships d'" "team_members d = team_members d'"
    "task_series d = task_series d'" "agent_credentials d = agent_credentials d'"
  using assms by (metis books_sel)+

lemma insertEvent_books: "insertEvent draft d = Some d' \<Longrightarrow> books d' = books d"
  by (auto simp: insertEvent_def books_def split: if_splits)

lemma wp_record [wp_rules]:
  assumes "E err id" and "\<And>d'. books d' = books d \<Longrightarrow> Q () d'"
  shows "wp e (recordEventDraftInTx err draft) Q E d"
  unfolding recordEventDraftInTx_def
proof (intro wp_rules assms(1))
  fix d' assume "insertEvent draft d = Some d'"
  then have "books d' = books d" by (rule insertEvent_books)
  then show "wp e (forT (dr_recipients draft) (\<lambda>u. queryT err (\<lambda>d. ()))) Q E d'"
    by (intro wp_for [where I = "\<lambda>t. books t = books d"] wp_rules assms) 
qed

lemma wp_charge [wp_rules]:
  assumes "Q dayCounterChargeFailed d"
    and "\<And>used. used = usedOf d key day + amount \<Longrightarrow> used \<le> cap \<Longrightarrow>
           Q dayCounterCharged (bumpCounter key day amount d)"
    and "\<And>d'. usedOf d key day + amount > cap \<Longrightarrow> Q (dayCounterExhausted (usedOf d key day)) d'"
  shows "wp e (chargeWorkDayCounter key day amount cap) Q E d"
  using assms by (auto simp: wp_def chargeWorkDayCounter_def Let_def)

lemma wp_refuse [wp_rules]:
  "(\<And>g. (\<And>d. books (g d) = books d) \<Longrightarrow> E r g) \<Longrightarrow> wp e (recordBudgetRefusal r) Q E d"
  by (simp add: wp_def recordBudgetRefusal_def)

text \<open>A charge consumes a counter or is refused; the books stay as they are.\<close>

lemma wp_lockCredential [wp_rules]:
  "\<lbrakk>Q () d; \<And>r. E r id\<rbrakk> \<Longrightarrow> wp e (lockCredential failure c) Q E d"
  unfolding lockCredential_def by (intro wp_rules) simp_all

lemma wp_applySpendCharge [wp_rules]:
  assumes "\<And>d'. books d' = books d \<Longrightarrow> Q () d'" "\<And>r. E r id"
  shows "wp e (applySpendCharge charge) Q E d"
  unfolding applySpendCharge_def
  by (cases charge) (auto intro!: wp_rules assms split: dayCounterChargeResult.split)

lemma wp_applyPeerTransferVelocity [wp_rules]:
  assumes "\<And>d'. books d' = books d \<Longrightarrow> Q () d'" "\<And>r. E r id"
  shows "wp e (applyPeerTransferVelocity account amount) Q E d"
  unfolding applyPeerTransferVelocity_def
  by (auto intro!: wp_rules assms split: dayCounterChargeResult.split)

lemma wp_orRefuse:
  assumes "wp e m Q (\<lambda>_ _. True) d"
    and "\<And>r g. (\<And>d. books (g d) = books d) \<Longrightarrow> E (rejected r) g"
  shows "wp e (orRefuse m rejected) Q E d"
  unfolding orRefuse_def
proof (rule wp_bind, rule wp_try)
  show "wp e m (\<lambda>a s'. wp e (case Inr a of Inl problem \<Rightarrow> recordBudgetRefusal (rejected problem) | Inr _ \<Rightarrow> retT ()) Q E s')
      (\<lambda>r g. wp e (case Inl r of Inl problem \<Rightarrow> recordBudgetRefusal (rejected problem) | Inr _ \<Rightarrow> retT ()) Q E d) d"
    by (rule wp_mono [OF assms(1)]) (auto intro!: wp_rules assms(2))
qed

end
