(* ===== verification/LedgerHelpers.thy ===== *)
theory LedgerHelpers
  imports Budget "HOL-Library.List_Lexorder" "HOL-Library.Char_ord"
begin

text \<open>
  \<open>internal/db/ledger_store_helpers.go\<close>: the steps the ledger transactions are
  composed of.  Each helper returns early with the reason its caller wraps.
\<close>

abbreviation invalidState :: "string \<Rightarrow> DomainError" where
  "invalidState \<equiv> NewDomainError ErrorCodeInvalidState"

abbreviation conflict :: "string \<Rightarrow> DomainError" where
  "conflict \<equiv> NewDomainError ErrorCodeConflict"

abbreviation invalidArgument :: "string \<Rightarrow> DomainError" where
  "invalidArgument \<equiv> NewDomainError ErrorCodeInvalidArgument"

section \<open>Locking accounts and tasks\<close>

text \<open>An account's raw id and its parsed id.\<close>

definition lockUserAccount :: "UserID \<Rightarrow> (DomainError, CreditAccountID \<times> CreditAccountID) dbtx" where
  "lockUserAccount userID =
     bindT (queryT (invalidState ''lock credit account failed'')
              (\<lambda>d. rowWhere (\<lambda>r. ca_user r = Some userID) (credit_accounts d)))
     (\<lambda>row. case row of
        None \<Rightarrow> raiseT (invalidState ''user has no credit account'')
      | Some r \<Rightarrow> bindT (parseT ParseCreditAccountID (ca_id r)) (\<lambda>parsed. retT (ca_id r, parsed)))"

definition lockOrganizationAccount :: "OrganizationID \<Rightarrow> (DomainError, CreditAccountID \<times> CreditAccountID) dbtx" where
  "lockOrganizationAccount organizationID =
     bindT (queryT (invalidState ''lock organization credit account failed'')
              (\<lambda>d. rowWhere (\<lambda>r. ca_organization r = Some organizationID) (credit_accounts d)))
     (\<lambda>row. case row of
        None \<Rightarrow> raiseT (invalidState ''organization has no credit account'')
      | Some r \<Rightarrow> bindT (parseT ParseCreditAccountID (ca_id r)) (\<lambda>parsed. retT (ca_id r, parsed)))"

record taskLocked =
  tl_state :: TaskState
  tl_created_by :: UserID
  tl_reward_kind :: RewardKind
  tl_reward_amount :: int

definition taskLocked_of :: "task_row \<Rightarrow> taskLocked" where
  "taskLocked_of r = \<lparr>tl_state = tk_state r, tl_created_by = tk_created_by r,
     tl_reward_kind = tk_reward_kind r,
     tl_reward_amount = (case tk_reward_amount r of None \<Rightarrow> 0 | Some a \<Rightarrow> a)\<rparr>"

abbreviation taskById :: "TaskID \<Rightarrow> db \<Rightarrow> task_row option" where
  "taskById t d \<equiv> rowWhere (\<lambda>r. tk_id r = t) (tasks d)"

definition lockTaskOwnedByOrganization :: "TaskID \<Rightarrow> OrganizationID \<Rightarrow> (DomainError, taskLocked) dbtx" where
  "lockTaskOwnedByOrganization taskID organizationID =
     bindT (queryT (invalidState ''lock task failed'') (taskById taskID))
     (\<lambda>row. case row of
        None \<Rightarrow> raiseT (NewDomainError ErrorCodeNotFound ''task was not found'')
      | Some r \<Rightarrow>
          if tk_organization r \<noteq> Some organizationID
          then raiseT (NewDomainError ErrorCodePermissionDenied ''task is not owned by the organization'')
          else retT (taskLocked_of r))"

definition lockTaskOwnedBy :: "TaskID \<Rightarrow> UserID \<Rightarrow> string \<Rightarrow> (DomainError, taskLocked) dbtx" where
  "lockTaskOwnedBy taskID requester action =
     bindT (queryT (invalidState ''lock task failed'') (taskById taskID))
     (\<lambda>row. case row of
        None \<Rightarrow> raiseT (NewDomainError ErrorCodeNotFound ''task was not found'')
      | Some r \<Rightarrow>
          if tk_created_by r \<noteq> requester
          then raiseT (NewDomainError ErrorCodePermissionDenied
                 (''only the task owner can '' @ action @ '' the task''))
          else retT (taskLocked_of r))"

definition memberRoles :: "db \<Rightarrow> OrganizationID \<Rightarrow> UserID \<Rightarrow> string list" where
  "memberRoles d organizationID member =
     concat (map mb_roles (filter (\<lambda>m. mb_organization m = organizationID \<and> mb_user m = member
        \<and> mb_status m = MembershipStatusActive) (organization_memberships d)))"

definition organizationMemberPermission ::
  "OrganizationID \<Rightarrow> UserID \<Rightarrow> Permission \<Rightarrow> ('r, PermissionCheck) dbtx" where
  "organizationMemberPermission organizationID member permission =
     bindT (tryT (scanT (invalidState ''read member roles failed'')
                        (invalidState ''scan member role failed'')
                        (invalidState ''read member roles failed'')
                        (\<lambda>d. memberRoles d organizationID member)
                        (parseT (\<lambda>e. ParseRole))))
     (\<lambda>res. case res of
        Inl reason \<Rightarrow> retT (PermissionDenied reason)
      | Inr roles \<Rightarrow> retT (CheckPermission roles permission))"

definition lockTaskForReview :: "TaskID \<Rightarrow> Reviewer \<Rightarrow> string \<Rightarrow> (DomainError, taskLocked) dbtx" where
  "lockTaskForReview taskID reviewer action =
     (let denied = raiseT (NewDomainError ErrorCodePermissionDenied
            (''only the task owner or an organization reviewer can '' @ action @ '' the task''))
      in bindT (queryT (invalidState ''lock task failed'') (taskById taskID))
     (\<lambda>row. case row of
        None \<Rightarrow> raiseT (NewDomainError ErrorCodeNotFound ''task was not found'')
      | Some r \<Rightarrow>
          (case reviewer of
             UserReviewer u \<Rightarrow>
               if tk_created_by r = u then retT (taskLocked_of r)
               else (case tk_organization r of
                       None \<Rightarrow> denied
                     | Some organization \<Rightarrow>
                         bindT (organizationMemberPermission organization u PermissionReviewSubmissions)
                         (\<lambda>check. if check = PermissionGranted then retT (taskLocked_of r) else denied))
           | OrganizationReviewer i \<Rightarrow>
               if tk_organization r = Some i then retT (taskLocked_of r) else denied)))"

fun reviewerUserColumn :: "Reviewer \<Rightarrow> UserID option" where
  "reviewerUserColumn (UserReviewer i) = Some i"
| "reviewerUserColumn (OrganizationReviewer _) = None"

section \<open>Funding\<close>

text \<open>\<open>None\<close>: the reward kind stays as it is.\<close>

definition requireCreditRewardFunding :: "taskLocked \<Rightarrow> CreditAmount \<Rightarrow> RewardKind option result" where
  "requireCreditRewardFunding taskRow amount = (case tl_reward_kind taskRow of
     RewardKindCollectible \<Rightarrow> Inr (Some RewardKindBundle)
   | RewardKindNone \<Rightarrow> Inr (Some RewardKindCredit)
   | _ \<Rightarrow> if tl_reward_amount taskRow \<noteq> amount
          then Inl (conflict ''funding amount must match the declared credit reward'')
          else Inr None)"

definition requireFundableTask :: "TaskID \<Rightarrow> taskLocked \<Rightarrow> CreditAmount \<Rightarrow> (DomainError, unit) dbtx" where
  "requireFundableTask taskID taskRow amount =
     (if tl_state taskRow \<noteq> StateDraft then raiseT (conflict ''only draft tasks can be funded'')
      else case requireCreditRewardFunding taskRow amount of
        Inl reason \<Rightarrow> raiseT reason
      | Inr None \<Rightarrow> retT ()
      | Inr (Some kind) \<Rightarrow>
          execT (invalidState ''update task reward kind failed'')
            (updateTask taskID (\<lambda>r. r\<lparr>tk_reward_kind := kind, tk_reward_amount := Some amount\<rparr>)))"

definition buildFund :: "TaskID \<Rightarrow> CreditAccountID \<Rightarrow> int \<Rightarrow> (DomainError, TaskFund) dbtx" where
  "buildFund taskID rawFunderAccountID amount =
     bindT (parseT ParseCreditAccountID rawFunderAccountID)
     (\<lambda>account. case NewCreditAmount amount of
        Inl reason \<Rightarrow> raiseT reason
      | Inr accepted \<Rightarrow> retT \<lparr>fund_task = taskID, fund_account = account, fund_amount = accepted\<rparr>)"

abbreviation entryForKey :: "string \<Rightarrow> CreditAccountID \<Rightarrow> db \<Rightarrow> ledger_row option" where
  "entryForKey key account d \<equiv>
     rowWhere (\<lambda>r. le_key r = Some key \<and> le_account r = account) (ledger_entries d)"

text \<open>The fund command's replay: a non-nil result of the source is an early return.\<close>

definition findFundForKey :: "string \<Rightarrow> TaskID \<Rightarrow> CreditAccountID \<Rightarrow> (FundResult, unit) dbtx" where
  "findFundForKey key taskID funderAccountID =
     bindT (queryT (FundRejected (invalidState ''check fund idempotency failed'')) (entryForKey key funderAccountID))
     (\<lambda>row. case row of
        None \<Rightarrow> retT ()
      | Some r \<Rightarrow>
          if le_kind r \<noteq> EntryKindTaskFund \<or> le_task r \<noteq> Some taskID
          then raiseT (FundRejected (invalidState ''idempotency key was used for a different command''))
          else bindT (liftT FundRejected (buildFund taskID (le_account r) (- le_amount r)))
               (\<lambda>built. raiseT (TaskFunded built IdempotentReplay [])))"

text \<open>\<open>coalesce(sum(amount), 0)\<close> scanned into an \<open>int64\<close>.\<close>

definition readSpendable :: "'r \<Rightarrow> CreditAccountID \<Rightarrow> ('r, int) dbtx" where
  "readSpendable err account =
     bindT (queryT err (\<lambda>d. spendableOf d account))
     (\<lambda>v. if int64 v then retT v else raiseT err)"

definition completeFunding ::
  "CreditAccountID \<times> CreditAccountID \<Rightarrow> TaskID \<Rightarrow> CreditAmount \<Rightarrow> LedgerEntryID \<Rightarrow> IdempotencyKey \<Rightarrow>
   string \<Rightarrow> Draft \<Rightarrow> (FundResult, FundResult \<times> FundResult) dbtx" where
  "completeFunding account taskID amount entryID key insufficientMessage draft =
     bindT (queryT (FundRejected (invalidState ''check existing task fund failed''))
              (\<lambda>d. \<exists>r \<in> set (task_funds d). tf_task r = taskID))
     (\<lambda>fundExists. if fundExists then raiseT (FundRejected (invalidState ''task is already funded'')) else
      bindT (readSpendable (FundRejected (invalidState ''read account balance failed'')) (fst account))
     (\<lambda>spendable. if spendable < amount then raiseT (FundRejected (invalidArgument insufficientMessage)) else
      bindT (execT (FundRejected (invalidState ''insert task fund failed''))
              (insertFund \<lparr>tf_task = taskID, tf_account = fst account, tf_amount = amount\<rparr>))
     (\<lambda>_. bindT (execT (FundRejected (invalidState ''insert task fund ledger entry failed''))
              (insertLedger \<lparr>le_id = entryID, le_account = fst account, le_kind = EntryKindTaskFund,
                 le_amount = - amount, le_task = Some taskID, le_key = Some key, le_note = None\<rparr>))
     (\<lambda>_. bindT (recordEventDraftInTx (FundRejected (invalidState ''record task funded event failed'')) draft)
     (\<lambda>_. retT (FundRejected (invalidState ''commit fund task transaction failed''),
          TaskFunded \<lparr>fund_task = taskID, fund_account = snd account, fund_amount = amount\<rparr>
            FirstExecution [draft]))))))"

section \<open>Paying out a review\<close>

record reviewFundCommand =
  rf_task :: TaskID
  rf_worker :: UserID
  rf_payout_entry :: LedgerEntryID
  rf_refund_entry :: LedgerEntryID
  rf_key :: IdempotencyKey
  rf_selection :: CreditReviewSelection
  rf_close :: bool
  rf_missing_is_no_payout :: bool

definition lockWorkerAccount :: "UserID \<Rightarrow> (DomainError, CreditAccountID) dbtx" where
  "lockWorkerAccount worker =
     bindT (queryT (invalidState ''lock worker credit account failed'')
              (\<lambda>d. rowWhere (\<lambda>r. ca_user r = Some worker) (credit_accounts d)))
     (\<lambda>row. case row of
        None \<Rightarrow> raiseT (invalidState ''submission author has no credit account'')
      | Some r \<Rightarrow> retT (ca_id r))"

text \<open>What is left of the fund: refunded and cleared on accept, kept on reject.\<close>

definition settleRemaining :: "reviewFundCommand \<Rightarrow> CreditAccountID \<Rightarrow> int \<Rightarrow> (DomainError, unit) dbtx" where
  "settleRemaining command funder remaining =
     (let clear = execT (invalidState ''clear task fund failed'') (deleteFund (rf_task command)) in
      if rf_close command then
        bindT (if remaining > 0
               then execT (invalidState ''insert partial accept refund ledger entry failed'')
                 (insertLedger \<lparr>le_id = rf_refund_entry command, le_account = funder,
                    le_kind = EntryKindTaskRefund, le_amount = remaining,
                    le_task = Some (rf_task command), le_key = None, le_note = None\<rparr>)
               else retT ())
          (\<lambda>_. clear)
      else if remaining = 0 then clear
      else execT (invalidState ''update task fund after partial payout failed'')
             (setFundAmount (rf_task command) remaining))"

definition payReviewFund :: "reviewFundCommand \<Rightarrow> (DomainError, PayoutOutcome) dbtx" where
  "payReviewFund command =
     (if rf_selection command = NoCreditReviewSelection then retT NoPayout else
      bindT (queryT (invalidState ''read task fund failed'')
              (\<lambda>d. rowWhere (\<lambda>r. tf_task r = rf_task command) (task_funds d)))
      (\<lambda>row. case row of
         None \<Rightarrow>
           (case rf_selection command of
              PartialCreditReviewSelection _ \<Rightarrow> raiseT (conflict ''credit reward fund is missing'')
            | _ \<Rightarrow> if rf_missing_is_no_payout command then retT NoPayout
                   else raiseT (conflict ''credit reward fund is missing''))
       | Some fund \<Rightarrow>
           (let payoutAmount = (case rf_selection command of
                  PartialCreditReviewSelection a \<Rightarrow> a | _ \<Rightarrow> tf_amount fund) in
            if payoutAmount > tf_amount fund
            then raiseT (invalidArgument ''credit payout cannot exceed allocated credits'')
            else
            bindT (parseT ParseUserID (rf_worker command))
            (\<lambda>worker. bindT (lockWorkerAccount (rf_worker command))
            (\<lambda>workerAccount. bindT (execT (invalidState ''insert task payout ledger entry failed'')
               (insertLedger \<lparr>le_id = rf_payout_entry command, le_account = workerAccount,
                  le_kind = EntryKindTaskPayout, le_amount = payoutAmount,
                  le_task = Some (rf_task command), le_key = Some (rf_key command), le_note = None\<rparr>))
            (\<lambda>_. bindT (settleRemaining command (tf_account fund) (tf_amount fund - payoutAmount))
            (\<lambda>_. case NewCreditAmount payoutAmount of
               Inl reason \<Rightarrow> raiseT reason
             | Inr accepted \<Rightarrow> retT (CreditPayout worker accepted))))))))"

definition payCreditTip ::
  "TaskID \<Rightarrow> Reviewer \<Rightarrow> UserID \<Rightarrow> LedgerEntryID \<Rightarrow> LedgerEntryID \<Rightarrow> IdempotencyKey \<Rightarrow> TipSelection \<Rightarrow>
   (DomainError, TipOutcome) dbtx" where
  "payCreditTip taskID reviewer rawWorkerID debitEntryID creditEntryID key selection = (case selection of
     NoTipSelection \<Rightarrow> retT NoTip
   | CreditTipSelection amount \<Rightarrow>
       (case reviewer of
          OrganizationReviewer _ \<Rightarrow> raiseT (invalidArgument ''an organization credential cannot pay a credit tip'')
        | UserReviewer requester \<Rightarrow>
            bindT (lockUserAccount requester)
            (\<lambda>requesterAccount. bindT (readSpendable (invalidState ''read requester balance failed'') (fst requesterAccount))
            (\<lambda>balance. if balance < amount
               then raiseT (invalidArgument ''insufficient credits to tip the implementor'') else
             bindT (parseT ParseUserID rawWorkerID)
            (\<lambda>worker. bindT (lockWorkerAccount rawWorkerID)
            (\<lambda>workerAccount. bindT (execT (invalidState ''insert task tip debit failed'')
               (insertLedger \<lparr>le_id = debitEntryID, le_account = fst requesterAccount, le_kind = EntryKindTaskTip,
                  le_amount = - amount, le_task = Some taskID, le_key = Some (key @ '':tip-debit''), le_note = None\<rparr>))
            (\<lambda>_. bindT (execT (invalidState ''insert task tip credit failed'')
               (insertLedger \<lparr>le_id = creditEntryID, le_account = workerAccount, le_kind = EntryKindTaskTip,
                  le_amount = amount, le_task = Some taskID, le_key = Some (key @ '':tip-credit''), le_note = None\<rparr>))
            (\<lambda>_. retT (CreditTip worker amount)))))))))"

section \<open>Reading steps\<close>

text \<open>A reading step goes on in the same tables or returns early.\<close>

lemma wp_permission [wp_rules]:
  "(\<And>c. Q c d) \<Longrightarrow> wp e (organizationMemberPermission organization u p) Q E d"
  unfolding organizationMemberPermission_def
  by (intro wp_bind wp_try wp_scan) (auto intro!: wp_rules)

lemma wp_lockUserAccount [wp_rules]:
  "\<lbrakk>\<And>a. Q a d; \<And>r. E r id\<rbrakk> \<Longrightarrow> wp e (lockUserAccount u) Q E d"
  unfolding lockUserAccount_def by (intro wp_rules) simp_all

lemma wp_lockOrganizationAccount [wp_rules]:
  "\<lbrakk>\<And>a. Q a d; \<And>r. E r id\<rbrakk> \<Longrightarrow> wp e (lockOrganizationAccount u) Q E d"
  unfolding lockOrganizationAccount_def by (intro wp_rules) simp_all

lemma wp_lockWorkerAccount [wp_rules]:
  "\<lbrakk>\<And>a. Q a d; \<And>r. E r id\<rbrakk> \<Longrightarrow> wp e (lockWorkerAccount u) Q E d"
  unfolding lockWorkerAccount_def by (intro wp_rules) simp_all

lemma wp_lockTaskOwnedBy [wp_rules]:
  "\<lbrakk>\<And>r. \<lbrakk>taskById t d = Some r; tk_created_by r = u\<rbrakk> \<Longrightarrow> Q (taskLocked_of r) d; \<And>r. E r id\<rbrakk>
    \<Longrightarrow> wp e (lockTaskOwnedBy t u action) Q E d"
  unfolding lockTaskOwnedBy_def by (intro wp_rules) simp_all

lemma wp_lockTaskOwnedByOrganization [wp_rules]:
  "\<lbrakk>\<And>r. \<lbrakk>taskById t d = Some r; tk_organization r = Some i\<rbrakk> \<Longrightarrow> Q (taskLocked_of r) d; \<And>r. E r id\<rbrakk>
    \<Longrightarrow> wp e (lockTaskOwnedByOrganization t i) Q E d"
  unfolding lockTaskOwnedByOrganization_def by (intro wp_rules) simp_all

lemma wp_lockTaskForReview [wp_rules]:
  "\<lbrakk>\<And>r. taskById t d = Some r \<Longrightarrow> Q (taskLocked_of r) d; \<And>r. E r id\<rbrakk>
    \<Longrightarrow> wp e (lockTaskForReview t rv action) Q E d"
  unfolding lockTaskForReview_def Let_def
  by (cases rv) (auto intro!: wp_rules split: option.split)

lemma wp_buildFund [wp_rules]:
  "\<lbrakk>\<And>f. \<lbrakk>fund_task f = t; fund_amount f = a; 0 < a\<rbrakk> \<Longrightarrow> Q f d; \<And>r. E r id\<rbrakk> \<Longrightarrow> wp e (buildFund t acc a) Q E d"
  unfolding buildFund_def by (intro wp_rules) (auto simp: NewCreditAmount_def split: if_splits)

lemma wp_readSpendable [wp_rules]:
  "\<lbrakk>Q (spendableOf d a) d; E err id\<rbrakk> \<Longrightarrow> wp e (readSpendable err a) Q E d"
  unfolding readSpendable_def by (intro wp_rules) simp_all

lemma wp_findFundForKey [wp_rules]:
  "\<lbrakk>entryForKey key acc d = None \<Longrightarrow> Q () d; \<And>r. E r id\<rbrakk> \<Longrightarrow> wp e (findFundForKey key t acc) Q E d"
  unfolding findFundForKey_def by (intro wp_rules) simp_all

section \<open>Credits across statements\<close>

lemma insertLedger_Some:
  "insertLedger row d = Some d' \<longleftrightarrow> d' = d\<lparr>ledger_entries := ledger_entries d @ [row]\<rparr> \<and>
     le_amount row \<noteq> 0 \<and> int64 (le_amount row) \<and> le_id row \<notin> le_id ` set (ledger_entries d) \<and>
     (le_key row \<noteq> None \<longrightarrow> (\<forall>r \<in> set (ledger_entries d). \<not> (le_account r = le_account row \<and> le_key r = le_key row)))"
  by (auto simp: insertLedger_def)

lemma insertFund_Some:
  "insertFund row d = Some d' \<longleftrightarrow> d' = d\<lparr>task_funds := task_funds d @ [row]\<rparr> \<and>
     0 < tf_amount row \<and> tf_task row \<notin> tf_task ` set (task_funds d)"
  by (auto simp: insertFund_def)

text \<open>What does not involve the ledger or the funds.\<close>

definition rest :: "db \<Rightarrow> db" where
  "rest d = (books d)\<lparr>ledger_entries := [], task_funds := []\<rparr>"

lemma rest_books: "books d' = books d \<Longrightarrow> rest d' = rest d"
  by (simp add: rest_def)

lemma rest_update [simp]:
  "rest (d\<lparr>ledger_entries := l\<rparr>) = rest d" "rest (d\<lparr>task_funds := f\<rparr>) = rest d"
  by (simp_all add: rest_def books_def)

lemma credits_books:
  assumes "books d' = books d"
  shows "db_ok d' = db_ok d" "totalCredits d' = totalCredits d" "spendableOf d' = spendableOf d"
    "issued d' = issued d"
  using books_eqD [OF assms]
  by (simp_all add: issued_def db_ok_def funds_ok_def ledger_ok_def solvent_iff totalCredits_def spendableOf_def fun_eq_iff)

lemma issued_insertLedger:
  "insertLedger row d = Some d' \<Longrightarrow> issued d' = issued d + (if grant_kind (le_kind row) then le_amount row else 0)"
  by (simp add: insertLedger_Some issued_def)

lemma spendable_insertLedger:
  "insertLedger row d = Some d' \<Longrightarrow>
     spendableOf d' a = spendableOf d a + (if le_account row = a then le_amount row else 0)"
  by (simp add: insertLedger_Some spendableOf_def)

lemma total_insertLedger:
  "insertLedger row d = Some d' \<Longrightarrow> totalCredits d' = totalCredits d + le_amount row"
  by (simp add: insertLedger_Some totalCredits_def)

lemma ledger_ok_insertLedger:
  "\<lbrakk>insertLedger row d = Some d'; ledger_ok d\<rbrakk> \<Longrightarrow> ledger_ok d'"
  by (auto simp: insertLedger_Some ledger_ok_def)

lemma other_insertLedger:
  assumes "insertLedger row d = Some d'"
  shows "task_funds d' = task_funds d" "funds_ok d' = funds_ok d" "submissions d' = submissions d" "task_reservations d' = task_reservations d"
    "rest d' = rest d"
  using assms by (simp_all add: insertLedger_Some funds_ok_def)

lemma insertFund_facts:
  assumes "insertFund row d = Some d'" "funds_ok d"
  shows "funds_ok d'" "totalCredits d' = totalCredits d + tf_amount row" "0 < tf_amount row"
    "spendableOf d' = spendableOf d" "ledger_ok d' = ledger_ok d" "submissions d' = submissions d" "task_reservations d' = task_reservations d"
    "ledger_entries d' = ledger_entries d" "rest d' = rest d" "issued d' = issued d"
  using assms by (auto simp: issued_def insertFund_Some funds_ok_def totalCredits_def spendableOf_def ledger_ok_def fun_eq_iff)

lemma deleteFund_facts:
  assumes "deleteFund t d = Some d'" "funds_ok d" "rowWhere (\<lambda>r. tf_task r = t) (task_funds d) = Some r"
  shows "funds_ok d'" "totalCredits d' = totalCredits d - tf_amount r"
    "spendableOf d' = spendableOf d" "ledger_ok d' = ledger_ok d" "submissions d' = submissions d" "task_reservations d' = task_reservations d"
    "ledger_entries d' = ledger_entries d" "rest d' = rest d" "issued d' = issued d"
  using assms sumOf_delete_key [of tf_task "task_funds d" t r tf_amount]
  by (auto simp: issued_def deleteFund_def funds_ok_def totalCredits_def spendableOf_def ledger_ok_def fun_eq_iff)

lemma setFundAmount_facts:
  assumes "setFundAmount t v d = Some d'" "funds_ok d" "rowWhere (\<lambda>r. tf_task r = t) (task_funds d) = Some r"
  shows "funds_ok d'" "totalCredits d' = totalCredits d - tf_amount r + v"
    "spendableOf d' = spendableOf d" "ledger_ok d' = ledger_ok d" "submissions d' = submissions d" "task_reservations d' = task_reservations d"
    "ledger_entries d' = ledger_entries d" "rest d' = rest d" "issued d' = issued d"
proof -
  from assms(1,3) have v: "0 < v"
    and d': "d' = d\<lparr>task_funds := updateWhere (\<lambda>r. tf_task r = t) (tf_amount_update (\<lambda>_. v)) (task_funds d)\<rparr>"
    by (auto simp: setFundAmount_def split: if_splits dest!: rowWhere_SomeD)
  show "funds_ok d'"
    using assms(2) v by (auto simp: d' funds_ok_def set_updateWhere)
  show "totalCredits d' = totalCredits d - tf_amount r + v"
    using assms(2,3) sumOf_update_key [of tf_task "task_funds d" t r tf_amount "tf_amount_update (\<lambda>_. v)"]
    by (simp add: d' totalCredits_def funds_ok_def)
qed (use assms(1) in \<open>auto simp: issued_def setFundAmount_def spendableOf_def ledger_ok_def fun_eq_iff split: if_splits\<close>)

text \<open>
  A transfer step between books: the tables stay consistent, no account is
  overdrawn, and the credits of the platform are the same.
\<close>

definition moves :: "db \<Rightarrow> db \<Rightarrow> bool" where
  "moves d d' \<longleftrightarrow> db_ok d' \<and> totalCredits d' = totalCredits d \<and> issued d' = issued d \<and> rest d' = rest d"

lemma moves_refl: "db_ok d \<Longrightarrow> moves d d"
  by (simp add: moves_def)

lemma moves_trans: "\<lbrakk>moves d d'; moves d' d''\<rbrakk> \<Longrightarrow> moves d d''"
  by (simp add: moves_def)

lemma moves_ok: "moves d d' \<Longrightarrow> db_ok d'"
  by (simp add: moves_def)

lemma moves_books: "\<lbrakk>moves d d'; books d'' = books d'\<rbrakk> \<Longrightarrow> moves d d''"
  using credits_books [of d'' d'] rest_books [of d'' d'] by (simp add: moves_def)

lemmas ledger_insert_facts =
  spendable_insertLedger issued_insertLedger total_insertLedger ledger_ok_insertLedger other_insertLedger

text \<open>Paying from a fund: the payout, the refund of the rest, and the fund row.\<close>

lemma payout_close_moves:
  assumes ok: "db_ok d" and fund: "rowWhere (\<lambda>r. tf_task r = t) (task_funds d) = Some f"
    and pay: "insertLedger row d = Some d1" "0 < le_amount row" "\<not> grant_kind (le_kind row)"
    and refund: "if tf_amount f - le_amount row > 0
         then insertLedger row' d1 = Some d2 \<and> le_amount row' = tf_amount f - le_amount row \<and> \<not> grant_kind (le_kind row')
         else d2 = d1 \<and> tf_amount f = le_amount row"
    and del: "deleteFund t d2 = Some d'"
  shows "moves d d'"
proof -
  have d2: "funds_ok d2 \<and> ledger_ok d2 \<and> submissions d2 = submissions d \<and> task_reservations d2 = task_reservations d \<and> task_funds d2 = task_funds d \<and>
      rest d2 = rest d \<and> issued d2 = issued d \<and> totalCredits d2 = totalCredits d + tf_amount f \<and> (\<forall>a. spendableOf d a \<le> spendableOf d2 a)"
    using ok pay refund ledger_insert_facts [OF pay(1)] ledger_insert_facts [of row' d1 d2]
    by (simp add: db_ok_def split: if_splits)
  then show ?thesis
    using ok fund deleteFund_facts [OF del, of f]
    by (auto simp: moves_def db_ok_def solvent_iff intro: order_trans)
qed

lemma payout_keep_moves:
  assumes ok: "db_ok d" and fund: "rowWhere (\<lambda>r. tf_task r = t) (task_funds d) = Some f"
    and pay: "insertLedger row d = Some d1" "0 < le_amount row" "\<not> grant_kind (le_kind row)"
    and upd: "setFundAmount t (tf_amount f - le_amount row) d1 = Some d'"
  shows "moves d d'"
proof -
  have d1: "funds_ok d1 \<and> ledger_ok d1 \<and> submissions d1 = submissions d \<and> task_reservations d1 = task_reservations d \<and> task_funds d1 = task_funds d \<and>
      rest d1 = rest d \<and> issued d1 = issued d \<and> totalCredits d1 = totalCredits d + le_amount row \<and> (\<forall>a. spendableOf d a \<le> spendableOf d1 a)"
    using ok pay ledger_insert_facts [OF pay(1)] by (simp add: db_ok_def)
  then show ?thesis
    using ok fund setFundAmount_facts [OF upd, of f]
    by (auto simp: moves_def db_ok_def solvent_iff intro: order_trans)
qed

lemma wp_settleRemaining:
  assumes ok: "db_ok d" and fund: "rowWhere (\<lambda>r. tf_task r = rf_task c) (task_funds d) = Some f"
    and pay: "insertLedger row d = Some d1" "le_amount row \<le> tf_amount f" "\<not> grant_kind (le_kind row)"
    and Q: "\<And>d'. (0 < le_amount row \<Longrightarrow> moves d d') \<Longrightarrow> Q () d'" and E: "\<And>r. E r id"
  shows "wp e (settleRemaining c (tf_account f) (tf_amount f - le_amount row)) Q E d1"
  unfolding settleRemaining_def Let_def
proof (intro wp_rules E)
  fix d2 d'
  let ?refund = "\<lparr>le_id = rf_refund_entry c, le_account = tf_account f, le_kind = EntryKindTaskRefund,
      le_amount = tf_amount f - le_amount row, le_task = Some (rf_task c), le_key = None, le_note = None\<rparr>"
  show "Q () d'" if "0 < tf_amount f - le_amount row" "insertLedger ?refund d1 = Some d2"
      "deleteFund (rf_task c) d2 = Some d'"
    by (rule Q) (use that pay(3) payout_close_moves [OF ok fund pay(1), of ?refund d2 d'] in \<open>simp add: grant_kind_def\<close>)
next
  fix d'
  show "Q () d'" if "\<not> 0 < tf_amount f - le_amount row" "deleteFund (rf_task c) d1 = Some d'"
    by (rule Q) (use that pay payout_close_moves [OF ok fund pay(1), of _ d1 d'] in auto)
next
  fix d'
  show "Q () d'" if "tf_amount f - le_amount row = 0" "deleteFund (rf_task c) d1 = Some d'"
    by (rule Q) (use that pay payout_close_moves [OF ok fund pay(1), of _ d1 d'] in auto)
next
  fix d'
  show "Q () d'" if "setFundAmount (rf_task c) (tf_amount f - le_amount row) d1 = Some d'"
    by (rule Q) (use that pay(3) payout_keep_moves [OF ok fund pay(1)] in blast)
qed

lemma payReviewFund_moves [wp_rules]:
  assumes ok: "db_ok d" and Q: "\<And>out d'. moves d d' \<Longrightarrow> Q out d'" and E: "\<And>r. E r id"
  shows "wp e (payReviewFund c) Q E d"
proof -
  have refl: "Q out d" for out by (rule Q [OF moves_refl [OF ok]])
  show ?thesis
    unfolding payReviewFund_def
  proof (intro wp_rules E refl, goal_cases)
    case 1
    then show ?case by (cases "rf_selection c") (auto intro!: wp_rules E refl)
  next
    case (2 f worker workerAccount d1)
    show ?case
      by (rule wp_settleRemaining [OF ok 2(2) 2(5), simplified])
         (use 2 in \<open>auto intro!: wp_rules Q E simp: NewCreditAmount_def grant_kind_def split: sum.split if_splits\<close>)
  qed
qed

text \<open>Tips and fresh funding.\<close>

definition valid_tip :: "TipSelection \<Rightarrow> bool" where
  "valid_tip selection \<longleftrightarrow> (case selection of NoTipSelection \<Rightarrow> True | CreditTipSelection a \<Rightarrow> 0 < a)"

lemma transfer_moves:
  assumes ok: "db_ok d" and rows: "insertLedger debit d = Some d1" "insertLedger credit d1 = Some d'"
    and amounts: "le_amount debit = - a" "le_amount credit = a" "0 < a" "a \<le> spendableOf d (le_account debit)"
      "\<not> grant_kind (le_kind debit)" "\<not> grant_kind (le_kind credit)"
  shows "moves d d'"
proof -
  have "0 \<le> spendableOf d' x" for x
    using ok amounts ledger_insert_facts(1) [OF rows(1), of x] ledger_insert_facts(1) [OF rows(2), of x]
    by (auto simp: db_ok_def solvent_iff split: if_splits)
  then show ?thesis
    using ok amounts ledger_insert_facts(2-) [OF rows(1)] ledger_insert_facts(2-) [OF rows(2)]
    by (simp add: moves_def db_ok_def solvent_iff)
qed

lemma payCreditTip_moves [wp_rules]:
  assumes ok: "db_ok d" and tip: "valid_tip sel" and Q: "\<And>out d'. moves d d' \<Longrightarrow> Q out d'" and E: "\<And>r. E r id"
  shows "wp e (payCreditTip t rv w de ce k sel) Q E d"
proof (cases sel)
  case NoTipSelection
  then show ?thesis by (auto simp: payCreditTip_def intro!: wp_rules Q moves_refl ok)
next
  case (CreditTipSelection a)
  show ?thesis
  proof (cases rv)
    case (UserReviewer u)
    show ?thesis
      unfolding payCreditTip_def CreditTipSelection UserReviewer TipSelection.case Reviewer.case
      by (intro wp_rules E Q transfer_moves [OF ok]) (use tip in \<open>auto simp: valid_tip_def grant_kind_def CreditTipSelection\<close>)
  next
    case (OrganizationReviewer o)
    then show ?thesis by (simp add: payCreditTip_def CreditTipSelection wp_rules E)
  qed
qed

lemma fund_moves:
  assumes ok: "db_ok d" and rows: "insertFund f d = Some d1" "insertLedger l d1 = Some d'"
    and amounts: "le_amount l = - tf_amount f" "tf_amount f \<le> spendableOf d (le_account l)"
      "\<not> grant_kind (le_kind l)"
  shows "moves d d'"
proof -
  have f: "funds_ok d" using ok by (simp add: db_ok_def)
  have "0 \<le> spendableOf d' x" for x
    using ok amounts ledger_insert_facts(1) [OF rows(2), of x] insertFund_facts [OF rows(1) f]
    by (auto simp: db_ok_def solvent_iff split: if_splits)
  then show ?thesis
    using ok amounts insertFund_facts [OF rows(1) f] ledger_insert_facts(2-) [OF rows(2)]
    by (simp add: moves_def db_ok_def solvent_iff)
qed

lemma completeFunding_moves [wp_rules]:
  assumes ok: "db_ok d" and Q: "\<And>c r d'. moves d d' \<Longrightarrow> Q (c, r) d'" and E: "\<And>r. E r id"
  shows "wp e (completeFunding acc t a i k msg dr) Q E d"
  unfolding completeFunding_def
  by (intro wp_rules E Q, erule moves_books [rotated], rule fund_moves [OF ok]) (auto simp: grant_kind_def)

lemma rest_updateTask: "updateTask t f d = Some d' \<Longrightarrow>
    ledger_entries d' = ledger_entries d \<and> task_funds d' = task_funds d \<and> submissions d' = submissions d"
  by (auto simp: updateTask_def)

lemma credits_cong:
  assumes "ledger_entries d' = ledger_entries d" "task_funds d' = task_funds d" "submissions d' = submissions d"
    "single_active (task_reservations d) \<longrightarrow> single_active (task_reservations d')"
  shows "db_ok d \<Longrightarrow> db_ok d'" "totalCredits d' = totalCredits d" "spendableOf d' = spendableOf d"
    "issued d' = issued d"
  using assms
  by (simp_all add: issued_def db_ok_def funds_ok_def ledger_ok_def solvent_iff totalCredits_def spendableOf_def fun_eq_iff)

end
