(* ===== verification/TaskSettlement.thy ===== *)
theory TaskSettlement
  imports LedgerHelpers
begin

text \<open>
  The steps by which a task that ends gives back what it holds: its allocated
  credits, its held collectibles and its workers' reservations
  (\<open>internal/db/task_store.go\<close>, \<open>task_lifecycle_sweeps.go\<close>,
  \<open>ledger_store_helpers.go\<close> and \<open>ledger_store.go\<close>).
\<close>

section \<open>Credits\<close>

definition NewLedgerEntryID :: "env \<Rightarrow> nat \<Rightarrow> LedgerEntryID result" where
  "NewLedgerEntryID e n = fromIDResult (uuid_new e n)"

definition newT :: "(env \<Rightarrow> nat \<Rightarrow> 'a result) \<Rightarrow> ('s, DomainError, 'a) tx" where
  "newT gen = bindT (askT gen) (\<lambda>r. case r of Inl reason \<Rightarrow> raiseT reason | Inr v \<Rightarrow> retT v)"

definition refundTaskCreditFunding :: "TaskID \<Rightarrow> string option \<Rightarrow> (DomainError, unit) dbtx" where
  "refundTaskCreditFunding taskID key =
     bindT (queryT (invalidState ''read task fund failed'') (\<lambda>d. rowWhere (\<lambda>r. tf_task r = taskID) (task_funds d)))
     (\<lambda>row. case row of
        None \<Rightarrow> retT ()
      | Some fund \<Rightarrow>
          bindT (newT NewLedgerEntryID)
          (\<lambda>entryID. bindT (execT (invalidState ''insert task refund ledger entry failed'')
             (insertLedger \<lparr>le_id = entryID, le_account = tf_account fund, le_kind = EntryKindTaskRefund,
                le_amount = tf_amount fund, le_task = Some taskID, le_key = key, le_note = None\<rparr>))
          (\<lambda>_. execT (invalidState ''clear task fund failed'') (deleteFund taskID))))"

section \<open>Collectibles\<close>

definition heldFundCollectibleIDs :: "TaskID \<Rightarrow> (DomainError, CollectibleID list) dbtx" where
  "heldFundCollectibleIDs taskID =
     scanT (invalidState ''read collectible reward failed'') (invalidState ''scan collectible reward failed'')
       (invalidState ''read collectible reward failed'')
       (\<lambda>d. sort (map snd (filter (\<lambda>(t, c). t = taskID) (task_fund_collectibles d)))) retT"

definition refundHeldCollectibleReward :: "TaskID \<Rightarrow> (DomainError, unit) dbtx" where
  "refundHeldCollectibleReward taskID =
     bindT (heldFundCollectibleIDs taskID)
     (\<lambda>ids. if ids = [] then retT () else
      bindT (forT ids (\<lambda>c. execT (invalidState ''return collectible failed'')
               (updateCollectible c (\<lambda>r. r\<lparr>co_state := CollectibleStateMinted\<rparr>))))
      (\<lambda>_. execT (invalidState ''clear collectible reward failed'') (deleteHeld taskID)))"

definition settleFundedTaskOnCancel :: "TaskID \<Rightarrow> (DomainError, unit) dbtx" where
  "settleFundedTaskOnCancel taskID =
     bindT (refundTaskCreditFunding taskID None) (\<lambda>_. refundHeldCollectibleReward taskID)"

definition refundExpiredTaskFunding :: "TaskID \<Rightarrow> (DomainError, unit) dbtx" where
  "refundExpiredTaskFunding taskID =
     bindT (refundTaskCreditFunding taskID (Some (''expire:'' @ taskID)))
       (\<lambda>_. refundHeldCollectibleReward taskID)"

section \<open>Reservations\<close>

definition held_reservation :: "TaskID \<Rightarrow> reservation_row \<Rightarrow> bool" where
  "held_reservation taskID r \<longleftrightarrow> rv_task r = taskID \<and>
     rv_state r \<in> {ReservationStateActive, ReservationStateSubmitted}"

definition lockedReservationHolders :: "TaskID \<Rightarrow> (DomainError, UserID list) dbtx" where
  "lockedReservationHolders taskID =
     scanT (invalidState ''list reservation holders failed'') (invalidState ''scan reservation holder failed'')
       (invalidState ''read reservation holders failed'')
       (\<lambda>d. remdups (map rv_requested_by (filter (held_reservation taskID) (task_reservations d))))
       (parseT ParseUserID)"

definition releaseReservationsOnCancel :: "TaskID \<Rightarrow> (DomainError, unit) dbtx" where
  "releaseReservationsOnCancel taskID =
     execT (invalidState ''release reservations on cancel failed'')
       (updateReservations (held_reservation taskID) ReservationStateCancelledByRequester)"

section \<open>Who may refund\<close>

definition lockTaskRefundable :: "TaskID \<Rightarrow> UserID \<Rightarrow> (DomainError, unit) dbtx" where
  "lockTaskRefundable taskID requester =
     bindT (queryT (invalidState ''lock task failed'') (taskById taskID))
     (\<lambda>row. case row of
        None \<Rightarrow> raiseT (NewDomainError ErrorCodeNotFound ''task was not found'')
      | Some r \<Rightarrow>
          bindT (if tk_created_by r = requester then retT ()
                 else bindT (queryT (invalidState ''check active reservation failed'')
                        (\<lambda>d. \<exists>v \<in> set (task_reservations d). rv_task v = taskID \<and> rv_assignee v = AssigneeScopeUser
                              \<and> rv_user v = Some requester \<and> rv_state v = ReservationStateActive))
                      (\<lambda>isActiveImplementor. if isActiveImplementor then retT ()
                         else raiseT (NewDomainError ErrorCodePermissionDenied
                                ''only the task owner or the active implementor can refund the task'')))
          (\<lambda>_. if tk_state r \<noteq> StateDraft \<and> tk_state r \<noteq> StateOpen
               then raiseT (invalidState ''only tasks that are not yet awarded can be refunded'')
               else retT ()))"

section \<open>Settlement keeps the books\<close>

lemma wp_new [wp_rules]:
  "\<lbrakk>\<And>v. Q v s; \<And>r. E r id\<rbrakk> \<Longrightarrow> wp e (newT gen) Q E s"
  unfolding newT_def by (intro wp_rules) simp_all

lemma refund_moves:
  assumes ok: "db_ok d" and fund: "rowWhere (\<lambda>r. tf_task r = t) (task_funds d) = Some f"
    and rows: "insertLedger l d = Some d1" "le_amount l = tf_amount f" "deleteFund t d1 = Some d'"
      "\<not> grant_kind (le_kind l)"
  shows "moves d d'"
proof -
  have "0 < tf_amount f"
    using ok fund by (auto simp: db_ok_def funds_ok_def dest: rowWhere_SomeD)
  then show ?thesis
    using payout_close_moves [OF ok fund rows(1), of _ d1 d'] rows by simp
qed

lemma refundTaskCreditFunding_moves [wp_rules]:
  assumes ok: "db_ok d"
    and Q: "\<And>d'. \<lbrakk>moves d d'; \<forall>r \<in> set (task_funds d'). tf_task r \<noteq> t\<rbrakk> \<Longrightarrow> Q () d'" and E: "\<And>r. E r id"
  shows "wp e (refundTaskCreditFunding t key) Q E d"
  unfolding refundTaskCreditFunding_def
proof (intro wp_rules E)
  assume "rowWhere (\<lambda>r. tf_task r = t) (task_funds d) = None"
  then show "Q () d" by (intro Q moves_refl ok) (auto simp: rowWhere_None)
next
  fix f i d1 d'
  assume fund: "rowWhere (\<lambda>r. tf_task r = t) (task_funds d) = Some f"
    and l: "insertLedger \<lparr>le_id = i, le_account = tf_account f, le_kind = EntryKindTaskRefund,
              le_amount = tf_amount f, le_task = Some t, le_key = key, le_note = None\<rparr> d = Some d1"
    and del: "deleteFund t d1 = Some d'"
  show "Q () d'"
    by (rule Q [OF refund_moves [OF ok fund l _ del]])
       (use del in \<open>auto simp: deleteFund_def grant_kind_def\<close>)
qed

text \<open>Steps that touch neither credits nor submissions.\<close>

definition sameCredits :: "db \<Rightarrow> db \<Rightarrow> bool" where
  "sameCredits d d' \<longleftrightarrow> ledger_entries d' = ledger_entries d \<and> task_funds d' = task_funds d \<and>
     submissions d' = submissions d \<and> (single_active (task_reservations d) \<longrightarrow> single_active (task_reservations d'))"

lemma sameCredits_refl [simp]: "sameCredits d d"
  by (simp add: sameCredits_def)

lemma sameCredits_trans: "\<lbrakk>sameCredits d d'; sameCredits d' d''\<rbrakk> \<Longrightarrow> sameCredits d d''"
  by (simp add: sameCredits_def)

lemma wp_heldFundCollectibleIDs [wp_rules]:
  "\<lbrakk>\<And>ids. Q ids d; \<And>r. E r id\<rbrakk> \<Longrightarrow> wp e (heldFundCollectibleIDs t) Q E d"
  unfolding heldFundCollectibleIDs_def by (rule wp_scan) (auto intro: wp_rules)

lemma wp_lockedReservationHolders [wp_rules]:
  "\<lbrakk>\<And>us. Q us d; \<And>r. E r id\<rbrakk> \<Longrightarrow> wp e (lockedReservationHolders t) Q E d"
  unfolding lockedReservationHolders_def by (rule wp_scan) (auto intro!: wp_rules)

lemma wp_lockTaskRefundable [wp_rules]:
  "\<lbrakk>\<And>r. \<lbrakk>taskById t d = Some r; tk_state r = StateDraft \<or> tk_state r = StateOpen\<rbrakk> \<Longrightarrow> Q () d; \<And>r. E r id\<rbrakk>
    \<Longrightarrow> wp e (lockTaskRefundable t u) Q E d"
  unfolding lockTaskRefundable_def by (intro wp_rules) auto

lemma wp_refundHeld [wp_rules]:
  assumes Q: "\<And>d'. sameCredits d d' \<Longrightarrow> Q () d'" and E: "\<And>r. E r id"
  shows "wp e (refundHeldCollectibleReward t) Q E d"
  unfolding refundHeldCollectibleReward_def
proof (intro wp_rules E Q sameCredits_refl)
  fix ids
  show "wp e (forT ids (\<lambda>c. execT (invalidState ''return collectible failed'')
           (updateCollectible c (\<lambda>r. r\<lparr>co_state := CollectibleStateMinted\<rparr>))))
      (\<lambda>_ s'. wp e (execT (invalidState ''clear collectible reward failed'') (deleteHeld t)) Q E s') E d"
    by (rule wp_for [where I = "sameCredits d"])
       (auto intro!: wp_rules E Q simp: sameCredits_def updateCollectible_def deleteHeld_def)
qed

lemma wp_release [wp_rules]:
  assumes "\<And>d'. sameCredits d d' \<Longrightarrow> Q () d'" "\<And>r. E r id"
  shows "wp e (releaseReservationsOnCancel t) Q E d"
  unfolding releaseReservationsOnCancel_def
  by (intro wp_rules assms) (auto simp: updateReservations_def sameCredits_def Let_def split: if_splits)

end
