(* ===== verification/Collectibles.thy ===== *)
theory Collectibles
  imports TaskSettlement
begin

text \<open>
  Collectibles: the transfer-policy matrix of \<open>internal/assets/policy.go\<close>, the
  custody steps of \<open>internal/db/collectible_store.go\<close> and of the review in
  \<open>ledger_store_helpers.go\<close>.  A collectible is modelled by the columns its
  movements depend on; the display columns (name, kind, art, catalog, edition,
  issuer) are not, and a row whose display columns do not parse is a scan
  failure of the oracle.
\<close>

section \<open>Transfer policies\<close>

fun TransferPolicy_String :: "TransferPolicy \<Rightarrow> string" where
  "TransferPolicy_String TransferPolicyNonTransferableExceptPayout = ''non_transferable_except_payout''"
| "TransferPolicy_String TransferPolicyTransferableBetweenUsers = ''transferable_between_users''"
| "TransferPolicy_String TransferPolicyTransferableWithinOrg = ''transferable_within_organization''"
| "TransferPolicy_String TransferPolicyIssuerControlled = ''issuer_controlled''"

definition ParseTransferPolicy :: "string \<Rightarrow> TransferPolicy result" where
  "ParseTransferPolicy raw =
     (if raw = ''non_transferable_except_payout'' then Inr TransferPolicyNonTransferableExceptPayout
      else if raw = ''transferable_between_users'' then Inr TransferPolicyTransferableBetweenUsers
      else if raw = ''transferable_within_organization'' then Inr TransferPolicyTransferableWithinOrg
      else if raw = ''issuer_controlled'' then Inr TransferPolicyIssuerControlled
      else Inl (NewDomainError ErrorCodeInvalidEnum ''transfer policy is invalid''))"

interpretation transfer_policy: sealed_enum TransferPolicy_String ParseTransferPolicy
  by unfold_locales (rename_tac raw k, case_tac k; simp add: ParseTransferPolicy_def)

fun CollectibleState_String :: "CollectibleState \<Rightarrow> string" where
  "CollectibleState_String CollectibleStateMinted = ''minted''"
| "CollectibleState_String CollectibleStateEscrowed = ''escrowed''"
| "CollectibleState_String CollectibleStateAwarded = ''awarded''"
| "CollectibleState_String CollectibleStateWithdrawn = ''withdrawn''"

definition ParseCollectibleState :: "string \<Rightarrow> CollectibleState result" where
  "ParseCollectibleState raw =
     (if raw = ''minted'' then Inr CollectibleStateMinted
      else if raw = ''escrowed'' then Inr CollectibleStateEscrowed
      else if raw = ''awarded'' then Inr CollectibleStateAwarded
      else if raw = ''withdrawn'' then Inr CollectibleStateWithdrawn
      else Inl (NewDomainError ErrorCodeInvalidEnum ''collectible state is invalid''))"

interpretation collectible_state: sealed_enum CollectibleState_String ParseCollectibleState
  by unfold_locales (rename_tac raw k, case_tac k; simp add: ParseCollectibleState_def)

datatype RewardCheck = RewardAllowed | RewardDenied DomainError

fun AllowsTip :: "TransferPolicy \<Rightarrow> RewardCheck" where
  "AllowsTip TransferPolicyTransferableBetweenUsers = RewardAllowed"
| "AllowsTip TransferPolicyTransferableWithinOrg = RewardAllowed"
| "AllowsTip TransferPolicyNonTransferableExceptPayout =
     RewardDenied (invalidState ''this collectible can only move as a reward payout, not a tip'')"
| "AllowsTip TransferPolicyIssuerControlled =
     RewardDenied (invalidState ''issuer-controlled assets cannot be tipped'')"

fun AllowsRewardPayout :: "TransferPolicy \<Rightarrow> RewardCheck" where
  "AllowsRewardPayout TransferPolicyNonTransferableExceptPayout = RewardAllowed"
| "AllowsRewardPayout TransferPolicyTransferableBetweenUsers = RewardAllowed"
| "AllowsRewardPayout TransferPolicyTransferableWithinOrg = RewardAllowed"
| "AllowsRewardPayout TransferPolicyIssuerControlled =
     RewardDenied (invalidState ''issuer-controlled assets cannot be awarded as task rewards yet'')"

fun AllowsTransfer :: "TransferPolicy \<Rightarrow> RewardCheck" where
  "AllowsTransfer TransferPolicyTransferableBetweenUsers = RewardAllowed"
| "AllowsTransfer TransferPolicyTransferableWithinOrg = RewardAllowed"
| "AllowsTransfer TransferPolicyNonTransferableExceptPayout =
     RewardDenied (NewDomainError ErrorCodePermissionDenied ''collectible is not transferable'')"
| "AllowsTransfer TransferPolicyIssuerControlled =
     RewardDenied (NewDomainError ErrorCodePermissionDenied ''collectible transfers are controlled by its issuer'')"

section \<open>Custody steps\<close>

definition selectCollectible :: "string \<Rightarrow> CollectibleID \<Rightarrow> (DomainError, collectible_row) dbtx" where
  "selectCollectible failure collectibleID =
     bindT (queryT (invalidState failure) (\<lambda>d. rowWhere (\<lambda>r. co_id r = collectibleID) (collectibles d)))
     (\<lambda>row. case row of
        None \<Rightarrow> raiseT (invalidArgument ''collectible was not found'')
      | Some r \<Rightarrow> bindT (queryT (invalidState ''scan collectible failed'') (\<lambda>d. ())) (\<lambda>_. retT r))"

definition lockCollectible :: "CollectibleID \<Rightarrow> (DomainError, collectible_row) dbtx" where
  "lockCollectible collectibleID = selectCollectible ''lock collectible failed'' collectibleID"

definition findCollectible :: "CollectibleID \<Rightarrow> (DomainError, collectible_row) dbtx" where
  "findCollectible collectibleID = selectCollectible ''read collectible failed'' collectibleID"

definition activeMember :: "db \<Rightarrow> OrganizationID \<Rightarrow> UserID \<Rightarrow> bool" where
  "activeMember d organizationID u \<longleftrightarrow> (\<exists>m \<in> set (organization_memberships d).
     mb_organization m = organizationID \<and> mb_user m = u \<and> mb_status m = MembershipStatusActive)"

definition requireSharedCollectibleOrganization ::
  "collectible_row \<Rightarrow> UserID \<Rightarrow> UserID \<Rightarrow> (DomainError, unit) dbtx" where
  "requireSharedCollectibleOrganization collectible fromUser toUser =
     (if co_organization collectible = ''''
      then raiseT (invalidState ''within-organization collectible has no organization'')
      else forT [fromUser, toUser] (\<lambda>u.
        bindT (queryT (invalidState ''check collectible organization membership failed'')
                 (\<lambda>d. activeMember d (co_organization collectible) u))
        (\<lambda>active. if active then retT ()
           else raiseT (NewDomainError ErrorCodePermissionDenied
             ''within-organization collectible can only be tipped between organization members''))))"

definition requireEscrowableCollectible :: "CollectibleID \<Rightarrow> UserID \<Rightarrow> (DomainError, collectible_row) dbtx" where
  "requireEscrowableCollectible collectibleID funder =
     bindT (lockCollectible collectibleID)
     (\<lambda>r. if co_owner_kind r \<noteq> CollectibleOwnerKindUser \<or> co_owner r \<noteq> funder
          then raiseT (invalidArgument ''only the collectible owner can fund a task with it'')
          else if co_state r \<noteq> CollectibleStateMinted
          then raiseT (invalidState ''collectible is not available to escrow'')
          else case AllowsRewardPayout (co_policy r) of
            RewardDenied reason \<Rightarrow> raiseT reason
          | RewardAllowed \<Rightarrow> retT r)"

text \<open>\<open>task_fund_collectibles\<close>: a collectible is held at most once.\<close>

definition insertHeld :: "TaskID \<Rightarrow> CollectibleID \<Rightarrow> db \<Rightarrow> db option" where
  "insertHeld t c d =
     (if c \<in> snd ` set (task_fund_collectibles d) then None
      else Some (d\<lparr>task_fund_collectibles := task_fund_collectibles d @ [(t, c)]\<rparr>))"

definition holdCollectibleForTask :: "TaskID \<Rightarrow> CollectibleID \<Rightarrow> (DomainError, unit) dbtx" where
  "holdCollectibleForTask taskID collectibleID =
     bindT (execT (invalidState ''escrow collectible failed'')
       (updateCollectible collectibleID (\<lambda>r. r\<lparr>co_state := CollectibleStateEscrowed\<rparr>)))
     (\<lambda>_. execU (conflict ''collectible is already escrowed on this task'')
             (invalidState ''insert collectible reward failed'') (insertHeld taskID collectibleID))"

section \<open>Paying out a review\<close>

definition resolveCollectiblePayout :: "UserID \<Rightarrow> CollectibleID list \<Rightarrow> (DomainError, PayoutOutcome) dbtx" where
  "resolveCollectiblePayout rawWorkerID rawIDs =
     (if rawIDs = [] then retT NoPayout
      else bindT (parseT ParseUserID rawWorkerID)
        (\<lambda>worker. bindT (mapT rawIDs (parseT ParseCollectibleID))
        (\<lambda>ids. retT (CollectiblePayout worker ids))))"

definition payOutCollectible :: "TaskID \<Rightarrow> UserID \<Rightarrow> (DomainError, PayoutOutcome) dbtx" where
  "payOutCollectible taskID rawWorkerID =
     bindT (heldFundCollectibleIDs taskID)
     (\<lambda>rawIDs. bindT (resolveCollectiblePayout rawWorkerID rawIDs)
     (\<lambda>resolved. if resolved = NoPayout then retT NoPayout else
      bindT (forT rawIDs (\<lambda>c. execT (invalidState ''award collectible failed'')
               (updateCollectible c (\<lambda>r. r\<lparr>co_state := CollectibleStateMinted, co_owner := rawWorkerID,
                  co_owner_kind := CollectibleOwnerKindUser\<rparr>))))
     (\<lambda>_. bindT (execT (invalidState ''clear collectible reward failed'') (deleteHeld taskID))
     (\<lambda>_. retT resolved))))"

definition payCollectibleTip :: "Reviewer \<Rightarrow> UserID \<Rightarrow> CollectibleTipSelection \<Rightarrow> (DomainError, TipOutcome) dbtx" where
  "payCollectibleTip reviewer rawWorkerID selection = (case selection of
     NoCollectibleTipSelection \<Rightarrow> retT NoTip
   | CollectibleTipSelected collectibleID \<Rightarrow>
       (case reviewer of
          OrganizationReviewer _ \<Rightarrow> raiseT (invalidArgument ''an organization credential cannot tip a collectible'')
        | UserReviewer requester \<Rightarrow>
            bindT (parseT ParseUserID rawWorkerID)
            (\<lambda>worker. bindT (liftT (\<lambda>_. invalidArgument ''collectible is not available to tip'') (lockCollectible collectibleID))
            (\<lambda>r. if co_owner_kind r = CollectibleOwnerKindUser \<and> co_owner r = worker
                 then retT (CollectibleTip worker collectibleID)
                 else if co_owner_kind r \<noteq> CollectibleOwnerKindUser \<or> co_owner r \<noteq> requester
                 then raiseT (invalidArgument ''collectible is not available to tip'')
                 else if co_state r \<noteq> CollectibleStateMinted
                 then raiseT (invalidState ''collectible is not available to tip'')
                 else case AllowsTip (co_policy r) of
                   RewardDenied reason \<Rightarrow> raiseT reason
                 | RewardAllowed \<Rightarrow>
                     bindT (if co_policy r = TransferPolicyTransferableWithinOrg
                            then requireSharedCollectibleOrganization r requester worker else retT ())
                     (\<lambda>_. bindT (execT (invalidState ''transfer collectible tip failed'')
                        (updateCollectible collectibleID (\<lambda>r. r\<lparr>co_owner := worker,
                           co_owner_kind := CollectibleOwnerKindUser\<rparr>)))
                     (\<lambda>_. retT (CollectibleTip worker collectibleID)))))))"

section \<open>The store's own operations\<close>

datatype FundRewardResult = RewardFunded collectible_row | FundRewardRejected DomainError

datatype RefundRewardResult = RewardRefunded "collectible_row list" | RefundRewardRejected DomainError

datatype GiftResult = CollectibleGifted collectible_row "Draft list" | GiftRejected DomainError

definition FundCollectibleReward ::
  "CollectibleID \<Rightarrow> UserID \<Rightarrow> TaskID \<Rightarrow> env \<Rightarrow> nat \<Rightarrow> db \<Rightarrow> FundRewardResult \<times> db" where
  "FundCollectibleReward collectibleID funder taskID =
     runT (FundRewardRejected (invalidState ''begin fund collectible reward transaction failed''))
     (bindT (liftT FundRewardRejected (requireEscrowableCollectible collectibleID funder))
     (\<lambda>collectible. bindT (liftT FundRewardRejected (lockTaskOwnedBy taskID funder ''fund''))
     (\<lambda>taskRow. if tl_state taskRow \<noteq> StateDraft
        then raiseT (FundRewardRejected (invalidState ''only draft tasks can be funded'')) else
      (let update = (\<lambda>kind. execT (FundRewardRejected (invalidState ''update task reward kind failed''))
             (updateTask taskID (\<lambda>r. r\<lparr>tk_reward_kind := kind\<rparr>))) in
      bindT (case tl_reward_kind taskRow of
               RewardKindNone \<Rightarrow> update RewardKindCollectible
             | RewardKindCredit \<Rightarrow> update RewardKindBundle
             | _ \<Rightarrow> retT ())
      (\<lambda>_. bindT (liftT FundRewardRejected (holdCollectibleForTask taskID collectibleID))
      (\<lambda>_. retT (FundRewardRejected (invalidState ''commit fund collectible reward transaction failed''),
                 RewardFunded (collectible\<lparr>co_state := CollectibleStateEscrowed\<rparr>))))))))"

definition RefundCollectibleReward :: "TaskID \<Rightarrow> UserID \<Rightarrow> env \<Rightarrow> nat \<Rightarrow> db \<Rightarrow> RefundRewardResult \<times> db" where
  "RefundCollectibleReward taskID requester =
     runT (RefundRewardRejected (invalidState ''begin refund collectible reward transaction failed''))
     (bindT (liftT RefundRewardRejected (lockTaskRefundable taskID requester))
     (\<lambda>_. bindT (queryT (RefundRewardRejected (invalidState ''read task reward kind failed'')) (taskById taskID))
     (\<lambda>row. case row of
        None \<Rightarrow> raiseT (RefundRewardRejected (invalidState ''read task reward kind failed''))
      | Some r \<Rightarrow>
          if tk_reward_kind r = RewardKindBundle
          then raiseT (RefundRewardRejected (conflict ''bundled rewards must be refunded together'')) else
      bindT (liftT RefundRewardRejected (heldFundCollectibleIDs taskID))
      (\<lambda>heldIDs. if heldIDs = []
         then raiseT (RefundRewardRejected (invalidState ''task has no collectible reward to refund'')) else
      bindT (mapT heldIDs (\<lambda>c.
               bindT (execT (RefundRewardRejected (invalidState ''return collectible failed''))
                  (updateCollectible c (\<lambda>r. r\<lparr>co_state := CollectibleStateMinted\<rparr>)))
               (\<lambda>_. liftT RefundRewardRejected (findCollectible c))))
      (\<lambda>refunded. bindT (execT (RefundRewardRejected (invalidState ''clear collectible reward failed'')) (deleteHeld taskID))
      (\<lambda>_. bindT (execT (RefundRewardRejected (invalidState ''cancel task failed''))
               (updateTask taskID (\<lambda>r. r\<lparr>tk_state := StateCancelled\<rparr>)))
      (\<lambda>_. bindT (liftT RefundRewardRejected (releaseReservationsOnCancel taskID))
      (\<lambda>_. retT (RefundRewardRejected (invalidState ''commit refund collectible reward transaction failed''),
                 RewardRefunded refunded)))))))))"

definition GiftCollectible ::
  "CollectibleID \<Rightarrow> UserID \<Rightarrow> UserID \<Rightarrow> Draft \<Rightarrow> env \<Rightarrow> nat \<Rightarrow> db \<Rightarrow> GiftResult \<times> db" where
  "GiftCollectible collectibleID fromUser toUser draft =
     runT (GiftRejected (invalidState ''begin gift collectible transaction failed''))
     (bindT (liftT (\<lambda>_. GiftRejected (invalidArgument ''collectible is not available to tip'')) (lockCollectible collectibleID))
     (\<lambda>r. if co_owner_kind r = CollectibleOwnerKindUser \<and> co_owner r = toUser
          then raiseT (CollectibleGifted r [])
          else if co_owner_kind r \<noteq> CollectibleOwnerKindUser \<or> co_owner r \<noteq> fromUser
          then raiseT (GiftRejected (invalidArgument ''collectible is not available to tip''))
          else if co_state r \<noteq> CollectibleStateMinted
          then raiseT (GiftRejected (invalidState ''collectible is not available to tip''))
          else case AllowsTip (co_policy r) of
            RewardDenied reason \<Rightarrow> raiseT (GiftRejected reason)
          | RewardAllowed \<Rightarrow>
              bindT (if co_policy r = TransferPolicyTransferableWithinOrg
                     then liftT GiftRejected (requireSharedCollectibleOrganization r fromUser toUser) else retT ())
              (\<lambda>_. bindT (execT (GiftRejected (invalidState ''transfer collectible failed''))
                 (updateCollectible collectibleID (\<lambda>r. r\<lparr>co_owner := toUser, co_owner_kind := CollectibleOwnerKindUser\<rparr>)))
              (\<lambda>_. bindT (recordEventDraftInTx (GiftRejected (invalidState ''record collectible gift event failed'')) draft)
              (\<lambda>_. retT (GiftRejected (invalidState ''commit gift collectible failed''),
                  CollectibleGifted (r\<lparr>co_owner_kind := CollectibleOwnerKindUser, co_owner := toUser\<rparr>) [draft]))))))"

definition AwardOrganizationCollectible ::
  "CollectibleID \<Rightarrow> OrganizationID \<Rightarrow> UserID \<Rightarrow> Draft \<Rightarrow> env \<Rightarrow> nat \<Rightarrow> db \<Rightarrow> GiftResult \<times> db" where
  "AwardOrganizationCollectible collectibleID organizationID recipient draft =
     runT (GiftRejected (invalidState ''begin award organization collectible transaction failed''))
     (bindT (liftT (\<lambda>_. GiftRejected (invalidArgument ''collectible is not available to award'')) (lockCollectible collectibleID))
     (\<lambda>r. if co_owner_kind r \<noteq> CollectibleOwnerKindOrganization \<or> co_organization r \<noteq> organizationID
          then raiseT (GiftRejected (invalidArgument ''collectible does not belong to this organization''))
          else if co_state r \<noteq> CollectibleStateMinted
          then raiseT (GiftRejected (invalidState ''collectible is not available to award''))
          else bindT (queryT (GiftRejected (invalidState ''check organization membership failed''))
                  (\<lambda>d. activeMember d organizationID recipient))
          (\<lambda>isActiveMember. if \<not> isActiveMember
             then raiseT (GiftRejected (invalidArgument ''recipient is not an active member of this organization'')) else
           bindT (execT (GiftRejected (invalidState ''transfer organization collectible failed''))
                 (updateCollectible collectibleID (\<lambda>r. r\<lparr>co_owner := recipient,
                    co_owner_kind := CollectibleOwnerKindUser, co_organization := ''''\<rparr>)))
          (\<lambda>_. bindT (recordEventDraftInTx (GiftRejected (invalidState ''record collectible award event failed'')) draft)
          (\<lambda>_. retT (GiftRejected (invalidState ''commit award organization collectible failed''),
              CollectibleGifted (r\<lparr>co_owner_kind := CollectibleOwnerKindUser, co_owner := recipient,
                 co_organization := ''''\<rparr>) [draft]))))))"

section \<open>Custody steps move no credits\<close>

lemma wp_case_RewardCheck [wp_rules]:
  "\<lbrakk>x = RewardAllowed \<Longrightarrow> wp e m Q E s; \<And>r. x = RewardDenied r \<Longrightarrow> wp e (k r) Q E s\<rbrakk>
    \<Longrightarrow> wp e (case x of RewardAllowed \<Rightarrow> m | RewardDenied r \<Rightarrow> k r) Q E s"
  by (cases x) simp_all

lemma wp_selectCollectible:
  "\<lbrakk>\<And>r. \<lbrakk>rowWhere (\<lambda>r. co_id r = c) (collectibles d) = Some r\<rbrakk> \<Longrightarrow> Q r d; \<And>r. E r id\<rbrakk>
    \<Longrightarrow> wp e (selectCollectible f c) Q E d"
  unfolding selectCollectible_def by (intro wp_rules) simp_all

lemmas wp_lockCollectible [wp_rules] = wp_selectCollectible [where f = "''lock collectible failed''",
    folded lockCollectible_def]
lemmas wp_findCollectible [wp_rules] = wp_selectCollectible [where f = "''read collectible failed''",
    folded findCollectible_def]

lemma wp_requireShared [wp_rules]:
  "\<lbrakk>Q () d; \<And>r. E r id\<rbrakk> \<Longrightarrow> wp e (requireSharedCollectibleOrganization r u v) Q E d"
  unfolding requireSharedCollectibleOrganization_def forT.simps by (intro wp_rules) simp_all

lemma wp_requireEscrowable [wp_rules]:
  "\<lbrakk>\<And>r. \<lbrakk>rowWhere (\<lambda>r. co_id r = c) (collectibles d) = Some r; co_owner_kind r = CollectibleOwnerKindUser;
        co_owner r = u; co_state r = CollectibleStateMinted; AllowsRewardPayout (co_policy r) = RewardAllowed\<rbrakk>
        \<Longrightarrow> Q r d; \<And>r. E r id\<rbrakk>
    \<Longrightarrow> wp e (requireEscrowableCollectible c u) Q E d"
  unfolding requireEscrowableCollectible_def
  by (intro wp_rules) simp_all

lemma wp_resolveCollectiblePayout [wp_rules]:
  assumes "\<And>out. Q out d" "\<And>r. E r id"
  shows "wp e (resolveCollectiblePayout w ids) Q E d"
proof -
  have "wp e (mapT ids (parseT ParseCollectibleID)) (\<lambda>cs s'. wp e (retT (CollectiblePayout v cs)) Q E s') E d" for v
    by (rule wp_map [where I = "\<lambda>t. t = d"]) (auto intro!: wp_rules assms)
  then show ?thesis
    unfolding resolveCollectiblePayout_def by (intro wp_rules assms) auto
qed

lemma payOutCollectible_same [wp_rules]:
  assumes Q: "\<And>out d'. sameCredits d d' \<Longrightarrow> Q out d'" and E: "\<And>r. E r id"
  shows "wp e (payOutCollectible t w) Q E d"
  unfolding payOutCollectible_def
proof (intro wp_rules E Q sameCredits_refl)
  fix ids out
  show "wp e (forT ids (\<lambda>c. execT (invalidState ''award collectible failed'')
           (updateCollectible c (\<lambda>r. r\<lparr>co_state := CollectibleStateMinted, co_owner := w,
              co_owner_kind := CollectibleOwnerKindUser\<rparr>))))
      (\<lambda>_ s'. wp e (bindT (execT (invalidState ''clear collectible reward failed'') (deleteHeld t)) (\<lambda>_. retT out)) Q E s') E d"
    by (rule wp_for [where I = "sameCredits d"])
       (auto intro!: wp_rules E Q simp: sameCredits_def updateCollectible_def deleteHeld_def)
qed

lemma payCollectibleTip_same [wp_rules]:
  assumes Q: "\<And>out d'. sameCredits d d' \<Longrightarrow> Q out d'" and E: "\<And>r. E r id"
  shows "wp e (payCollectibleTip rv w sel) Q E d"
proof -
  have "sameCredits d d'" if "updateCollectible c f d = Some d'" for c f d'
    using that by (auto simp: updateCollectible_def sameCredits_def)
  then show ?thesis
    unfolding payCollectibleTip_def
    by (cases sel; cases rv) (simp_all, (intro wp_rules E Q; simp)+)
qed

end
