(* ===== verification/LedgerStore.thy ===== *)
theory LedgerStore
  imports Collectibles
begin

text \<open>
  \<open>internal/db/ledger_store.go\<close>: the ledger's transactions, each from \<open>Begin\<close> to
  \<open>Commit\<close>, composed of the steps of the helper theories.
\<close>

section \<open>Commands\<close>

record FundStoreCommand =
  fc_entry :: LedgerEntryID
  fc_funder :: UserID
  fc_task :: TaskID
  fc_amount :: CreditAmount
  fc_key :: IdempotencyKey
  fc_spend :: SpendCharge
  fc_draft :: Draft

record OrganizationFundStoreCommand =
  oc_entry :: LedgerEntryID
  oc_organization :: OrganizationID
  oc_task :: TaskID
  oc_amount :: CreditAmount
  oc_key :: IdempotencyKey
  oc_spend :: SpendCharge
  oc_draft :: Draft

record AcceptStoreCommand =
  ac_payout_entry :: LedgerEntryID
  ac_refund_entry :: LedgerEntryID
  ac_tip_debit :: LedgerEntryID
  ac_tip_credit :: LedgerEntryID
  ac_reviewer :: Reviewer
  ac_task :: TaskID
  ac_submission :: SubmissionID
  ac_key :: IdempotencyKey
  ac_credit :: CreditReviewSelection
  ac_tip :: TipSelection
  ac_collectible_tip :: CollectibleTipSelection
  ac_spend :: SpendCharge
  ac_draft :: Draft

record RequestChangesStoreCommand =
  qc_reviewer :: Reviewer
  qc_task :: TaskID
  qc_submission :: SubmissionID
  qc_key :: IdempotencyKey
  qc_note :: string
  qc_draft :: Draft

record RejectStoreCommand =
  jc_payout_entry :: LedgerEntryID
  jc_tip_debit :: LedgerEntryID
  jc_tip_credit :: LedgerEntryID
  jc_reviewer :: Reviewer
  jc_task :: TaskID
  jc_submission :: SubmissionID
  jc_key :: IdempotencyKey
  jc_note :: string
  jc_credit :: CreditReviewSelection
  jc_tip :: TipSelection
  jc_ban :: BanSelection
  jc_spend :: SpendCharge
  jc_draft :: Draft

record RefundStoreCommand =
  uc_entry :: LedgerEntryID
  uc_requester :: UserID
  uc_task :: TaskID
  uc_key :: IdempotencyKey
  uc_draft :: Draft

record GrantStoreCommand =
  gc_entry :: LedgerEntryID
  gc_target :: GrantTarget
  gc_amount :: CreditAmount
  gc_note :: string
  gc_key :: IdempotencyKey
  gc_draft :: Draft

record PeerTransferStoreCommand =
  pc_debit :: LedgerEntryID
  pc_credit :: LedgerEntryID
  pc_actor :: UserID
  pc_source :: TransferSource
  pc_target :: TransferTarget
  pc_amount :: CreditAmount
  pc_note :: TransferNote
  pc_key :: IdempotencyKey
  pc_spend :: SpendCharge
  pc_draft :: Draft

section \<open>Funding a task\<close>

definition FundTask :: "FundStoreCommand \<Rightarrow> env \<Rightarrow> nat \<Rightarrow> db \<Rightarrow> FundResult \<times> db" where
  "FundTask command =
     runT (FundRejected (invalidState ''begin fund task transaction failed''))
     (bindT (liftT FundRejected (lockUserAccount (fc_funder command)))
     (\<lambda>account. bindT (findFundForKey (fc_key command) (fc_task command) (fst account))
     (\<lambda>_. bindT (liftT FundRejected (lockTaskOwnedBy (fc_task command) (fc_funder command) ''fund''))
     (\<lambda>taskRow. bindT (liftT FundRejected (requireFundableTask (fc_task command) taskRow (fc_amount command)))
     (\<lambda>_. bindT (orRefuse (applySpendCharge (fc_spend command)) FundRejected)
     (\<lambda>_. completeFunding account (fc_task command) (fc_amount command) (fc_entry command) (fc_key command)
             ''insufficient credits to fund the task'' (fc_draft command)))))))"

definition parseReviewWorker :: "UserID \<Rightarrow> (DomainError, UserID) dbtx" where
  "parseReviewWorker raw = parseT ParseUserID raw"

definition FundTaskFromOrganization :: "OrganizationFundStoreCommand \<Rightarrow> env \<Rightarrow> nat \<Rightarrow> db \<Rightarrow> FundResult \<times> db" where
  "FundTaskFromOrganization command =
     runT (FundRejected (invalidState ''begin fund task transaction failed''))
     (bindT (liftT FundRejected (lockOrganizationAccount (oc_organization command)))
     (\<lambda>account. bindT (findFundForKey (oc_key command) (oc_task command) (fst account))
     (\<lambda>_. bindT (liftT FundRejected (lockTaskOwnedByOrganization (oc_task command) (oc_organization command)))
     (\<lambda>taskRow. bindT (liftT FundRejected (requireFundableTask (oc_task command) taskRow (oc_amount command)))
     (\<lambda>_. bindT (liftT FundRejected (parseReviewWorker (tl_created_by taskRow)))
     (\<lambda>ownerID. bindT (orRefuse (applySpendCharge (oc_spend command)) FundRejected)
     (\<lambda>_. completeFunding account (oc_task command) (oc_amount command) (oc_entry command) (oc_key command)
             ''insufficient organization credits to fund the task''
             (WithRecipients (oc_draft command) [ownerID]))))))))"

section \<open>Accepting a submission\<close>

definition idempotentAccept :: "AcceptStoreCommand \<Rightarrow> UserID \<Rightarrow> (AcceptResult, 'a) dbtx" where
  "idempotentAccept command rawWorkerID =
     bindT (liftT AcceptRejected (parseReviewWorker rawWorkerID))
     (\<lambda>workerID. bindT (queryT (AcceptRejected (invalidState ''read task payout failed''))
        (\<lambda>d. rowWhere (\<lambda>r. le_task r = Some (ac_task command) \<and> le_kind r = EntryKindTaskPayout
                \<and> le_key r = Some (ac_key command)) (ledger_entries d)))
     (\<lambda>row. raiseT (SubmissionAccepted (ac_task command) (ac_submission command) workerID
        (case row of
           None \<Rightarrow> NoPayout
         | Some r \<Rightarrow> (case NewCreditAmount (le_amount r) of Inr a \<Rightarrow> CreditPayout workerID a | Inl _ \<Rightarrow> NoPayout))
        NoTip IdempotentReplay [])))"

text \<open>\<open>update ... returning\<close>: the rows the update changes.\<close>

definition competing :: "TaskID \<Rightarrow> SubmissionID \<Rightarrow> submission_row \<Rightarrow> bool" where
  "competing taskID accepted r \<longleftrightarrow> sb_task r = taskID \<and> sb_id r \<noteq> accepted \<and> sb_state r = SubmissionStateSubmitted"

definition supersedeCompetingSubmissions :: "TaskID \<Rightarrow> SubmissionID \<Rightarrow> Actor \<Rightarrow> (DomainError, Draft list) dbtx" where
  "supersedeCompetingSubmissions taskID accepted actor =
     bindT (queryT (invalidState ''supersede competing submissions failed'')
              (\<lambda>d. filter (competing taskID accepted) (submissions d)))
     (\<lambda>rows. bindT (execT (invalidState ''supersede competing submissions failed'')
        (updateSubmissions (competing taskID accepted) (\<lambda>r. r\<lparr>sb_state := SubmissionStateSuperseded\<rparr>)))
     (\<lambda>_. bindT (forT rows (\<lambda>_. queryT (invalidState ''scan superseded submission failed'') (\<lambda>d. ())))
     (\<lambda>_. bindT (queryT (invalidState ''read superseded submissions failed'') (\<lambda>d. ()))
     (\<lambda>_. mapT rows (\<lambda>row.
        bindT (liftT (\<lambda>_. invalidState ''superseded submission id is invalid'') (parseT ParseSubmissionID (sb_id row)))
        (\<lambda>submissionID. bindT (parseReviewWorker (sb_user row))
        (\<lambda>submitterID. NewDraft KindSubmissionSuperseded actor
           (NoSubjectRefs\<lparr>sj_task := Some taskID, sj_submission := Some submissionID\<rparr>)
           (TaskMetadata taskID) (NewRecipients [submitterID]))))))))"

definition acceptFundCommand :: "AcceptStoreCommand \<Rightarrow> UserID \<Rightarrow> reviewFundCommand" where
  "acceptFundCommand command rawWorkerID = \<lparr>rf_task = ac_task command, rf_worker = rawWorkerID,
     rf_payout_entry = ac_payout_entry command, rf_refund_entry = ac_refund_entry command,
     rf_key = ac_key command, rf_selection = ac_credit command, rf_close = True, rf_missing_is_no_payout = True\<rparr>"

definition payOutEscrow :: "AcceptStoreCommand \<Rightarrow> UserID \<Rightarrow> (DomainError, PayoutOutcome) dbtx" where
  "payOutEscrow command rawWorkerID = payReviewFund (acceptFundCommand command rawWorkerID)"

definition recordAll :: "'r \<Rightarrow> Draft list \<Rightarrow> ('r, unit) dbtx" where
  "recordAll err drafts = forT drafts (recordEventDraftInTx err)"

abbreviation submissionById :: "SubmissionID \<Rightarrow> TaskID \<Rightarrow> db \<Rightarrow> submission_row option" where
  "submissionById i t d \<equiv> rowWhere (\<lambda>r. sb_id r = i \<and> sb_task r = t) (submissions d)"

definition readSubmission :: "(DomainError \<Rightarrow> 'r) \<Rightarrow> SubmissionID \<Rightarrow> TaskID \<Rightarrow> ('r, submission_row) dbtx" where
  "readSubmission rejected submissionID taskID =
     bindT (queryT (rejected (invalidState ''read submission failed'')) (submissionById submissionID taskID))
     (\<lambda>row. case row of
        None \<Rightarrow> raiseT (rejected (NewDomainError ErrorCodeNotFound ''submission was not found for the task''))
      | Some r \<Rightarrow> retT r)"

text \<open>The accept transaction after its guards: the state changes and the payouts.\<close>

definition acceptAndPay :: "AcceptStoreCommand \<Rightarrow> RewardKind \<Rightarrow> UserID \<Rightarrow> (AcceptResult, PayoutOutcome \<times> TipOutcome) dbtx" where
  "acceptAndPay command rewardKind rawWorkerID =
     bindT (execU (AcceptRejected (conflict ''task already has an accepted submission''))
              (AcceptRejected (invalidState ''accept submission failed''))
              (updateSubmissions (\<lambda>r. sb_id r = ac_submission command)
                 (\<lambda>r. r\<lparr>sb_state := SubmissionStateAccepted, sb_accepted_key := Some (ac_key command)\<rparr>)))
     (\<lambda>_. bindT (execT (AcceptRejected (invalidState ''close task failed''))
              (updateTask (ac_task command) (\<lambda>r. r\<lparr>tk_state := StateClosed\<rparr>)))
     (\<lambda>_. bindT (liftT AcceptRejected (payOutEscrow command rawWorkerID))
     (\<lambda>payout. bindT (liftT AcceptRejected (payOutCollectible (ac_task command) rawWorkerID))
     (\<lambda>collectible. let outcome = combinePayouts payout collectible in
       if outcome = NoPayout \<and> rewardKind \<in> {RewardKindCredit, RewardKindBundle}
       then raiseT (AcceptRejected (conflict ''credit reward fund is missing'')) else
      bindT (orRefuse (applySpendCharge (ac_spend command)) AcceptRejected)
     (\<lambda>_. bindT (liftT AcceptRejected (payCreditTip (ac_task command) (ac_reviewer command) rawWorkerID
              (ac_tip_debit command) (ac_tip_credit command) (ac_key command) (ac_tip command)))
     (\<lambda>tip. bindT (liftT AcceptRejected (payCollectibleTip (ac_reviewer command) rawWorkerID (ac_collectible_tip command)))
     (\<lambda>collectibleTip. retT (outcome, combineTips tip collectibleTip))))))))"

definition AcceptSubmission :: "AcceptStoreCommand \<Rightarrow> env \<Rightarrow> nat \<Rightarrow> db \<Rightarrow> AcceptResult \<times> db" where
  "AcceptSubmission command =
     runT (AcceptRejected (invalidState ''begin accept submission transaction failed''))
     (bindT (liftT AcceptRejected (lockTaskForReview (ac_task command) (ac_reviewer command) ''accept submissions for''))
     (\<lambda>taskRow. bindT (readSubmission AcceptRejected (ac_submission command) (ac_task command))
     (\<lambda>row. if sb_state row = SubmissionStateAccepted then
              if (case sb_accepted_key row of None \<Rightarrow> '''' | Some k \<Rightarrow> k) \<noteq> ac_key command
              then raiseT (AcceptRejected (conflict ''submission was already accepted with a different idempotency key''))
              else idempotentAccept command (sb_user row)
            else if sb_state row \<noteq> SubmissionStateSubmitted
            then raiseT (AcceptRejected (conflict ''only valid submissions can be accepted''))
            else if tl_state taskRow \<noteq> StateOpen
            then raiseT (AcceptRejected (conflict ''only open tasks can accept submissions''))
            else
      bindT (acceptAndPay command (tl_reward_kind taskRow) (sb_user row))
     (\<lambda>(outcome, tipOutcome). bindT (liftT AcceptRejected (parseReviewWorker (sb_user row)))
     (\<lambda>workerID. bindT (liftT AcceptRejected (supersedeCompetingSubmissions (ac_task command) (ac_submission command)
              (dr_actor (ac_draft command))))
     (\<lambda>supersededDrafts. let acceptedDraft = WithRecipients (ac_draft command) [workerID] in
      bindT (liftT AcceptRejected (ReviewEventDrafts acceptedDraft (ac_reviewer command) (ac_task command) outcome tipOutcome))
     (\<lambda>payoutDrafts. let recorded = [acceptedDraft] @ payoutDrafts @ supersededDrafts in
      bindT (recordAll (AcceptRejected (invalidState ''record accept events failed'')) recorded)
     (\<lambda>_. retT (AcceptRejected (invalidState ''commit accept submission transaction failed''),
           SubmissionAccepted (ac_task command) (ac_submission command) workerID outcome tipOutcome
             FirstExecution recorded)))))))))"

section \<open>Requesting changes and rejecting\<close>

definition RequestChanges :: "RequestChangesStoreCommand \<Rightarrow> env \<Rightarrow> nat \<Rightarrow> db \<Rightarrow> RequestChangesResult \<times> db" where
  "RequestChanges command =
     runT (RequestChangesRejected (invalidState ''begin request changes transaction failed''))
     (bindT (liftT RequestChangesRejected (lockTaskForReview (qc_task command) (qc_reviewer command) ''review submissions for''))
     (\<lambda>taskRow. if tl_state taskRow \<noteq> StateOpen
        then raiseT (RequestChangesRejected (conflict ''only open tasks can request submission changes'')) else
      bindT (readSubmission RequestChangesRejected (qc_submission command) (qc_task command))
     (\<lambda>row. bindT (liftT RequestChangesRejected (parseReviewWorker (sb_user row)))
     (\<lambda>workerID.
        if sb_state row = SubmissionStateChangesRequested then
          if (case sb_changes_key row of None \<Rightarrow> '''' | Some k \<Rightarrow> k) = qc_key command
          then raiseT (ChangesRequested (qc_task command) (qc_submission command) workerID
                 (case sb_note row of None \<Rightarrow> '''' | Some note \<Rightarrow> note) IdempotentReplay [])
          else raiseT (RequestChangesRejected (conflict ''changes were already requested with a different idempotency key''))
        else if sb_state row \<noteq> SubmissionStateSubmitted
        then raiseT (RequestChangesRejected (conflict ''only submitted work can receive requested changes''))
        else
      bindT (execT (RequestChangesRejected (invalidState ''request submission changes failed''))
              (updateSubmissions (\<lambda>r. sb_id r = qc_submission command)
                 (\<lambda>r. r\<lparr>sb_state := SubmissionStateChangesRequested, sb_note := Some (qc_note command),
                        sb_reviewed_by := reviewerUserColumn (qc_reviewer command),
                        sb_changes_key := Some (qc_key command)\<rparr>)))
     (\<lambda>_. bindT (execT (RequestChangesRejected (invalidState ''reactivate task reservation failed''))
              (updateReservations (\<lambda>v. rv_task v = qc_task command \<and> rv_assignee v = AssigneeScopeUser
                    \<and> rv_user v = Some (sb_user row) \<and> rv_state v = ReservationStateSubmitted) ReservationStateActive))
     (\<lambda>_. let draft = WithRecipients (qc_draft command) [workerID] in
      bindT (recordEventDraftInTx (RequestChangesRejected (invalidState ''record changes requested event failed'')) draft)
     (\<lambda>_. retT (RequestChangesRejected (invalidState ''commit request changes transaction failed''),
           ChangesRequested (qc_task command) (qc_submission command) workerID (qc_note command)
             FirstExecution [draft]))))))))"

definition rejectFundCommand :: "RejectStoreCommand \<Rightarrow> UserID \<Rightarrow> reviewFundCommand" where
  "rejectFundCommand command rawWorkerID = \<lparr>rf_task = jc_task command, rf_worker = rawWorkerID,
     rf_payout_entry = jc_payout_entry command, rf_refund_entry = '''',
     rf_key = jc_key command, rf_selection = jc_credit command, rf_close = False, rf_missing_is_no_payout = True\<rparr>"

definition banImplementor :: "RejectStoreCommand \<Rightarrow> UserID \<Rightarrow> (RejectResult, unit) dbtx" where
  "banImplementor command rawWorkerID = (case jc_ban command of
     NoBanSelection \<Rightarrow> retT ()
   | BanImplementorSelection \<Rightarrow>
       (case reviewerUserColumn (jc_reviewer command) of
          None \<Rightarrow> raiseT (RejectRejected (invalidArgument ''an organization credential cannot ban an implementor''))
        | Some bannedBy \<Rightarrow> execT (RejectRejected (invalidState ''ban task implementor failed''))
            (insertBan \<lparr>bn_task = jc_task command, bn_assignee = AssigneeScopeUser, bn_key = rawWorkerID,
               bn_user = Some rawWorkerID, bn_team = None, bn_organization = None, bn_banned_by = bannedBy\<rparr>)))"

definition RejectSubmission :: "RejectStoreCommand \<Rightarrow> env \<Rightarrow> nat \<Rightarrow> db \<Rightarrow> RejectResult \<times> db" where
  "RejectSubmission command =
     runT (RejectRejected (invalidState ''begin reject submission transaction failed''))
     (bindT (liftT RejectRejected (lockTaskForReview (jc_task command) (jc_reviewer command) ''review submissions for''))
     (\<lambda>taskRow. if tl_state taskRow \<noteq> StateOpen
        then raiseT (RejectRejected (conflict ''only open tasks can reject submissions'')) else
      bindT (readSubmission RejectRejected (jc_submission command) (jc_task command))
     (\<lambda>row. bindT (liftT RejectRejected (parseReviewWorker (sb_user row)))
     (\<lambda>workerID.
        if sb_state row = SubmissionStateRejected then
          if (case sb_review_key row of None \<Rightarrow> '''' | Some k \<Rightarrow> k) = jc_key command
          then raiseT (SubmissionRejected (jc_task command) (jc_submission command) workerID NoPayout NoTip IdempotentReplay [])
          else raiseT (RejectRejected (conflict ''submission was already rejected with a different idempotency key''))
        else if sb_state row \<noteq> SubmissionStateSubmitted
        then raiseT (RejectRejected (conflict ''only submitted work can be rejected''))
        else
      bindT (liftT RejectRejected (payReviewFund (rejectFundCommand command (sb_user row))))
     (\<lambda>payout. bindT (orRefuse (applySpendCharge (jc_spend command)) RejectRejected)
     (\<lambda>_. bindT (liftT RejectRejected (payCreditTip (jc_task command) (jc_reviewer command) (sb_user row)
              (jc_tip_debit command) (jc_tip_credit command) (jc_key command) (jc_tip command)))
     (\<lambda>tip. bindT (execT (RejectRejected (invalidState ''reject submission failed''))
              (updateSubmissions (\<lambda>r. sb_id r = jc_submission command)
                 (\<lambda>r. r\<lparr>sb_state := SubmissionStateRejected, sb_note := Some (jc_note command),
                        sb_reviewed_by := reviewerUserColumn (jc_reviewer command),
                        sb_review_key := Some (jc_key command)\<rparr>)))
     (\<lambda>_. bindT (execT (RejectRejected (invalidState ''release rejected reservation failed''))
              (updateReservations (\<lambda>v. held_reservation (jc_task command) v \<and> rv_assignee v = AssigneeScopeUser
                    \<and> rv_user v = Some (sb_user row)) ReservationStateCancelledByRequester))
     (\<lambda>_. bindT (banImplementor command (sb_user row))
     (\<lambda>_. let rejectedDraft = WithRecipients (jc_draft command) [workerID] in
      bindT (liftT RejectRejected (ReviewEventDrafts rejectedDraft (jc_reviewer command) (jc_task command) payout tip))
     (\<lambda>payoutDrafts. let recorded = [rejectedDraft] @ payoutDrafts in
      bindT (recordAll (RejectRejected (invalidState ''record reject events failed'')) recorded)
     (\<lambda>_. retT (RejectRejected (invalidState ''commit reject submission transaction failed''),
           SubmissionRejected (jc_task command) (jc_submission command) workerID payout tip
             FirstExecution recorded)))))))))))))"

section \<open>Refunding a task\<close>

definition replayOrRejectRefund :: "RefundStoreCommand \<Rightarrow> bool \<Rightarrow> (RefundResult, 'a) dbtx" where
  "replayOrRejectRefund command keyExists =
     (if \<not> keyExists then raiseT (RefundRejected (invalidState ''task has nothing to refund'')) else
      bindT (queryT (RefundRejected (invalidState ''read task refund failed''))
        (\<lambda>d. rowWhere (\<lambda>r. le_task r = Some (uc_task command) \<and> le_kind r = EntryKindTaskRefund
               \<and> le_key r = Some (uc_key command)) (ledger_entries d)))
      (\<lambda>row. case row of
         None \<Rightarrow> raiseT (RefundRejected (invalidState ''idempotency key was used for a different command''))
       | Some r \<Rightarrow> bindT (liftT RefundRejected (buildFund (uc_task command) (le_account r) (le_amount r)))
           (\<lambda>fund. raiseT (TaskRefunded fund IdempotentReplay []))))"

text \<open>The refund of a funded task, once its fund row is read.\<close>

definition refundFund :: "RefundStoreCommand \<Rightarrow> bool \<Rightarrow> fund_row \<Rightarrow> (RefundResult, RefundResult \<times> RefundResult) dbtx" where
  "refundFund command keyOnTask f =
     bindT (if keyOnTask then retT True
            else queryT (RefundRejected (invalidState ''check refund idempotency failed''))
              (\<lambda>d. \<exists>r \<in> set (ledger_entries d). le_key r = Some (uc_key command) \<and> le_account r = tf_account f))
     (\<lambda>keyExists. if keyExists
        then raiseT (RefundRejected (invalidState ''idempotency key was used for a different command'')) else
      bindT (liftT RefundRejected (buildFund (uc_task command) (tf_account f) (tf_amount f)))
     (\<lambda>fund. bindT (execT (RefundRejected (invalidState ''insert task refund ledger entry failed''))
        (insertLedger \<lparr>le_id = uc_entry command, le_account = tf_account f, le_kind = EntryKindTaskRefund,
           le_amount = tf_amount f, le_task = Some (uc_task command), le_key = Some (uc_key command), le_note = None\<rparr>))
     (\<lambda>_. bindT (execT (RefundRejected (invalidState ''clear task fund failed'')) (deleteFund (uc_task command)))
     (\<lambda>_. bindT (liftT RefundRejected (refundHeldCollectibleReward (uc_task command)))
     (\<lambda>_. bindT (execT (RefundRejected (invalidState ''cancel task failed''))
             (updateTask (uc_task command) (\<lambda>r. r\<lparr>tk_state := StateCancelled\<rparr>)))
     (\<lambda>_. bindT (liftT RefundRejected (lockedReservationHolders (uc_task command)))
     (\<lambda>holders. bindT (liftT RefundRejected (releaseReservationsOnCancel (uc_task command)))
     (\<lambda>_. let draft = WithRecipients (uc_draft command) holders in
      bindT (recordEventDraftInTx (RefundRejected (invalidState ''record task refund event failed'')) draft)
     (\<lambda>_. retT (RefundRejected (invalidState ''commit refund task transaction failed''),
            TaskRefunded fund FirstExecution [draft]))))))))))"

definition RefundTask :: "RefundStoreCommand \<Rightarrow> env \<Rightarrow> nat \<Rightarrow> db \<Rightarrow> RefundResult \<times> db" where
  "RefundTask command =
     runT (RefundRejected (invalidState ''begin refund task transaction failed''))
     (bindT (liftT RefundRejected (lockTaskRefundable (uc_task command) (uc_requester command)))
     (\<lambda>_. bindT (queryT (RefundRejected (invalidState ''check refund idempotency failed''))
        (\<lambda>d. \<exists>r \<in> set (ledger_entries d). le_key r = Some (uc_key command) \<and> le_task r = Some (uc_task command)))
     (\<lambda>keyOnTask. bindT (queryT (RefundRejected (invalidState ''read task fund failed''))
        (\<lambda>d. rowWhere (\<lambda>r. tf_task r = uc_task command) (task_funds d)))
     (\<lambda>row. case row of
        None \<Rightarrow> replayOrRejectRefund command keyOnTask
      | Some f \<Rightarrow> refundFund command keyOnTask f))))"

section \<open>Grants\<close>

definition grantRecipients :: "GrantTarget \<Rightarrow> (DomainError, UserID list) dbtx" where
  "grantRecipients target = (case target of
     GrantToUser u \<Rightarrow> retT [u]
   | GrantToOrganization organization \<Rightarrow>
       scanT (invalidState ''read credit grant recipients failed'') (invalidState ''scan credit grant recipient failed'')
         (invalidState ''read credit grant recipients failed'')
         (\<lambda>d. remdups (map mb_user (filter (\<lambda>m. mb_organization m = organization \<and> mb_status m = MembershipStatusActive
                \<and> (\<exists>r \<in> set (mb_roles m). r \<in> {''owner'', ''admin'', ''billing''})) (organization_memberships d))))
         (parseT ParseUserID))"

text \<open>The entry of the grant: the recorded one on a replay, a new one otherwise.\<close>

definition grantEntry :: "GrantStoreCommand \<Rightarrow> CreditAccountID \<Rightarrow> ledger_row option \<Rightarrow> (GrantResult, LedgerEntryID) dbtx" where
  "grantEntry command account existing = (case existing of
     Some r \<Rightarrow>
       if le_kind r \<noteq> EntryKindManualAdjustment \<or> le_amount r \<noteq> gc_amount command
       then raiseT (GrantRejected (invalidState ''idempotency key was used for a different command''))
       else liftT GrantRejected (parseT ParseLedgerEntryID (le_id r))
   | None \<Rightarrow>
       bindT (execT (GrantRejected (invalidState ''insert credit grant ledger entry failed''))
         (insertLedger \<lparr>le_id = gc_entry command, le_account = account, le_kind = EntryKindManualAdjustment,
            le_amount = gc_amount command, le_task = None, le_key = Some (gc_key command),
            le_note = Some (gc_note command)\<rparr>))
       (\<lambda>_. retT (gc_entry command)))"

definition lockGrantAccount :: "GrantTarget \<Rightarrow> (DomainError, CreditAccountID \<times> CreditAccountID) dbtx" where
  "lockGrantAccount target = (case target of
     GrantToUser u \<Rightarrow> lockUserAccount u | GrantToOrganization i \<Rightarrow> lockOrganizationAccount i)"

definition GrantCredits :: "GrantStoreCommand \<Rightarrow> env \<Rightarrow> nat \<Rightarrow> db \<Rightarrow> GrantResult \<times> db" where
  "GrantCredits command =
     runT (GrantRejected (invalidState ''begin credit grant transaction failed''))
     (bindT (liftT GrantRejected (lockGrantAccount (gc_target command)))
     (\<lambda>account. bindT (queryT (GrantRejected (invalidState ''check credit grant idempotency failed''))
              (entryForKey (gc_key command) (fst account)))
     (\<lambda>existing. bindT (grantEntry command (fst account) existing)
     (\<lambda>entryID. bindT (liftT GrantRejected (grantRecipients (gc_target command)))
     (\<lambda>recipients. let commitErr = GrantRejected (invalidState ''commit credit grant transaction failed'') in
        case existing of
          Some _ \<Rightarrow> retT (commitErr, CreditsGranted entryID (gc_amount command) recipients IdempotentReplay [])
        | None \<Rightarrow>
            let draft = WithRecipients (gc_draft command) recipients in
            bindT (recordEventDraftInTx (GrantRejected (invalidState ''record credit grant event failed'')) draft)
            (\<lambda>_. retT (commitErr, CreditsGranted entryID (gc_amount command) recipients FirstExecution [draft])))))))"

section \<open>Peer transfers\<close>

datatype transferAccountRef = refUser UserID | refOrganization OrganizationID

fun refKey :: "transferAccountRef \<Rightarrow> string" where
  "refKey (refUser u) = ''user:'' @ u"
| "refKey (refOrganization i) = ''organization:'' @ i"

fun transferSourceRef :: "TransferSource \<Rightarrow> UserID \<Rightarrow> transferAccountRef" where
  "transferSourceRef TransferFromSelf actor = refUser actor"
| "transferSourceRef (TransferFromOrganization i) actor = refOrganization i"

fun transferTargetRef :: "TransferTarget \<Rightarrow> transferAccountRef" where
  "transferTargetRef (TransferToUser u) = refUser u"
| "transferTargetRef (TransferToOrganization i) = refOrganization i"

fun lockTransferAccount :: "transferAccountRef \<Rightarrow> (DomainError, CreditAccountID \<times> CreditAccountID) dbtx" where
  "lockTransferAccount (refUser u) = lockUserAccount u"
| "lockTransferAccount (refOrganization i) = lockOrganizationAccount i"

definition transferReceivers :: "TransferTarget \<Rightarrow> (DomainError, UserID list) dbtx" where
  "transferReceivers target = (case target of
     TransferToUser u \<Rightarrow> retT [u]
   | TransferToOrganization i \<Rightarrow> grantRecipients (GrantToOrganization i))"

text \<open>Both accounts, locked in the order of their keys; the source comes first in the result.\<close>

definition lockBoth :: "transferAccountRef \<Rightarrow> transferAccountRef \<Rightarrow> (DomainError, CreditAccountID \<times> CreditAccountID) dbtx" where
  "lockBoth source target =
     (if refKey target < refKey source
      then bindT (lockTransferAccount target) (\<lambda>t. bindT (lockTransferAccount source) (\<lambda>s. retT (fst s, fst t)))
      else bindT (lockTransferAccount source) (\<lambda>s. bindT (lockTransferAccount target) (\<lambda>t. retT (fst s, fst t))))"

definition requireBilling :: "PeerTransferStoreCommand \<Rightarrow> (SendResult, unit) dbtx" where
  "requireBilling command = (case pc_source command of
     TransferFromSelf \<Rightarrow> retT ()
   | TransferFromOrganization i \<Rightarrow>
       bindT (organizationMemberPermission i (pc_actor command) PermissionManageBilling)
       (\<lambda>check. if check = PermissionGranted then retT ()
          else raiseT (SendRejected (NewDomainError ErrorCodePermissionDenied
                 ''sending organization credits requires the billing permission''))))"

definition sendFresh :: "PeerTransferStoreCommand \<Rightarrow> CreditAccountID \<Rightarrow> CreditAccountID \<Rightarrow> UserID list \<Rightarrow>
    (SendResult, SendResult \<times> SendResult) dbtx" where
  "sendFresh command sourceAccount targetAccount receivers =
     bindT (readSpendable (SendRejected (invalidState ''read sender balance failed'')) sourceAccount)
     (\<lambda>spendable. if spendable < pc_amount command
        then raiseT (SendRejected (invalidArgument ''insufficient credits to send'')) else
      bindT (orRefuse (applyPeerTransferVelocity sourceAccount (pc_amount command)) SendRejected)
     (\<lambda>_. bindT (orRefuse (applySpendCharge (pc_spend command)) SendRejected)
     (\<lambda>_. let noteText = (case pc_note command of NoTransferNote \<Rightarrow> '''' | TransferNoteProvided note \<Rightarrow> note) in
      bindT (execT (SendRejected (invalidState ''insert peer transfer debit failed''))
        (insertLedger \<lparr>le_id = pc_debit command, le_account = sourceAccount, le_kind = EntryKindPeerTransfer,
           le_amount = - pc_amount command, le_task = None, le_key = Some (pc_key command @ '':send-debit''),
           le_note = Some noteText\<rparr>))
     (\<lambda>_. bindT (execT (SendRejected (invalidState ''insert peer transfer credit failed''))
        (insertLedger \<lparr>le_id = pc_credit command, le_account = targetAccount, le_kind = EntryKindPeerTransfer,
           le_amount = pc_amount command, le_task = None, le_key = Some (pc_key command @ '':send-credit''),
           le_note = Some noteText\<rparr>))
     (\<lambda>_. let draft = WithRecipients (pc_draft command) receivers in
      bindT (recordEventDraftInTx (SendRejected (invalidState ''record credits sent event failed'')) draft)
     (\<lambda>_. retT (SendRejected (invalidState ''commit peer transfer transaction failed''),
           CreditsSent (pc_debit command) (pc_amount command) receivers FirstExecution [draft])))))))"

definition transferTx :: "PeerTransferStoreCommand \<Rightarrow> transferAccountRef \<Rightarrow> transferAccountRef \<Rightarrow>
    (SendResult, SendResult \<times> SendResult) dbtx" where
  "transferTx command source target =
     bindT (requireBilling command)
     (\<lambda>_. bindT (liftT SendRejected (lockBoth source target))
     (\<lambda>(sourceAccount, targetAccount). bindT (liftT SendRejected (transferReceivers (pc_target command)))
     (\<lambda>receivers. bindT (queryT (SendRejected (invalidState ''check peer transfer idempotency failed''))
              (entryForKey (pc_key command @ '':send-debit'') sourceAccount))
     (\<lambda>existing. case existing of
        Some r \<Rightarrow>
          if le_kind r \<noteq> EntryKindPeerTransfer \<or> le_amount r \<noteq> - pc_amount command
          then raiseT (SendRejected (invalidState ''idempotency key was used for a different command''))
          else bindT (liftT SendRejected (parseT ParseLedgerEntryID (le_id r)))
            (\<lambda>parsed. retT (SendRejected (invalidState ''commit peer transfer replay failed''),
                CreditsSent parsed (pc_amount command) receivers IdempotentReplay []))
      | None \<Rightarrow> sendFresh command sourceAccount targetAccount receivers))))"

definition PeerTransfer :: "PeerTransferStoreCommand \<Rightarrow> env \<Rightarrow> nat \<Rightarrow> db \<Rightarrow> SendResult \<times> db" where
  "PeerTransfer command e n d =
     (let source = transferSourceRef (pc_source command) (pc_actor command);
          target = transferTargetRef (pc_target command) in
      if refKey source = refKey target
      then (SendRejected (invalidArgument ''credits cannot be sent to the sending account''), d)
      else runT (SendRejected (invalidState ''begin peer transfer transaction failed''))
             (transferTx command source target) e n d)"

section \<open>Reading balances\<close>

definition ownAccount :: "(account_row \<Rightarrow> bool) \<Rightarrow> db \<Rightarrow> CreditAccountID \<Rightarrow> bool" where
  "ownAccount p d a \<longleftrightarrow> (\<exists>r \<in> set (credit_accounts d). ca_id r = a \<and> p r)"

definition readBalance :: "string \<Rightarrow> (account_row \<Rightarrow> bool) \<Rightarrow> env \<Rightarrow> nat \<Rightarrow> db \<Rightarrow> Balance result" where
  "readBalance failure p e n d =
     (let s = sumOf le_amount (filter (\<lambda>r. ownAccount p d (le_account r)) (ledger_entries d));
          a = sumOf tf_amount (filter (\<lambda>r. ownAccount p d (tf_account r)) (task_funds d)) in
      if fault e n \<or> \<not> int64 s \<or> \<not> int64 a then Inl (invalidState failure)
      else Inr \<lparr>spendable = s, allocated = a\<rparr>)"

definition BalanceOf :: "UserID \<Rightarrow> env \<Rightarrow> nat \<Rightarrow> db \<Rightarrow> Balance result" where
  "BalanceOf owner = readBalance ''read balance failed'' (\<lambda>r. ca_user r = Some owner)"

definition OrganizationBalance :: "OrganizationID \<Rightarrow> env \<Rightarrow> nat \<Rightarrow> db \<Rightarrow> Balance result" where
  "OrganizationBalance i = readBalance ''read organization balance failed'' (\<lambda>r. ca_organization r = Some i)"

definition TaskAllocatedCredits :: "TaskID \<Rightarrow> env \<Rightarrow> nat \<Rightarrow> db \<Rightarrow> int result" where
  "TaskAllocatedCredits taskID e n d =
     (if fault e n then Inl (invalidState ''read task allocated credits failed'')
      else Inr (case rowWhere (\<lambda>r. tf_task r = taskID) (task_funds d) of None \<Rightarrow> 0 | Some f \<Rightarrow> tf_amount f))"

end
