(* ===== verification/TxLogic.thy ===== *)
theory TxLogic
  imports LedgerStore
begin

text \<open>
  How an invariant of the tables is carried through transactions.  The locale
  \<open>tx_invariant\<close> is the contract an invariant offers: a predicate \<open>I\<close> on tables and
  a step relation \<open>R\<close> between them that is reflexive on \<open>I\<close>, transitive, ends in
  \<open>I\<close>, and does not see counters and events.  Everything the stores compose their
  transactions of, and the methods around them, then keeps the invariant as soon
  as the statements that write do.
\<close>

named_theorems safe_rules "composition of transaction bodies that keep an invariant"

declare TrueI [safe_rules]

definition quietly :: "(db \<Rightarrow> db) \<Rightarrow> bool" where
  "quietly g \<longleftrightarrow> (\<forall>d. books (g d) = books d)"

lemma quietly_id [simp]: "quietly id"
  by (simp add: quietly_def)

text \<open>
  \<open>keeps I R e Q m\<close>: from tables in \<open>I\<close>, \<open>m\<close> goes on with a value that satisfies \<open>Q\<close>
  and tables related by \<open>R\<close>, or returns early having written nothing but a
  refusal count outside the transaction.
\<close>

definition keeps :: "(db \<Rightarrow> bool) \<Rightarrow> (db \<Rightarrow> db \<Rightarrow> bool) \<Rightarrow> env \<Rightarrow> ('a \<Rightarrow> bool) \<Rightarrow> ('r, 'a) dbtx \<Rightarrow> bool" where
  "keeps I R e Q m \<longleftrightarrow> (\<forall>d. I d \<longrightarrow> wp e m (\<lambda>a d'. R d d' \<and> Q a) (\<lambda>_. quietly) d)"

lemma keepsI: "(\<And>d. I d \<Longrightarrow> wp e m (\<lambda>a d'. R d d' \<and> Q a) (\<lambda>_. quietly) d) \<Longrightarrow> keeps I R e Q m"
  by (simp add: keeps_def)

lemma keeps_mono: "\<lbrakk>keeps I R e Q m; \<And>a. Q a \<Longrightarrow> Q' a\<rbrakk> \<Longrightarrow> keeps I R e Q' m"
  by (auto simp: keeps_def elim!: wp_mono)

text \<open>Helpers that only read: the tables they go on with are the tables they found.\<close>

definition reads :: "env \<Rightarrow> ('r, 'a) dbtx \<Rightarrow> bool" where
  "reads e m \<longleftrightarrow> (\<forall>d. wp e m (\<lambda>_ d'. d' = d) (\<lambda>_ g. g = id) d)"

named_theorems reads_rules "helpers that only read"

lemma readsI: "(\<And>d. wp e m (\<lambda>_ d'. d' = d) (\<lambda>_ g. g = id) d) \<Longrightarrow> reads e m"
  by (simp add: reads_def)

lemma reads_lockTransferAccount [reads_rules]: "reads e (lockTransferAccount r)"
  by (cases r) (auto intro!: readsI wp_rules)

lemma reads_grantRecipients [reads_rules]: "reads e (grantRecipients g)"
  unfolding grantRecipients_def by (cases g) (auto intro!: readsI wp_rules wp_scan)

lemma reads_transferReceivers [reads_rules]: "reads e (transferReceivers g)"
  unfolding transferReceivers_def using reads_grantRecipients
  by (cases g) (auto simp: reads_def intro!: wp_rules)

lemma reads_locks [reads_rules]:
  "reads e (lockUserAccount u)" "reads e (lockOrganizationAccount i)"
  "reads e (lockTaskOwnedBy t u act)" "reads e (lockTaskOwnedByOrganization t i)"
  "reads e (lockTaskForReview t rv act)" "reads e (lockTaskRefundable t u)" "reads e (findFundForKey k t acc)"
  "reads e (requireSharedCollectibleOrganization c u v)"
  by (auto intro!: readsI wp_rules)

lemma reads_values [reads_rules]:
  "reads e (parseT p raw)" "reads e (newT gen)" "reads e (buildFund t acc a)" "reads e (readSpendable err acc)"
  "reads e (ReviewEventDrafts dr rv t p' tp)" "reads e (NewDraft k ac sj m rs)"
  "reads e (organizationMemberPermission i u perm)"
  "reads e (lockCollectible c)" "reads e (findCollectible c)" "reads e (requireEscrowableCollectible c u)"
  "reads e (heldFundCollectibleIDs t)" "reads e (lockedReservationHolders t)" "reads e (parseReviewWorker raw)"
  by (auto intro!: readsI wp_rules simp: parseReviewWorker_def)

lemma reads_query [reads_rules]: "reads e (queryT err f)" "reads e (askT g)"
  by (auto intro!: readsI wp_rules)

section \<open>The contract of a table invariant\<close>

locale tx_invariant =
  fixes I :: "db \<Rightarrow> bool" and R :: "db \<Rightarrow> db \<Rightarrow> bool"
  assumes step_refl: "I d \<Longrightarrow> R d d"
    and step_trans: "\<lbrakk>R d d'; R d' d''\<rbrakk> \<Longrightarrow> R d d''"
    and step_inv: "R d d' \<Longrightarrow> I d'"
    and step_books: "\<lbrakk>I d; books d' = books d\<rbrakk> \<Longrightarrow> R d d'"
begin

lemma keeps_ret [safe_rules]: "Q a \<Longrightarrow> keeps I R e Q (retT a)"
  by (auto intro!: keepsI wp_rules step_refl)

lemma keeps_raise [safe_rules]: "keeps I R e Q (raiseT r)"
  by (auto intro!: keepsI wp_rules)

lemma keeps_wp:
  assumes "keeps I R e Q m" "R d d1"
  shows "wp e m (\<lambda>a d'. R d d' \<and> Q a) (\<lambda>_. quietly) d1"
proof -
  have "wp e m (\<lambda>a d'. R d1 d' \<and> Q a) (\<lambda>_. quietly) d1"
    using assms step_inv by (auto simp: keeps_def)
  then show ?thesis
    by (rule wp_mono) (use assms(2) step_trans in blast)+
qed

lemma keeps_bind [safe_rules]:
  assumes "keeps I R e (\<lambda>_. True) m" "\<And>a. keeps I R e Q (k a)"
  shows "keeps I R e Q (bindT m k)"
proof (intro keepsI wp_bind)
  fix d assume "I d"
  with assms(1) have m: "wp e m (\<lambda>a d'. R d d' \<and> True) (\<lambda>_. quietly) d"
    by (simp add: keeps_def)
  show "wp e m (\<lambda>a s'. wp e (k a) (\<lambda>a d'. R d d' \<and> Q a) (\<lambda>_. quietly) s') (\<lambda>_. quietly) d"
    by (rule wp_mono [OF m]) (use keeps_wp [OF assms(2)] in blast)+
qed

lemma keeps_lift [safe_rules]: "keeps I R e Q m \<Longrightarrow> keeps I R e Q (liftT w m)"
  by (auto simp: keeps_def intro!: wp_lift)

lemma keeps_reads:
  assumes "reads e m" "\<And>a. Q a"
  shows "keeps I R e Q m"
proof (rule keepsI)
  fix d assume "I d"
  from assms(1) have "wp e m (\<lambda>_ d'. d' = d) (\<lambda>_ g. g = id) d" by (simp add: reads_def)
  then show "wp e m (\<lambda>a d'. R d d' \<and> Q a) (\<lambda>_. quietly) d"
    by (rule wp_mono) (use \<open>I d\<close> assms(2) step_refl in auto)
qed

lemmas keeps_readers [safe_rules] = reads_rules [THEN keeps_reads]

lemma keeps_exec:
  "\<lbrakk>\<And>d d'. \<lbrakk>I d; f d = Some d'\<rbrakk> \<Longrightarrow> R d d'; Q ()\<rbrakk> \<Longrightarrow> keeps I R e Q (execT err f)"
  by (auto intro!: keepsI wp_rules)

lemma keeps_execU:
  "\<lbrakk>\<And>d d'. \<lbrakk>I d; f d = Some d'\<rbrakk> \<Longrightarrow> R d d'; Q ()\<rbrakk> \<Longrightarrow> keeps I R e Q (execU v err f)"
  by (auto intro!: keepsI wp_rules)

lemma keeps_count:
  "\<lbrakk>\<And>d d'. \<lbrakk>I d; f d = Some d'\<rbrakk> \<Longrightarrow> R d d'; \<And>k. Q k\<rbrakk> \<Longrightarrow> keeps I R e Q (countT err c f)"
  by (auto intro!: keepsI wp_rules)

lemma keeps_if [safe_rules]: "\<lbrakk>keeps I R e Q m; keeps I R e Q m'\<rbrakk> \<Longrightarrow> keeps I R e Q (if b then m else m')"
  by simp

lemma keeps_let [safe_rules]: "keeps I R e Q (k v) \<Longrightarrow> keeps I R e Q (let x = v in k x)"
  by simp

lemma keeps_case_option [safe_rules]:
  "\<lbrakk>keeps I R e Q m; \<And>a. keeps I R e Q (k a)\<rbrakk> \<Longrightarrow> keeps I R e Q (case x of None \<Rightarrow> m | Some a \<Rightarrow> k a)"
  by (cases x) simp_all

lemma keeps_case_sum [safe_rules]:
  "\<lbrakk>\<And>a. keeps I R e Q (m a); \<And>a. keeps I R e Q (k a)\<rbrakk> \<Longrightarrow> keeps I R e Q (case x of Inl a \<Rightarrow> m a | Inr a \<Rightarrow> k a)"
  by (cases x) simp_all

lemma keeps_case_prod [safe_rules]:
  "(\<And>a b. keeps I R e Q (k a b)) \<Longrightarrow> keeps I R e Q (case x of (a, b) \<Rightarrow> k a b)"
  by (cases x) simp

lemma keeps_case_RewardCheck [safe_rules]:
  "\<lbrakk>keeps I R e Q m; \<And>r. keeps I R e Q (k r)\<rbrakk>
    \<Longrightarrow> keeps I R e Q (case x of RewardAllowed \<Rightarrow> m | RewardDenied r \<Rightarrow> k r)"
  by (cases x) simp_all

lemma keeps_case_Plan [safe_rules]:
  "\<lbrakk>keeps I R e Q m; \<And>r. keeps I R e Q (k r)\<rbrakk> \<Longrightarrow> keeps I R e Q (case x of NoEvent \<Rightarrow> m | Record r \<Rightarrow> k r)"
  by (cases x) simp_all

lemma keeps_for [safe_rules]:
  assumes "\<And>x. keeps I R e (\<lambda>_. True) (body x)" "Q ()"
  shows "keeps I R e Q (forT xs body)"
  by (induction xs) (auto intro!: safe_rules assms)

lemma keeps_map [safe_rules]:
  assumes "\<And>x. keeps I R e (\<lambda>_. True) (f x)" "\<And>ys. Q ys"
  shows "keeps I R e Q (mapT xs f)"
  using assms(2) by (induction xs arbitrary: Q) (auto intro!: safe_rules assms(1))

lemma keeps_scan [safe_rules]:
  assumes "\<And>r. keeps I R e (\<lambda>_. True) (p r)" "\<And>vs. Q vs"
  shows "keeps I R e Q (scanT a b c rows p)"
  unfolding scanT_def by (intro safe_rules assms)

lemma keeps_record [safe_rules]: "Q () \<Longrightarrow> keeps I R e Q (recordEventDraftInTx err dr)"
  by (auto intro!: keepsI wp_rules step_books)

lemma keeps_recordAll [safe_rules]: "Q () \<Longrightarrow> keeps I R e Q (recordAll err drs)"
  unfolding recordAll_def by (intro safe_rules)

lemma keeps_charges [safe_rules]:
  assumes "Q ()"
  shows "keeps I R e Q (orRefuse (applySpendCharge c) rej)"
    "keeps I R e Q (orRefuse (applyPeerTransferVelocity acc a) rej)"
  by (auto intro!: keepsI wp_orRefuse wp_rules step_books assms simp: quietly_def)

lemma keeps_requireBilling [safe_rules]: "Q () \<Longrightarrow> keeps I R e Q (requireBilling c)"
  unfolding requireBilling_def by (cases "pc_source c") (auto intro!: safe_rules)

lemma keeps_lockBoth [safe_rules]: "(\<And>a. Q a) \<Longrightarrow> keeps I R e Q (lockBoth s t)"
  unfolding lockBoth_def by (intro safe_rules)

lemma keeps_readSubmission [safe_rules]: "(\<And>a. Q a) \<Longrightarrow> keeps I R e Q (readSubmission rej i t)"
  unfolding readSubmission_def by (intro safe_rules)

lemma keeps_replays [safe_rules]:
  "keeps I R e Q (idempotentAccept c w)" "keeps I R e Q' (replayOrRejectRefund c' b)"
  unfolding idempotentAccept_def replayOrRejectRefund_def by (intro safe_rules)+

lemma keeps_read_then:
  assumes "\<And>d. I d \<Longrightarrow> wp e (k (f d)) (\<lambda>a d'. R d d' \<and> Q a) (\<lambda>_. quietly) d"
  shows "keeps I R e Q (bindT (queryT err f) k)"
  by (intro keepsI wp_bind wp_query quietly_id assms)

text \<open>From bodies to methods: success is what the method reports after its commit.\<close>

lemma keeps_run:
  assumes run: "runT b body e n d = (r, d')" and ok: "I d"
    and body: "keeps I R e (\<lambda>(c, v). \<not> success c \<and> success v) body" and b: "\<not> success b"
  shows "R d d' \<and> (\<not> success r \<longrightarrow> books d' = books d)"
proof (rule runT_rule [OF run, where P = "\<lambda>r d'. R d d' \<and> (\<not> success r \<longrightarrow> books d' = books d)"])
  from body ok have "wp e body (\<lambda>a d'. R d d' \<and> (case a of (c, v) \<Rightarrow> \<not> success c \<and> success v)) (\<lambda>_. quietly) d"
    by (simp add: keeps_def)
  then show "wp e body
     (\<lambda>(cerr, v) t. (R d d \<and> (\<not> success cerr \<longrightarrow> books d = books d)) \<and>
                     (R d t \<and> (\<not> success v \<longrightarrow> books t = books d)))
     (\<lambda>v g. R d (g d) \<and> (\<not> success v \<longrightarrow> books (g d) = books d)) d"
    by (rule wp_mono) (auto simp: quietly_def step_refl ok step_books)
  show "R d d \<and> (\<not> success b \<longrightarrow> books d = books d)"
    by (simp add: step_refl ok)
qed

end

end
