(* ===== verification/Conservation.thy ===== *)
theory Conservation
  imports TxLogic
begin

text \<open>
  What the ledger's transactions keep: consistent tables, no overdrawn account,
  and the credits of the platform.  A compositional predicate on transaction
  bodies carries the proof through every branch and every database failure.
\<close>

section \<open>Conservation of credits\<close>

definition conserves :: "db \<Rightarrow> db \<Rightarrow> bool" where
  "conserves d d' \<longleftrightarrow> db_ok d' \<and> totalCredits d' = totalCredits d \<and> issued d' = issued d"

lemma conserves_refl: "db_ok d \<Longrightarrow> conserves d d"
  by (simp add: conserves_def)

lemma conserves_trans: "\<lbrakk>conserves d d'; conserves d' d''\<rbrakk> \<Longrightarrow> conserves d d''"
  by (simp add: conserves_def)

lemma conserves_ok: "conserves d d' \<Longrightarrow> db_ok d'"
  by (simp add: conserves_def)

lemma conserves_moves: "moves d d' \<Longrightarrow> conserves d d'"
  by (simp add: moves_def conserves_def)

lemma conserves_books: "\<lbrakk>db_ok d; books d' = books d\<rbrakk> \<Longrightarrow> conserves d d'"
  using credits_books [of d' d] by (simp add: conserves_def)

lemma conserves_same: "\<lbrakk>db_ok d; sameCredits d d'\<rbrakk> \<Longrightarrow> conserves d d'"
  using credits_cong [of d' d] by (simp add: conserves_def sameCredits_def)

lemma conserves_submissions: "\<lbrakk>db_ok d; updateSubmissions p f d = Some d'\<rbrakk> \<Longrightarrow> conserves d d'"
  by (auto simp: updateSubmissions_def Let_def conserves_def db_ok_def funds_ok_def ledger_ok_def solvent_iff
      spendableOf_def totalCredits_def issued_def split: if_splits)

lemma same_updates:
  "updateTask t f d = Some d' \<Longrightarrow> sameCredits d d'"
  "updateReservations p st d = Some d' \<Longrightarrow> sameCredits d d'"
  "insertBan b d = Some d' \<Longrightarrow> sameCredits d d'"
  "updateCollectible c g d = Some d' \<Longrightarrow> sameCredits d d'"
  "deleteHeld t d = Some d' \<Longrightarrow> sameCredits d d'"
  "insertHeld t c d = Some d' \<Longrightarrow> sameCredits d d'"
  "insertReservation row d = Some d' \<Longrightarrow> sameCredits d d'"
  by (auto simp: updateTask_def updateReservations_def insertBan_def updateCollectible_def deleteHeld_def
      insertHeld_def insertReservation_def sameCredits_def Let_def split: if_splits)

section \<open>Conservation as a table invariant\<close>

interpretation credit: tx_invariant db_ok conserves
  by unfold_locales (auto intro: conserves_refl conserves_trans conserves_ok conserves_books)

abbreviation safe :: "env \<Rightarrow> ('a \<Rightarrow> bool) \<Rightarrow> ('r, 'a) dbtx \<Rightarrow> bool" where
  "safe \<equiv> keeps db_ok conserves"

lemma safe_updates [safe_rules]:
  assumes "Q ()"
  shows "safe e Q (execT err (updateTask t f))" "safe e Q (execT err (updateReservations p st))"
    "safe e Q (execT err (insertBan b))" "safe e Q (execT err (updateCollectible c g))"
    "safe e Q (execT err (deleteHeld t))" "safe e Q (execU v err (insertHeld t c))"
    "safe e Q (execT err (updateSubmissions q h))" "safe e Q (execU v err (updateSubmissions q h))"
    "safe e Q (execT err (insertReservation row))"
  using assms by (auto intro!: credit.keeps_exec credit.keeps_execU
      intro: conserves_submissions conserves_same dest: same_updates)

lemma safe_settlements [safe_rules]:
  assumes "Q ()"
  shows "safe e Q (releaseReservationsOnCancel t)" "safe e Q (refundHeldCollectibleReward t)"
    "safe e Q (refundTaskCreditFunding t key)"
  by (auto intro!: keepsI wp_rules assms intro: conserves_refl conserves_same conserves_moves)

lemma safe_payouts [safe_rules]:
  assumes "\<And>out. Q out"
  shows "safe e Q (payReviewFund c)" "safe e Q (payOutCollectible t w)"
  by (auto intro!: keepsI wp_rules assms intro: conserves_moves conserves_same)

lemma safe_tips [safe_rules]:
  assumes "\<And>out. Q out"
  shows "valid_tip sel \<Longrightarrow> safe e Q (payCreditTip t rv w de ce k sel)" "safe e Q (payCollectibleTip rv w csel)"
  by (auto intro!: keepsI wp_rules assms intro: conserves_moves conserves_same)

lemma safe_requireFundableTask [safe_rules]: "Q () \<Longrightarrow> safe e Q (requireFundableTask t row a)"
  unfolding requireFundableTask_def by (intro safe_rules) simp_all

section \<open>From bodies to methods\<close>

lemmas safe_run = credit.keeps_run

fun funded :: "FundResult \<Rightarrow> bool" where
  "funded (TaskFunded _ _ _) = True" | "funded (FundRejected _) = False"

fun accepted :: "AcceptResult \<Rightarrow> bool" where
  "accepted (SubmissionAccepted _ _ _ _ _ _ _) = True" | "accepted (AcceptRejected _) = False"

fun changesRequested :: "RequestChangesResult \<Rightarrow> bool" where
  "changesRequested (ChangesRequested _ _ _ _ _ _) = True" | "changesRequested (RequestChangesRejected _) = False"

fun rejected :: "RejectResult \<Rightarrow> bool" where
  "rejected (SubmissionRejected _ _ _ _ _ _ _) = True" | "rejected (RejectRejected _) = False"

fun refunded :: "RefundResult \<Rightarrow> bool" where
  "refunded (TaskRefunded _ _ _) = True" | "refunded (RefundRejected _) = False"

fun granted :: "GrantResult \<Rightarrow> bool" where
  "granted (CreditsGranted _ _ _ _ _) = True" | "granted (GrantRejected _) = False"

fun sent :: "SendResult \<Rightarrow> bool" where
  "sent (CreditsSent _ _ _ _ _) = True" | "sent (SendRejected _) = False"

lemma safe_completeFunding [safe_rules]:
  "safe e (\<lambda>(c, v). \<not> funded c \<and> funded v) (completeFunding acc t a i k msg dr)"
proof (rule keepsI)
  fix d assume "db_ok d"
  then have "wp e (completeFunding acc t a i k msg dr) (\<lambda>_ d'. conserves d d') (\<lambda>_. quietly) d"
    by (auto intro!: wp_rules conserves_moves)
  moreover have "wp e (completeFunding acc t a i k msg dr) (\<lambda>(c, v) _. \<not> funded c \<and> funded v) (\<lambda>_. quietly) d"
    unfolding completeFunding_def by (intro wp_rules) simp_all
  ultimately show "wp e (completeFunding acc t a i k msg dr)
     (\<lambda>a' d'. conserves d d' \<and> (case a' of (c, v) \<Rightarrow> \<not> funded c \<and> funded v)) (\<lambda>_. quietly) d"
    by (rule wp_mono [OF wp_conj]) (auto split: prod.splits)
qed

lemma FundTask_safe:
  "\<lbrakk>FundTask c e n d = (r, d'); db_ok d\<rbrakk> \<Longrightarrow> conserves d d' \<and> (\<not> funded r \<longrightarrow> books d' = books d)"
  unfolding FundTask_def by (erule safe_run, assumption) (intro safe_rules | simp)+

lemma FundTaskFromOrganization_safe:
  "\<lbrakk>FundTaskFromOrganization c e n d = (r, d'); db_ok d\<rbrakk> \<Longrightarrow> conserves d d' \<and> (\<not> funded r \<longrightarrow> books d' = books d)"
  unfolding FundTaskFromOrganization_def by (erule safe_run, assumption) (intro safe_rules | simp)+

lemma safe_supersede [safe_rules]: "(\<And>a. Q a) \<Longrightarrow> safe e Q (supersedeCompetingSubmissions t s ac)"
  unfolding supersedeCompetingSubmissions_def by (intro safe_rules)

lemma safe_acceptAndPay [safe_rules]:
  "\<lbrakk>valid_tip (ac_tip c); \<And>a. Q a\<rbrakk> \<Longrightarrow> safe e Q (acceptAndPay c k w)"
  unfolding acceptAndPay_def payOutEscrow_def by (intro safe_rules)

lemma AcceptSubmission_safe:
  assumes "AcceptSubmission c e n d = (r, d')" "db_ok d" "valid_tip (ac_tip c)"
  shows "conserves d d' \<and> (\<not> accepted r \<longrightarrow> books d' = books d)"
  using assms(1,2) unfolding AcceptSubmission_def by (rule safe_run) (intro safe_rules assms(3) | simp)+

lemma RequestChanges_safe:
  "\<lbrakk>RequestChanges c e n d = (r, d'); db_ok d\<rbrakk> \<Longrightarrow> conserves d d' \<and> (\<not> changesRequested r \<longrightarrow> books d' = books d)"
  unfolding RequestChanges_def by (erule safe_run, assumption) (intro safe_rules | simp)+

lemma safe_ban [safe_rules]: "Q () \<Longrightarrow> safe e Q (banImplementor c w)"
  unfolding banImplementor_def by (cases "jc_ban c") (auto intro!: safe_rules)

lemma RejectSubmission_safe:
  assumes "RejectSubmission c e n d = (r, d')" "db_ok d" "valid_tip (jc_tip c)"
  shows "conserves d d' \<and> (\<not> rejected r \<longrightarrow> books d' = books d)"
  using assms(1,2) unfolding RejectSubmission_def by (rule safe_run) (intro safe_rules assms(3) | simp)+

lemma refundFund_conserves:
  assumes ok: "db_ok d" and fund: "rowWhere (\<lambda>r. tf_task r = uc_task c) (task_funds d) = Some f"
  shows "wp e (refundFund c b f) (\<lambda>a d'. conserves d d' \<and> (case a of (x, v) \<Rightarrow> \<not> refunded x \<and> refunded v)) (\<lambda>_. quietly) d"
proof -
  define tail where "tail fund = bindT (liftT RefundRejected (refundHeldCollectibleReward (uc_task c)))
     (\<lambda>_. bindT (execT (RefundRejected (invalidState ''cancel task failed''))
             (updateTask (uc_task c) (\<lambda>r. r\<lparr>tk_state := StateCancelled\<rparr>)))
     (\<lambda>_. bindT (liftT RefundRejected (lockedReservationHolders (uc_task c)))
     (\<lambda>holders. bindT (liftT RefundRejected (releaseReservationsOnCancel (uc_task c)))
     (\<lambda>_. let draft = WithRecipients (uc_draft c) holders in
      bindT (recordEventDraftInTx (RefundRejected (invalidState ''record task refund event failed'')) draft)
     (\<lambda>_. retT (RefundRejected (invalidState ''commit refund task transaction failed''),
            TaskRefunded fund FirstExecution [draft]))))))" for fund
  have tail: "safe e (\<lambda>(x, v). \<not> refunded x \<and> refunded v) (tail fund)" for fund
    unfolding tail_def by (intro safe_rules | simp)+
  show ?thesis
    unfolding refundFund_def tail_def [symmetric]
    by (intro wp_rules quietly_id credit.keeps_wp [OF tail] conserves_moves refund_moves [OF ok fund])
       (auto simp: grant_kind_def)
qed

lemma RefundTask_safe:
  "\<lbrakk>RefundTask c e n d = (r, d'); db_ok d\<rbrakk> \<Longrightarrow> conserves d d' \<and> (\<not> refunded r \<longrightarrow> books d' = books d)"
  unfolding RefundTask_def
proof (erule safe_run, assumption, rule credit.keeps_bind, goal_cases)
  case 2
  show ?case
  proof (rule credit.keeps_bind, goal_cases)
    case (2 b)
    show ?case
    proof (rule credit.keeps_read_then, rule wp_case_option, goal_cases)
      case (1 d)
      show ?case by (rule credit.keeps_wp) (intro safe_rules conserves_refl 1)+
    qed (rule refundFund_conserves)
  qed (intro safe_rules)
qed (intro safe_rules | simp)+

lemma wp_grantRecipients [wp_rules]:
  "\<lbrakk>\<And>us. Q us d; \<And>r. E r id\<rbrakk> \<Longrightarrow> wp e (grantRecipients g) Q E d"
  unfolding grantRecipients_def by (cases g) (auto intro!: wp_rules wp_scan)

section \<open>Peer transfers\<close>

lemma sendFresh_conserves:
  assumes ok: "db_ok d" and pos: "0 < pc_amount c"
  shows "wp e (sendFresh c sa ta rs) (\<lambda>a d'. conserves d d' \<and> (case a of (x, v) \<Rightarrow> \<not> sent x \<and> sent v)) (\<lambda>_. quietly) d"
  unfolding sendFresh_def Let_def
proof (intro wp_bind wp_readSpendable wp_if wp_raise quietly_id, rule wp_orRefuse, rule wp_applyPeerTransferVelocity,
    rule wp_bind, rule wp_orRefuse, rule wp_applySpendCharge, goal_cases)
  case (1 d1 d2)
  then have eq: "books d2 = books d" by simp
  from ok have ok2: "db_ok d2" and sp: "spendableOf d2 = spendableOf d"
    using credits_books [OF eq] by auto
  have "conserves d d'" if "moves d2 d3" "books d' = books d3" for d3 d'
    using conserves_books [OF ok eq] conserves_moves [OF moves_books [OF that]] by (rule conserves_trans)
  note post = this
  show ?case
    by (intro wp_rules quietly_id post conjI, rule transfer_moves [OF ok2])
       (use 1 pos in \<open>auto simp: sp grant_kind_def\<close>)
qed (auto simp: quietly_def)

lemma PeerTransfer_safe:
  assumes run: "PeerTransfer c e n d = (r, d')" and ok: "db_ok d" and pos: "0 < pc_amount c"
  shows "conserves d d' \<and> (\<not> sent r \<longrightarrow> books d' = books d)"
proof (cases "refKey (transferSourceRef (pc_source c) (pc_actor c)) = refKey (transferTargetRef (pc_target c))")
  case True
  with run ok show ?thesis by (auto simp: PeerTransfer_def conserves_refl)
next
  case False
  have fresh: "safe e (\<lambda>(x, v). \<not> sent x \<and> sent v) (sendFresh c sa ta rs)" for sa ta rs
    by (rule keepsI, rule sendFresh_conserves [OF _ pos])
  have tx: "safe e (\<lambda>(x, v). \<not> sent x \<and> sent v) (transferTx c s t)" for s t
    unfolding transferTx_def by (intro safe_rules fresh | simp)+
  from False run show ?thesis
    unfolding PeerTransfer_def Let_def by (simp only: if_False) (erule safe_run [OF _ ok tx], simp)
qed

section \<open>Grants\<close>

lemma grant_entry:
  assumes "insertLedger row d = Some d1" "grant_kind (le_kind row)" "0 < le_amount row" "db_ok d" "books d' = books d1"
  shows "db_ok d' \<and> totalCredits d' = totalCredits d + le_amount row \<and> issued d' = issued d + le_amount row"
proof -
  have "0 \<le> spendableOf d1 a" for a
    using assms(3,4) ledger_insert_facts(1) [OF assms(1), of a] by (auto simp: db_ok_def solvent_iff)
  then show ?thesis
    using assms ledger_insert_facts(2-) [OF assms(1)] credits_books [OF assms(5)]
    by (simp add: db_ok_def solvent_iff)
qed

definition grantPost :: "GrantStoreCommand \<Rightarrow> db \<Rightarrow> GrantResult \<Rightarrow> db \<Rightarrow> bool" where
  "grantPost c d r d' = (case r of
     CreditsGranted i a us FirstExecution drs \<Rightarrow>
       a = gc_amount c \<and> db_ok d' \<and> totalCredits d' = totalCredits d + a \<and> issued d' = issued d + a
   | _ \<Rightarrow> books d' = books d)"

lemma wp_lockGrantAccount [wp_rules]:
  "\<lbrakk>\<And>a. Q a d; \<And>r. E r id\<rbrakk> \<Longrightarrow> wp e (lockGrantAccount g) Q E d"
  unfolding lockGrantAccount_def by (cases g) (auto intro!: wp_rules)

lemma wp_grantEntry [wp_rules]:
  assumes "\<And>r i. x = Some r \<Longrightarrow> Q i d"
    and "\<And>row d'. \<lbrakk>x = None; insertLedger row d = Some d'; le_kind row = EntryKindManualAdjustment;
            le_amount row = gc_amount c; le_account row = acc\<rbrakk> \<Longrightarrow> Q (gc_entry c) d'"
    and "\<And>r. E (GrantRejected r) id"
  shows "wp e (grantEntry c acc x) Q E d"
  unfolding grantEntry_def by (intro wp_rules assms(3); (rule assms; simp)?) (use assms in auto)

lemma GrantCredits_post:
  assumes run: "GrantCredits c e n d = (r, d')" and ok: "db_ok d" and pos: "0 < gc_amount c"
  shows "grantPost c d r d'"
proof (rule runT_rule [OF run [unfolded GrantCredits_def], where P = "grantPost c d"])
  have grant: "grantPost c d (CreditsGranted i (gc_amount c) us FirstExecution drs) d2"
    if "insertLedger row d = Some d1" "le_kind row = EntryKindManualAdjustment" "le_amount row = gc_amount c"
       "books d2 = books d1" for row d1 d2 i us drs
    using grant_entry [OF that(1) _ _ ok that(4)] that pos by (simp add: grantPost_def grant_kind_def)
  show "wp e (bindT (liftT GrantRejected (lockGrantAccount (gc_target c)))
     (\<lambda>account. bindT (queryT (GrantRejected (invalidState ''check credit grant idempotency failed''))
              (entryForKey (gc_key c) (fst account)))
     (\<lambda>existing. bindT (grantEntry c (fst account) existing)
     (\<lambda>entryID. bindT (liftT GrantRejected (grantRecipients (gc_target c)))
     (\<lambda>recipients. let commitErr = GrantRejected (invalidState ''commit credit grant transaction failed'') in
        case existing of
          Some _ \<Rightarrow> retT (commitErr, CreditsGranted entryID (gc_amount c) recipients IdempotentReplay [])
        | None \<Rightarrow>
            let draft = WithRecipients (gc_draft c) recipients in
            bindT (recordEventDraftInTx (GrantRejected (invalidState ''record credit grant event failed'')) draft)
            (\<lambda>_. retT (commitErr, CreditsGranted entryID (gc_amount c) recipients FirstExecution [draft])))))))
     (\<lambda>(cerr, v) t. grantPost c d cerr d \<and> grantPost c d v t) (\<lambda>v g. grantPost c d v (g d)) d"
    by (intro wp_rules) (auto simp: grant, auto simp: grantPost_def)
qed (simp add: grantPost_def)

end
