(* ===== verification/TaskStore.thy ===== *)
theory TaskStore
  imports Conservation
begin

text \<open>
  \<open>internal/db/task_store.go\<close> and \<open>internal/db/task_lifecycle_sweeps.go\<close>: state
  changes of tasks and reservations, the reservation guards and budgets, and the
  sweeps that expire tasks and reservations.  SQL's \<open>now()\<close> is the environment's
  clock, in nanoseconds.  The columns of a row are kept parsed, so reading a task
  or reservation back returns its row.
\<close>

section \<open>Task state\<close>

datatype FindTaskStoreResult = FindTaskStoreAccepted task_row | FindTaskStoreRejected DomainError

definition FindTask :: "TaskID \<Rightarrow> env \<Rightarrow> nat \<Rightarrow> db \<Rightarrow> FindTaskStoreResult \<times> nat" where
  "FindTask taskID = readN
     (bindT (queryT (FindTaskStoreRejected (invalidState ''find task failed''))
              (\<lambda>d. filter (\<lambda>r. tk_id r = taskID) (tasks d)))
     (\<lambda>values. case values of
        [r] \<Rightarrow> retT (FindTaskStoreAccepted r)
      | _ \<Rightarrow> raiseT (FindTaskStoreRejected (NewDomainError ErrorCodeNotFound ''task was not found''))))"

definition requireOpenableReward :: "TaskID \<Rightarrow> (DomainError, unit) dbtx" where
  "requireOpenableReward taskID =
     (let notFound = NewDomainError ErrorCodeNotFound ''task was not found'';
          unfunded = conflict ''credit reward must be funded before opening'' in
      bindT (queryT notFound (taskById taskID))
      (\<lambda>row. case row of None \<Rightarrow> raiseT notFound | Some r \<Rightarrow>
       bindT (if tk_reward_kind r \<in> {RewardKindCredit, RewardKindBundle} then
                bindT (queryT unfunded (\<lambda>d. rowWhere (\<lambda>f. tf_task f = taskID) (task_funds d)))
                (\<lambda>fund. case fund of
                   None \<Rightarrow> raiseT unfunded
                 | Some f \<Rightarrow>
                     if tf_amount f \<noteq> (case tk_reward_amount r of None \<Rightarrow> 0 | Some a \<Rightarrow> a)
                     then raiseT (conflict ''allocated credits must match the declared credit reward'')
                     else retT ())
              else retT ())
       (\<lambda>_. if tk_reward_kind r \<in> {RewardKindCollectible, RewardKindBundle} then
              bindT (queryT (invalidState ''check collectible reward funding failed'')
                       (\<lambda>d. length (filter (\<lambda>(t, c). t = taskID) (task_fund_collectibles d))))
              (\<lambda>held. if held < 1 then raiseT (conflict ''collectible reward must be funded before opening'')
                      else retT ())
            else retT ())))"

datatype ChangeTaskStateStoreResult =
    ChangeTaskStateStoreAccepted task_row "Draft list"
  | ChangeTaskStateStoreRejected DomainError

text \<open>The settlement a cancel performs: the holders whose reservations it releases.\<close>

definition settleCancel :: "TaskID \<Rightarrow> (DomainError, UserID list) dbtx" where
  "settleCancel taskID =
     bindT (settleFundedTaskOnCancel taskID)
     (\<lambda>_. bindT (lockedReservationHolders taskID)
     (\<lambda>holders. bindT (releaseReservationsOnCancel taskID) (\<lambda>_. retT holders)))"

definition setTaskState :: "DomainError \<Rightarrow> TaskID \<Rightarrow> TaskState \<Rightarrow> TaskState \<Rightarrow> (DomainError, nat) dbtx" where
  "setTaskState err taskID prior state =
     countT err (\<lambda>d. length (filter (\<lambda>r. tk_id r = taskID \<and> tk_state r = prior) (tasks d)))
       (\<lambda>d. Some (d\<lparr>tasks := updateWhere (\<lambda>r. tk_id r = taskID \<and> tk_state r = prior)
                     (tk_state_update (\<lambda>_. state)) (tasks d)\<rparr>))"

text \<open>The transaction of \<open>ChangeTaskState\<close>; its value is the list of recorded drafts.\<close>

definition changeTaskStateTx :: "TaskID \<Rightarrow> TaskState \<Rightarrow> Plan \<Rightarrow> (DomainError, Draft list) dbtx" where
  "changeTaskStateTx taskID state plan =
     bindT (queryT (invalidState ''lock task state failed'') (taskById taskID))
     (\<lambda>row. case row of
        None \<Rightarrow> raiseT (NewDomainError ErrorCodeNotFound ''task was not found'')
      | Some r \<Rightarrow>
      bindT (if state = StateOpen then requireOpenableReward taskID else retT ())
     (\<lambda>_. bindT (if state = StateCancelled then settleCancel taskID else retT [])
     (\<lambda>releasedHolders. bindT (setTaskState (invalidState ''change task state failed'') taskID (tk_state r) state)
     (\<lambda>commandTag. if commandTag \<noteq> 1 then raiseT (conflict ''task state was not changed'') else
      (case plan of
         NoEvent \<Rightarrow> retT []
       | Record draft \<Rightarrow>
           bindT (parseReviewWorker (tk_created_by r))
           (\<lambda>creatorID. let merged = WithRecipients draft (creatorID # releasedHolders) in
            bindT (recordEventDraftInTx (invalidState ''record task state event failed'') merged)
            (\<lambda>_. retT [merged])))))))"

text \<open>A transaction whose value the method still uses after the commit.\<close>

definition commitN :: "DomainError \<Rightarrow> DomainError \<Rightarrow> (DomainError, 'a) dbtx \<Rightarrow> env \<Rightarrow> nat \<Rightarrow> db \<Rightarrow> 'a result \<times> nat \<times> db" where
  "commitN beginErr commitErr body =
     runN (Inl beginErr) (bindT (liftT Inl body) (\<lambda>v. retT (Inl commitErr, Inr v)))"

definition ChangeTaskState :: "TaskID \<Rightarrow> TaskState \<Rightarrow> Plan \<Rightarrow> env \<Rightarrow> nat \<Rightarrow> db \<Rightarrow> ChangeTaskStateStoreResult \<times> db" where
  "ChangeTaskState taskID state plan e n d =
     (case commitN (invalidState ''begin change task state transaction failed'')
             (invalidState ''commit change task state transaction failed'')
             (changeTaskStateTx taskID state plan) e n d of
        (Inl reason, n', d') \<Rightarrow> (ChangeTaskStateStoreRejected reason, d')
      | (Inr recorded, n', d') \<Rightarrow>
          (case fst (FindTask taskID e n' d') of
             FindTaskStoreAccepted value \<Rightarrow> (ChangeTaskStateStoreAccepted value recorded, d')
           | FindTaskStoreRejected reason \<Rightarrow> (ChangeTaskStateStoreRejected reason, d')))"

section \<open>Lapsed reservations\<close>

definition ParseTaskReservationID :: "env \<Rightarrow> string \<Rightarrow> TaskReservationID result" where
  "ParseTaskReservationID e raw = fromIDResult (uuid_parse e raw)"

text \<open>Errors of the housekeeping are Go errors the callers only test for nil.\<close>

definition expiredReservationDraft :: "TaskReservationID \<Rightarrow> TaskID \<Rightarrow> UserID \<Rightarrow> (unit, Draft) dbtx" where
  "expiredReservationDraft rawReservationID rawTaskID rawHolderID =
     bindT (queryT () (taskById rawTaskID))
     (\<lambda>row. case row of None \<Rightarrow> raiseT () | Some r \<Rightarrow>
      liftT (\<lambda>_. ()) (bindT (parseT ParseTaskID rawTaskID)
     (\<lambda>taskID. bindT (parseT ParseTaskReservationID rawReservationID)
     (\<lambda>reservationID. bindT (parseT ParseUserID rawHolderID)
     (\<lambda>holderID. bindT (parseT ParseUserID (tk_created_by r))
     (\<lambda>ownerID. NewDraft KindReservationExpired ActorSystem
        (NoSubjectRefs\<lparr>sj_task := Some taskID, sj_reservation := Some reservationID\<rparr>)
        (TaskMetadata taskID) (NewRecipients [holderID, ownerID])))))))"

definition lapsed :: "int \<Rightarrow> reservation_row \<Rightarrow> bool" where
  "lapsed now r \<longleftrightarrow> rv_state r = ReservationStateActive \<and> rv_expires_at r \<le> now"

definition releaseExpiredReservationsInTx :: "(unit, Draft list) dbtx" where
  "releaseExpiredReservationsInTx =
     bindT (askT (\<lambda>e n. clock e n))
     (\<lambda>now. bindT (queryT () (\<lambda>d. filter (lapsed now) (task_reservations d)))
     (\<lambda>released. bindT (execT () (updateReservations (lapsed now) ReservationStateExpired))
     (\<lambda>_. bindT (forT released (\<lambda>_. queryT () (\<lambda>d. ())))
     (\<lambda>_. bindT (queryT () (\<lambda>d. ()))
     (\<lambda>_. mapT released (\<lambda>row.
        bindT (expiredReservationDraft (rv_id row) (rv_task row) (rv_requested_by row))
        (\<lambda>draft. bindT (recordEventDraftInTx () draft) (\<lambda>_. retT draft))))))))"

text \<open>The request-path housekeeping: \<open>True\<close> is the nil error.\<close>

definition releaseExpiredReservations :: "env \<Rightarrow> nat \<Rightarrow> db \<Rightarrow> bool \<times> nat \<times> db" where
  "releaseExpiredReservations =
     runN False (bindT (liftT (\<lambda>_. False) releaseExpiredReservationsInTx) (\<lambda>_. retT (False, True)))"

datatype ExpireDueReservationsResult =
  ExpireDueReservationsCompleted "Draft list" | ExpireDueReservationsRejected DomainError

definition ExpireDueReservations :: "env \<Rightarrow> nat \<Rightarrow> db \<Rightarrow> ExpireDueReservationsResult \<times> db" where
  "ExpireDueReservations =
     runT (ExpireDueReservationsRejected (invalidState ''begin release due reservations failed''))
     (bindT (liftT (\<lambda>_. ExpireDueReservationsRejected (invalidState ''release due reservations failed''))
              releaseExpiredReservationsInTx)
     (\<lambda>drafts. retT (ExpireDueReservationsRejected (invalidState ''commit release due reservations failed''),
          ExpireDueReservationsCompleted drafts)))"

section \<open>Reservations\<close>

datatype Assignee =
    UserAssignee UserID
  | OrganizationTeamAssignee OrganizationID string
  | TeamAssignee string

record assigneeSQL =
  as_kind :: AssigneeScope
  as_user :: "UserID option"
  as_team :: "string option"
  as_organization :: "OrganizationID option"

fun assigneeSQLColumns :: "Assignee \<Rightarrow> assigneeSQL" where
  "assigneeSQLColumns (UserAssignee u) =
     \<lparr>as_kind = AssigneeScopeUser, as_user = Some u, as_team = None, as_organization = None\<rparr>"
| "assigneeSQLColumns (OrganizationTeamAssignee i t) =
     \<lparr>as_kind = AssigneeScopeOrganizationTeam, as_user = None, as_team = Some t, as_organization = Some i\<rparr>"
| "assigneeSQLColumns (TeamAssignee t) =
     \<lparr>as_kind = AssigneeScopeTeam, as_user = None, as_team = Some t, as_organization = None\<rparr>"

definition coalesce :: "string option \<Rightarrow> string" where
  "coalesce c = (case c of None \<Rightarrow> '''' | Some v \<Rightarrow> v)"

definition bannedAssignee :: "TaskID \<Rightarrow> assigneeSQL \<Rightarrow> db \<Rightarrow> bool" where
  "bannedAssignee taskID a d \<longleftrightarrow> (\<exists>b \<in> set (task_implementor_bans d). bn_task b = taskID \<and> bn_assignee b = as_kind a
     \<and> coalesce (bn_user b) = coalesce (as_user a) \<and> coalesce (bn_team b) = coalesce (as_team a)
     \<and> coalesce (bn_organization b) = coalesce (as_organization a))"

definition reservedByAssignee :: "TaskID \<Rightarrow> assigneeSQL \<Rightarrow> db \<Rightarrow> bool" where
  "reservedByAssignee taskID a d \<longleftrightarrow> (\<exists>v \<in> set (task_reservations d). rv_task v = taskID \<and> rv_assignee v = as_kind a
     \<and> coalesce (rv_user v) = coalesce (as_user a) \<and> coalesce (rv_team v) = coalesce (as_team a)
     \<and> coalesce (rv_organization v) = coalesce (as_organization a) \<and> rv_state v = ReservationStateActive)"

definition seriesBlocked :: "TaskID \<Rightarrow> db \<Rightarrow> bool" where
  "seriesBlocked taskID d \<longleftrightarrow> (\<exists>t \<in> set (tasks d). tk_id t = taskID \<and>
     (\<exists>s \<in> set (task_series d). Some (sr_id s) = tk_series t \<and> sr_state s \<noteq> SeriesStatePublished))"

definition taskSeriesBlocksExecution :: "TaskID \<Rightarrow> (DomainError, unit) dbtx" where
  "taskSeriesBlocksExecution taskID =
     bindT (queryT (invalidState ''check task series state failed'') (seriesBlocked taskID))
     (\<lambda>blocked. if blocked
        then raiseT (invalidState (''the task'' @ [CHR 0x27] @ ''s series is not published'')) else retT ())"

fun reservationInitialState :: "ParticipationPolicy \<Rightarrow> ReservationState result" where
  "reservationInitialState ParticipationPolicyReservationRequired = Inr ReservationStateActive"
| "reservationInitialState ParticipationPolicyOpen = Inl (conflict ''task does not require reservation'')"

definition activeVia :: "AgentCredentialID \<Rightarrow> db \<Rightarrow> int" where
  "activeVia credential d = int (length (filter (\<lambda>v. rv_credential v = Some credential
     \<and> rv_state v = ReservationStateActive) (task_reservations d)))"

definition consumeReservationBudget ::
  "AgentCredentialID \<Rightarrow> int \<Rightarrow> ReservationConcurrencyCap \<Rightarrow> (DomainError, unit) dbtx" where
  "consumeReservationBudget credential dailyTaskLimit concurrent =
     bindT (lockCredential ''lock agent credential for reservation budget failed'' credential)
     (\<lambda>_. bindT (case concurrent of
          NoReservationConcurrencyCap \<Rightarrow> retT ()
        | ReservationConcurrencyCapAtMost limit \<Rightarrow>
            bindT (queryT (invalidState ''count credential reservations failed'') (activeVia credential))
            (\<lambda>active. if active \<ge> limit
               then raiseT (budgetExceededError (concurrentReservationMessage active limit)) else retT ()))
     (\<lambda>_. bindT (askT (\<lambda>e n. utcDay (clock e n)))
     (\<lambda>day. bindT (chargeWorkDayCounter (workDayKeyAgentTasks @ credential) day 1 dailyTaskLimit)
     (\<lambda>res. case res of
        dayCounterCharged \<Rightarrow> retT ()
      | dayCounterExhausted usedBefore \<Rightarrow>
          raiseT (budgetExceededError (dailyTaskBudgetMessage usedBefore dailyTaskLimit))
      | dayCounterChargeFailed \<Rightarrow> raiseT (invalidState ''consume daily task budget failed'')))))"

record ReservationCommand =
  rc_task :: TaskID
  rc_assignee :: Assignee
  rc_requested_by :: UserID
  rc_origin :: ReservationOrigin
  rc_draft :: Draft

fun originCredential :: "ReservationOrigin \<Rightarrow> AgentCredentialID option" where
  "originCredential ReservedByUserSession = None"
| "originCredential (ReservedViaWorkCredential credential _ _) = Some credential"

fun chargeReservation :: "ReservationOrigin \<Rightarrow> (DomainError, unit) dbtx" where
  "chargeReservation ReservedByUserSession = retT ()"
| "chargeReservation (ReservedViaWorkCredential credential dailyTaskLimit concurrent) =
     orRefuse (consumeReservationBudget credential dailyTaskLimit concurrent) id"

definition hours :: "int \<Rightarrow> int" where
  "hours h = h * 60 * 60 * 1000000000"

definition createReservationTx :: "TaskReservationID \<Rightarrow> ReservationCommand \<Rightarrow> (DomainError, unit) dbtx" where
  "createReservationTx reservationID command =
     (let notFound = NewDomainError ErrorCodeNotFound ''task was not found'';
          columns = assigneeSQLColumns (rc_assignee command) in
      bindT (queryT notFound (taskById (rc_task command)))
      (\<lambda>row. case row of None \<Rightarrow> raiseT notFound | Some r \<Rightarrow>
       if tk_state r \<noteq> StateOpen then raiseT (conflict ''only open tasks can be reserved'') else
       bindT (taskSeriesBlocksExecution (rc_task command))
      (\<lambda>_. case reservationInitialState (tk_participation r) of Inl reason \<Rightarrow> raiseT reason | Inr initial \<Rightarrow>
       bindT (queryT (invalidState ''check task implementor ban failed'') (bannedAssignee (rc_task command) columns))
      (\<lambda>banned. if banned
         then raiseT (NewDomainError ErrorCodePermissionDenied ''implementor is banned from the task'') else
       bindT (queryT (invalidState ''check existing reservation failed'') (reservedByAssignee (rc_task command) columns))
      (\<lambda>existing. if existing then raiseT (conflict ''assignee already has an active reservation'') else
       bindT (chargeReservation (rc_origin command))
      (\<lambda>_. bindT (askT (\<lambda>e n. clock e n))
      (\<lambda>now. bindT (execT (conflict ''task already has an active reservation'')
         (insertReservation \<lparr>rv_id = reservationID, rv_task = rc_task command, rv_assignee = as_kind columns,
            rv_user = as_user columns, rv_team = as_team columns, rv_organization = as_organization columns,
            rv_state = initial, rv_requested_by = rc_requested_by command,
            rv_expires_at = now + hours (tk_ttl_hours r), rv_credential = originCredential (rc_origin command)\<rparr>))
      (\<lambda>_. recordEventDraftInTx (invalidState ''record reservation event failed'') (rc_draft command)))))))))"

definition findReservation :: "TaskReservationID \<Rightarrow> env \<Rightarrow> nat \<Rightarrow> db \<Rightarrow> reservation_row result \<times> nat" where
  "findReservation reservationID = readN
     (bindT (queryT (Inl (invalidState ''find reservation failed''))
              (\<lambda>d. filter (\<lambda>v. rv_id v = reservationID) (task_reservations d)))
     (\<lambda>values. case values of
        [v] \<Rightarrow> retT (Inr v)
      | _ \<Rightarrow> raiseT (Inl (NewDomainError ErrorCodeNotFound ''reservation was not found''))))"

datatype CreateReservationStoreResult =
  CreateReservationStoreAccepted reservation_row | CreateReservationStoreRejected DomainError

definition CreateReservation ::
  "TaskReservationID \<Rightarrow> ReservationCommand \<Rightarrow> env \<Rightarrow> nat \<Rightarrow> db \<Rightarrow> CreateReservationStoreResult \<times> db" where
  "CreateReservation reservationID command e n d =
     (case releaseExpiredReservations e n d of (released, n1, d1) \<Rightarrow>
      if \<not> released then (CreateReservationStoreRejected (invalidState ''release expired reservations failed''), d1)
      else case commitN (invalidState ''begin create reservation transaction failed'')
             (invalidState ''commit create reservation transaction failed'')
             (createReservationTx reservationID command) e n1 d1 of
        (Inl reason, n2, d2) \<Rightarrow> (CreateReservationStoreRejected reason, d2)
      | (Inr _, n2, d2) \<Rightarrow>
          (case fst (findReservation reservationID e n2 d2) of
             Inr found \<Rightarrow> (CreateReservationStoreAccepted found, d2)
           | Inl reason \<Rightarrow> (CreateReservationStoreRejected reason, d2)))"


datatype ChangeReservationStateStoreResult =
    ChangeReservationStateStoreAccepted reservation_row "Draft list"
  | ChangeReservationStateStoreRejected DomainError

definition changeReservationStateTx ::
  "TaskID \<Rightarrow> TaskReservationID \<Rightarrow> ReservationState \<Rightarrow> Plan \<Rightarrow> (DomainError, Draft list) dbtx" where
  "changeReservationStateTx taskID reservationID state plan =
     (let target = (\<lambda>v. rv_id v = reservationID \<and> rv_task v = taskID \<and> rv_state v = ReservationStateActive) in
      bindT (countT (conflict ''reservation state was not changed'')
               (\<lambda>d. length (filter target (task_reservations d))) (updateReservations target state))
      (\<lambda>commandTag. if commandTag \<noteq> 1 then raiseT (conflict ''reservation is not active'') else
       case plan of
         NoEvent \<Rightarrow> retT []
       | Record draft \<Rightarrow>
           bindT (queryT (invalidState ''read reservation holder failed'')
                    (\<lambda>d. rowWhere (\<lambda>v. rv_id v = reservationID) (task_reservations d)))
           (\<lambda>row. case row of
              None \<Rightarrow> raiseT (invalidState ''read reservation holder failed'')
            | Some v \<Rightarrow>
                bindT (parseReviewWorker (rv_requested_by v))
                (\<lambda>holderID. let merged = WithRecipients draft [holderID] in
                 bindT (recordEventDraftInTx (invalidState ''record reservation event failed'') merged)
                 (\<lambda>_. retT [merged])))))"

definition ChangeReservationState ::
  "TaskID \<Rightarrow> TaskReservationID \<Rightarrow> ReservationState \<Rightarrow> Plan \<Rightarrow> env \<Rightarrow> nat \<Rightarrow> db \<Rightarrow>
   ChangeReservationStateStoreResult \<times> db" where
  "ChangeReservationState taskID reservationID state plan e n d =
     (case releaseExpiredReservations e n d of (released, n1, d1) \<Rightarrow>
      if \<not> released then (ChangeReservationStateStoreRejected (invalidState ''release expired reservations failed''), d1)
      else case commitN (invalidState ''begin change reservation state transaction failed'')
             (invalidState ''commit change reservation state transaction failed'')
             (changeReservationStateTx taskID reservationID state plan) e n1 d1 of
        (Inl reason, n2, d2) \<Rightarrow> (ChangeReservationStateStoreRejected reason, d2)
      | (Inr recorded, n2, d2) \<Rightarrow>
          (case fst (findReservation reservationID e n2 d2) of
             Inr found \<Rightarrow> (ChangeReservationStateStoreAccepted found recorded, d2)
           | Inl reason \<Rightarrow> (ChangeReservationStateStoreRejected reason, d2)))"

section \<open>Who may submit\<close>

datatype SubmissionEligibility = SubmissionEligible | SubmissionEligibilityRejected DomainError

definition userBanned :: "TaskID \<Rightarrow> UserID \<Rightarrow> db \<Rightarrow> bool" where
  "userBanned taskID submitterID d \<longleftrightarrow> (\<exists>b \<in> set (task_implementor_bans d).
     bn_task b = taskID \<and> bn_assignee b = AssigneeScopeUser \<and> bn_user b = Some submitterID)"

definition activeForSubmitter :: "TaskID \<Rightarrow> UserID \<Rightarrow> db \<Rightarrow> bool" where
  "activeForSubmitter taskID submitterID d \<longleftrightarrow> (\<exists>v \<in> set (task_reservations d).
     rv_task v = taskID \<and> rv_state v = ReservationStateActive \<and>
     (rv_assignee v = AssigneeScopeUser \<and> rv_user v = Some submitterID \<or>
      rv_assignee v \<in> {AssigneeScopeOrganizationTeam, AssigneeScopeTeam} \<and>
      (\<exists>m \<in> set (team_members d). rv_team v = Some (fst m) \<and> snd m = submitterID)))"

definition eligibilityQueries :: "TaskID \<Rightarrow> UserID \<Rightarrow> (SubmissionEligibility, SubmissionEligibility) dbtx" where
  "eligibilityQueries taskID submitterID =
     (let notFound = SubmissionEligibilityRejected (NewDomainError ErrorCodeNotFound ''task was not found'') in
      bindT (queryT notFound (taskById taskID))
      (\<lambda>row. case row of None \<Rightarrow> raiseT notFound | Some r \<Rightarrow>
       bindT (liftT SubmissionEligibilityRejected (taskSeriesBlocksExecution taskID))
      (\<lambda>_. bindT (queryT (SubmissionEligibilityRejected (invalidState ''check task implementor ban failed''))
               (userBanned taskID submitterID))
      (\<lambda>banned. if banned then raiseT (SubmissionEligibilityRejected
             (NewDomainError ErrorCodePermissionDenied ''implementor is banned from the task''))
       else if tk_participation r = ParticipationPolicyOpen then raiseT SubmissionEligible else
       bindT (queryT (SubmissionEligibilityRejected (invalidState ''check active reservation failed''))
               (activeForSubmitter taskID submitterID))
      (\<lambda>active. if active then raiseT SubmissionEligible else
         retT (SubmissionEligibilityRejected (NewDomainError ErrorCodePermissionDenied
           ''task requires an active reservation for the submitter'')))))))"

definition CheckSubmissionEligibility ::
  "TaskID \<Rightarrow> UserID \<Rightarrow> env \<Rightarrow> nat \<Rightarrow> db \<Rightarrow> SubmissionEligibility \<times> nat \<times> db" where
  "CheckSubmissionEligibility taskID submitterID e n d =
     (case releaseExpiredReservations e n d of (released, n1, d1) \<Rightarrow>
      if \<not> released
      then (SubmissionEligibilityRejected (invalidState ''release expired reservations failed''), n1, d1)
      else case readN (eligibilityQueries taskID submitterID) e n1 d1 of (r, n2) \<Rightarrow> (r, n2, d1))"

section \<open>The expiry sweep\<close>

datatype expireOneTaskResult =
  expireOneTaskExpired Draft | expireOneTaskSkipped | expireOneTaskRejected DomainError

definition due :: "int \<Rightarrow> task_row \<Rightarrow> bool" where
  "due now r \<longleftrightarrow> (case tk_expires_at r of None \<Rightarrow> False | Some t \<Rightarrow> t \<le> now)"

text \<open>The work under the task's lock: refund, release, and the state change.\<close>

definition expireLockedTask :: "string \<Rightarrow> TaskID \<Rightarrow> UserID \<Rightarrow> (expireOneTaskResult, Draft) dbtx" where
  "expireLockedTask rawTaskID taskID ownerID =
     bindT (liftT expireOneTaskRejected (lockedReservationHolders rawTaskID))
     (\<lambda>holders. bindT (liftT expireOneTaskRejected (refundExpiredTaskFunding taskID))
     (\<lambda>_. bindT (liftT expireOneTaskRejected (releaseReservationsOnCancel taskID))
     (\<lambda>_. bindT (liftT expireOneTaskRejected
              (setTaskState (invalidState ''expire task failed'') rawTaskID StateOpen StateExpired))
     (\<lambda>commandTag. if commandTag \<noteq> 1 then raiseT expireOneTaskSkipped else
      bindT (liftT expireOneTaskRejected (NewDraft KindTaskExpired ActorSystem
               (NoSubjectRefs\<lparr>sj_task := Some taskID\<rparr>) (TaskMetadata taskID) (NewRecipients (ownerID # holders))))
     (\<lambda>draft. bindT (recordEventDraftInTx (expireOneTaskRejected (invalidState ''record task expired event failed'')) draft)
     (\<lambda>_. retT draft))))))"

definition expireOneTask :: "string \<Rightarrow> env \<Rightarrow> nat \<Rightarrow> db \<Rightarrow> expireOneTaskResult \<times> nat \<times> db" where
  "expireOneTask rawTaskID e n d = (case ParseTaskID e rawTaskID of
     Inl reason \<Rightarrow> (expireOneTaskRejected reason, n, d)
   | Inr taskID \<Rightarrow>
       runN (expireOneTaskRejected (invalidState ''begin expire task transaction failed''))
       (bindT (askT (\<lambda>e n. clock e n))
       (\<lambda>now. bindT (queryT (expireOneTaskRejected (invalidState ''lock expiring task failed''))
                (\<lambda>d. rowWhere (\<lambda>r. tk_id r = rawTaskID \<and> due now r) (tasks d)))
       (\<lambda>row. case row of None \<Rightarrow> raiseT expireOneTaskSkipped | Some r \<Rightarrow>
        if tk_state r \<noteq> StateOpen then raiseT expireOneTaskSkipped else
        bindT (liftT expireOneTaskRejected (parseT ParseUserID (tk_created_by r)))
       (\<lambda>ownerID. bindT (expireLockedTask rawTaskID taskID ownerID)
       (\<lambda>draft. retT (expireOneTaskRejected (invalidState ''commit expire task transaction failed''),
            expireOneTaskExpired draft)))))) e n d)"

datatype ExpireDueTasksResult = ExpireDueTasksCompleted "Draft list" | ExpireDueTasksRejected DomainError

fun expireLoop :: "string list \<Rightarrow> Draft list \<Rightarrow> env \<Rightarrow> nat \<Rightarrow> db \<Rightarrow> ExpireDueTasksResult \<times> db" where
  "expireLoop [] recorded e n d = (ExpireDueTasksCompleted recorded, d)"
| "expireLoop (rawID # rawIDs) recorded e n d = (case expireOneTask rawID e n d of
     (expireOneTaskExpired draft, n', d') \<Rightarrow> expireLoop rawIDs (recorded @ [draft]) e n' d'
   | (expireOneTaskSkipped, n', d') \<Rightarrow> expireLoop rawIDs recorded e n' d'
   | (expireOneTaskRejected reason, n', d') \<Rightarrow> (ExpireDueTasksRejected reason, d'))"

definition dueTasks :: "int \<Rightarrow> db \<Rightarrow> TaskID list" where
  "dueTasks now d = map tk_id (sort_key (\<lambda>r. case tk_expires_at r of None \<Rightarrow> 0 | Some t \<Rightarrow> t)
     (filter (\<lambda>r. tk_state r = StateOpen \<and> due now r) (tasks d)))"

definition ExpireDueTasks :: "env \<Rightarrow> nat \<Rightarrow> db \<Rightarrow> ExpireDueTasksResult \<times> db" where
  "ExpireDueTasks e n d =
     (case readN (bindT (askT (\<lambda>e n. clock e n))
        (\<lambda>now. bindT (scanT (Inl (invalidState ''list due tasks failed'')) (Inl (invalidState ''scan due task failed''))
                 (Inl (invalidState ''read due tasks failed'')) (dueTasks now) retT)
        (\<lambda>ids. retT (Inr ids)))) e n d of
        (Inl reason, n') \<Rightarrow> (ExpireDueTasksRejected reason, d)
      | (Inr rawIDs, n') \<Rightarrow> expireLoop rawIDs [] e n' d)"


section \<open>Invariants across the task store\<close>

lemma wp_consumeReservationBudget [wp_rules]:
  assumes "\<And>d'. books d' = books d \<Longrightarrow> Q () d'" "\<And>r. E r id"
  shows "wp e (consumeReservationBudget c lim conc) Q E d"
  unfolding consumeReservationBudget_def
  by (cases conc) (auto intro!: wp_rules assms split: dayCounterChargeResult.split)

lemma wp_mapT_ret: "\<lbrakk>E err id; Q rs s\<rbrakk> \<Longrightarrow> wp e (mapT rs (\<lambda>r. bindT (queryT err (\<lambda>_. r)) retT)) Q E s"
proof (induction rs arbitrary: Q)
  case (Cons r rs)
  then have "wp e (mapT rs (\<lambda>r. bindT (queryT err (\<lambda>_. r)) retT)) (\<lambda>ys. wp e (retT (r # ys)) Q E) E s"
    by (intro Cons.IH) (auto intro: wp_ret)
  with Cons.prems show ?case by (auto intro!: wp_rules)
qed (simp add: wp_ret)

lemma reads_tasks [reads_rules]:
  "reads e (requireOpenableReward t)" "reads e (taskSeriesBlocksExecution t)"
  "reads e (expiredReservationDraft i t u)"
  unfolding requireOpenableReward_def taskSeriesBlocksExecution_def expiredReservationDraft_def Let_def
  by (rule readsI, intro wp_rules, simp_all)+

context tx_invariant
begin

lemmas keeps_task_readers [safe_rules] = reads_tasks [THEN keeps_reads]

lemma keeps_chargeReservation [safe_rules]: "Q () \<Longrightarrow> keeps I R e Q (chargeReservation origin)"
  by (cases origin) (auto intro!: safe_rules keepsI wp_orRefuse wp_rules step_books simp: quietly_def)

lemma keeps_commit:
  assumes run: "commitN b c body e n d = (r, n', d')" and ok: "I d" and body: "keeps I R e (\<lambda>_. True) body"
  shows "R d d' \<and> (isl r \<longrightarrow> books d' = books d)"
  using keeps_run [OF runN_runT [OF run [unfolded commitN_def]] ok, where success = "\<lambda>r. \<not> isl r"]
  by (simp add: safe_rules body)

end


lemma safe_setTaskState [safe_rules]: "(\<And>k. Q k) \<Longrightarrow> safe e Q (setTaskState err t p st)"
  unfolding setTaskState_def
  by (rule credit.keeps_count) (auto intro!: conserves_same simp: sameCredits_def)

lemma safe_countReservations [safe_rules]:
  "(\<And>k. Q k) \<Longrightarrow> safe e Q (countT err c (updateReservations p st))"
  by (rule credit.keeps_count) (auto intro: conserves_same dest: same_updates)

lemma safe_releaseInTx [safe_rules]: "(\<And>ds. Q ds) \<Longrightarrow> safe e Q releaseExpiredReservationsInTx"
  unfolding releaseExpiredReservationsInTx_def by (intro safe_rules)

lemma safe_changeTaskStateTx [safe_rules]: "(\<And>ds. Q ds) \<Longrightarrow> safe e Q (changeTaskStateTx t st plan)"
  unfolding changeTaskStateTx_def settleCancel_def settleFundedTaskOnCancel_def by (intro safe_rules)

lemma safe_createReservationTx [safe_rules]: "Q () \<Longrightarrow> safe e Q (createReservationTx i c)"
  unfolding createReservationTx_def by (intro safe_rules)

lemma safe_changeReservationStateTx [safe_rules]:
  "(\<And>ds. Q ds) \<Longrightarrow> safe e Q (changeReservationStateTx t i st plan)"
  unfolding changeReservationStateTx_def by (intro safe_rules)

lemma safe_expireLockedTask [safe_rules]: "(\<And>ds. Q ds) \<Longrightarrow> safe e Q (expireLockedTask raw t u)"
  unfolding expireLockedTask_def refundExpiredTaskFunding_def by (intro safe_rules)


section \<open>Methods\<close>

context tx_invariant
begin

lemma method_ChangeTaskState:
  assumes run: "ChangeTaskState t st plan e n d = (r, d')" and ok: "I d"
    and tx: "keeps I R e (\<lambda>_. True) (changeTaskStateTx t st plan)"
  shows "R d d'"
  using run keeps_commit [OF _ ok tx]
  by (fastforce simp: ChangeTaskState_def split: prod.splits sum.splits FindTaskStoreResult.splits)

lemma method_release:
  assumes run: "releaseExpiredReservations e n d = (b, n', d')" and ok: "I d"
    and tx: "keeps I R e (\<lambda>_. True) releaseExpiredReservationsInTx"
  shows "R d d' \<and> (\<not> b \<longrightarrow> books d' = books d)"
  using keeps_run [OF runN_runT [OF run [unfolded releaseExpiredReservations_def]] ok, where success = "\<lambda>b. b"]
  by (simp add: safe_rules tx)

lemma method_ExpireDueReservations:
  assumes run: "ExpireDueReservations e n d = (r, d')" and ok: "I d"
    and tx: "keeps I R e (\<lambda>_. True) releaseExpiredReservationsInTx"
  shows "R d d'"
  using keeps_run [OF run [unfolded ExpireDueReservations_def] ok,
      where success = "\<lambda>r. \<exists>ds. r = ExpireDueReservationsCompleted ds"]
  by (simp add: safe_rules tx)

lemma method_CreateReservation:
  assumes run: "CreateReservation i c e n d = (r, d')" and ok: "I d"
    and release: "keeps I R e (\<lambda>_. True) releaseExpiredReservationsInTx"
    and tx: "keeps I R e (\<lambda>_. True) (createReservationTx i c)"
  shows "R d d'"
proof -
  obtain b n1 d1 where rel: "releaseExpiredReservations e n d = (b, n1, d1)" by (metis prod_cases3)
  from method_release [OF rel ok release] have d1: "R d d1" ..
  obtain res n2 d2 where com: "commitN (invalidState ''begin create reservation transaction failed'')
      (invalidState ''commit create reservation transaction failed'') (createReservationTx i c) e n1 d1 = (res, n2, d2)"
    by (metis prod_cases3)
  from keeps_commit [OF com step_inv [OF d1] tx] have "R d1 d2" ..
  then have "R d d2" by (rule step_trans [OF d1])
  with run d1 show ?thesis
    by (auto simp: CreateReservation_def rel com split: if_splits sum.splits)
qed

lemma method_ChangeReservationState:
  assumes run: "ChangeReservationState t i st plan e n d = (r, d')" and ok: "I d"
    and release: "keeps I R e (\<lambda>_. True) releaseExpiredReservationsInTx"
    and tx: "keeps I R e (\<lambda>_. True) (changeReservationStateTx t i st plan)"
  shows "R d d'"
proof -
  obtain b n1 d1 where rel: "releaseExpiredReservations e n d = (b, n1, d1)" by (metis prod_cases3)
  from method_release [OF rel ok release] have d1: "R d d1" ..
  obtain res n2 d2 where com: "commitN (invalidState ''begin change reservation state transaction failed'')
      (invalidState ''commit change reservation state transaction failed'')
      (changeReservationStateTx t i st plan) e n1 d1 = (res, n2, d2)"
    by (metis prod_cases3)
  from keeps_commit [OF com step_inv [OF d1] tx] have "R d1 d2" ..
  then have "R d d2" by (rule step_trans [OF d1])
  with run d1 show ?thesis
    by (auto simp: ChangeReservationState_def rel com split: if_splits sum.splits)
qed

lemma method_CheckSubmissionEligibility:
  assumes run: "CheckSubmissionEligibility t u e n d = (r, n', d')" and ok: "I d"
    and release: "keeps I R e (\<lambda>_. True) releaseExpiredReservationsInTx"
  shows "R d d'"
  using run method_release [OF _ ok release]
  by (fastforce simp: CheckSubmissionEligibility_def split: prod.splits if_splits)

lemma method_expireOneTask:
  assumes run: "expireOneTask raw e n d = (r, n', d')" and ok: "I d"
    and tx: "\<And>t u. ParseTaskID e raw = Inr t \<Longrightarrow> keeps I R e (\<lambda>_. True) (expireLockedTask raw t u)"
  shows "R d d'"
proof (cases "ParseTaskID e raw")
  case Inl
  with run ok show ?thesis by (simp add: expireOneTask_def step_refl)
next
  case (Inr t)
  from run [unfolded expireOneTask_def Inr sum.case, THEN runN_runT] ok show ?thesis
    by (rule keeps_run [where success = "\<lambda>r. \<exists>dr. r = expireOneTaskExpired dr", THEN conjunct1])
       (intro safe_rules tx Inr | simp)+
qed

lemma method_expireLoop:
  assumes "expireLoop ids recorded e n d = (r, d')" "I d"
    and tx: "\<And>raw t u. \<lbrakk>raw \<in> set ids; ParseTaskID e raw = Inr t\<rbrakk> \<Longrightarrow> keeps I R e (\<lambda>_. True) (expireLockedTask raw t u)"
  shows "R d d'"
  using assms
proof (induction ids arbitrary: recorded n d)
  case Nil
  then show ?case by (simp add: step_refl)
next
  case (Cons raw ids)
  obtain res n1 d1 where one: "expireOneTask raw e n d = (res, n1, d1)" by (metis prod_cases3)
  from method_expireOneTask [OF one Cons.prems(2)] Cons.prems(3) have d1: "R d d1" by simp
  have "R d1 d'" if "expireLoop ids recorded' e n1 d1 = (r, d')" for recorded'
    using Cons.IH [OF that step_inv [OF d1]] Cons.prems(3) by simp
  with Cons.prems(1) d1 show ?case
    by (auto simp: one split: expireOneTaskResult.splits intro: step_trans)
qed

lemma method_ExpireDueTasks:
  assumes run: "ExpireDueTasks e n d = (r, d')" and ok: "I d"
    and tx: "\<And>raw t u. \<lbrakk>raw \<in> tk_id ` set (tasks d); ParseTaskID e raw = Inr t\<rbrakk>
       \<Longrightarrow> keeps I R e (\<lambda>_. True) (expireLockedTask raw t u)"
  shows "R d d'"
proof -
  obtain res n1 where scan: "readN (bindT (askT (\<lambda>e n. clock e n))
        (\<lambda>now. bindT (scanT (Inl (invalidState ''list due tasks failed'')) (Inl (invalidState ''scan due task failed''))
                 (Inl (invalidState ''read due tasks failed'')) (dueTasks now) retT)
        (\<lambda>ids. retT (Inr ids)))) e n d = (res, n1)" by (metis prod.exhaust)
  have ids: "set ids \<subseteq> tk_id ` set (tasks d)" if "res = Inr ids" for ids
  proof -
    have "case res of Inl _ \<Rightarrow> True | Inr ids \<Rightarrow> set ids \<subseteq> tk_id ` set (tasks d)"
      by (rule readN_rule [OF scan], unfold scanT_def, intro wp_bind wp_ask wp_query wp_mapT_ret wp_ret)
         (auto simp: dueTasks_def)
    with that show ?thesis by simp
  qed
  show ?thesis
  proof (cases res)
    case (Inl reason)
    with run ok scan show ?thesis by (simp add: ExpireDueTasks_def step_refl)
  next
    case (Inr rawIDs)
    with run scan have "expireLoop rawIDs [] e n1 d = (r, d')" by (simp add: ExpireDueTasks_def)
    then show ?thesis by (rule method_expireLoop [OF _ ok]) (use ids [OF Inr] tx in blast)
  qed
qed

end


lemmas task_store_conserves =
  credit.method_ChangeTaskState [OF _ _ safe_changeTaskStateTx [OF TrueI]]
  credit.method_CreateReservation [OF _ _ safe_releaseInTx [OF TrueI] safe_createReservationTx [OF TrueI]]
  credit.method_ChangeReservationState [OF _ _ safe_releaseInTx [OF TrueI] safe_changeReservationStateTx [OF TrueI]]
  credit.method_CheckSubmissionEligibility [OF _ _ safe_releaseInTx [OF TrueI]]
  credit.method_ExpireDueReservations [OF _ _ safe_releaseInTx [OF TrueI]]
  credit.method_ExpireDueTasks [OF _ _ safe_expireLockedTask [OF TrueI]]


end
