(* ===== verification/Custody.thy ===== *)
theory Custody
  imports TaskStore
begin

text \<open>
  Escrow custody: what a task holds (allocated credits, held collectibles) is
  held only while the task can still be awarded, a collectible is in the escrowed
  state exactly while some task holds it, and it is held by one task at most.
  The transactions that end a task settle it inside the same transaction, so the
  invariant is suspended for that task between their first and last statement.
\<close>

section \<open>The invariant\<close>

definition live :: "task_row \<Rightarrow> bool" where
  "live r \<longleftrightarrow> tk_state r = StateDraft \<or> tk_state r = StateOpen"

definition credit_reward :: "task_row \<Rightarrow> bool" where
  "credit_reward r \<longleftrightarrow> tk_reward_kind r = RewardKindCredit \<or> tk_reward_kind r = RewardKindBundle"

definition collectible_reward :: "task_row \<Rightarrow> bool" where
  "collectible_reward r \<longleftrightarrow> tk_reward_kind r = RewardKindCollectible \<or> tk_reward_kind r = RewardKindBundle"

abbreviation escrowed :: "collectible_row \<Rightarrow> bool" where
  "escrowed x \<equiv> co_state x = CollectibleStateEscrowed"

definition liveTasks :: "(task_row \<Rightarrow> bool) \<Rightarrow> db \<Rightarrow> TaskID set" where
  "liveTasks P d = tk_id ` set (filter (\<lambda>r. live r \<and> P r) (tasks d))"

definition fundedTasks :: "db \<Rightarrow> TaskID set" where
  "fundedTasks d = tf_task ` set (task_funds d)"

definition holdingTasks :: "db \<Rightarrow> TaskID set" where
  "holdingTasks d = fst ` set (task_fund_collectibles d)"

definition escrowedCollectibles :: "db \<Rightarrow> CollectibleID set" where
  "escrowedCollectibles d = co_id ` set (filter escrowed (collectibles d))"

text \<open>\<open>X\<close> are the tasks being settled, for which the state of the task is not constrained.\<close>

definition custodyX :: "TaskID set \<Rightarrow> db \<Rightarrow> bool" where
  "custodyX X d \<longleftrightarrow> distinct (map tk_id (tasks d)) \<and> distinct (map co_id (collectibles d)) \<and>
     distinct (map snd (task_fund_collectibles d)) \<and>
     fundedTasks d \<subseteq> X \<union> liveTasks credit_reward d \<and>
     holdingTasks d \<subseteq> X \<union> liveTasks collectible_reward d \<and>
     snd ` set (task_fund_collectibles d) = escrowedCollectibles d"

definition custody_ok :: "db \<Rightarrow> bool" where
  "custody_ok d \<longleftrightarrow> custodyX {} d"

lemmas custody_views = liveTasks_def fundedTasks_def holdingTasks_def escrowedCollectibles_def

text \<open>A step of a settlement: custody outside \<open>X\<close> holds and nothing new is held.\<close>

definition settles :: "TaskID set \<Rightarrow> db \<Rightarrow> db \<Rightarrow> bool" where
  "settles X d d' \<longleftrightarrow> custodyX X d' \<and> fundedTasks d' \<subseteq> fundedTasks d \<and> holdingTasks d' \<subseteq> holdingTasks d"

lemma custody_books:
  assumes "books d' = books d"
  shows "custodyX X d' = custodyX X d" "fundedTasks d' = fundedTasks d" "holdingTasks d' = holdingTasks d"
  by (simp_all only: custodyX_def custody_views books_eqD [OF assms])

interpretation settle: tx_invariant "custodyX X" "settles X" for X
proof
  show "custodyX X d \<Longrightarrow> settles X d d" for d by (simp add: settles_def)
  show "\<lbrakk>settles X d d'; settles X d' d''\<rbrakk> \<Longrightarrow> settles X d d''" for d d' d'' by (auto simp: settles_def)
  show "settles X d d' \<Longrightarrow> custodyX X d'" for d d' by (simp add: settles_def)
  show "\<lbrakk>custodyX X d; books d' = books d\<rbrakk> \<Longrightarrow> settles X d d'" for d d'
    using custody_books [of d' d] by (simp add: settles_def)
qed

interpretation custody: tx_invariant custody_ok "\<lambda>_. custody_ok"
proof
  show "\<lbrakk>custody_ok d; books d' = books d\<rbrakk> \<Longrightarrow> custody_ok d'" for d d'
    using custody_books(1) [of d' d] by (simp add: custody_ok_def)
qed

lemma settles_custody: "settles {} d d' \<Longrightarrow> custody_ok d'"
  by (simp add: settles_def custody_ok_def)

text \<open>A settling body is a keeping body outside settlements.\<close>

lemma keeps_settle_custody: "keeps (custodyX {}) (settles {}) e Q m \<Longrightarrow> keeps custody_ok (\<lambda>_. custody_ok) e Q m"
  by (auto simp: keeps_def custody_ok_def settles_def elim!: wp_mono)

lemma custodyX_mono: "\<lbrakk>custodyX X d; X \<subseteq> Y\<rbrakk> \<Longrightarrow> custodyX Y d"
  unfolding custodyX_def by blast

lemma custodyX_close:
  "\<lbrakk>custodyX {t} d; t \<notin> fundedTasks d; t \<notin> holdingTasks d\<rbrakk> \<Longrightarrow> custody_ok d"
  by (auto simp: custodyX_def custody_ok_def)

section \<open>Statements\<close>

lemma custody_funds:
  assumes "custodyX X d" "tasks d' = tasks d" "collectibles d' = collectibles d"
    "task_fund_collectibles d' = task_fund_collectibles d" "fundedTasks d' \<subseteq> fundedTasks d"
  shows "settles X d d'"
  using assms(1,5)
  by (auto simp: settles_def custodyX_def liveTasks_def holdingTasks_def escrowedCollectibles_def assms(2-4))

lemma settle_ledger [safe_rules]:
  assumes "Q ()"
  shows "keeps (custodyX X) (settles X) e Q (execT err (insertLedger row))"
    "keeps (custodyX X) (settles X) e Q (execT err (deleteFund t))"
    "keeps (custodyX X) (settles X) e Q (execT err (setFundAmount t v))"
  by (rule settle.keeps_exec, rule custody_funds;
      auto simp: insertLedger_def deleteFund_def setFundAmount_def fundedTasks_def set_updateWhere assms split: if_splits)+

lemma settle_others [safe_rules]:
  assumes "Q ()"
  shows "keeps (custodyX X) (settles X) e Q (execT err (updateReservations p st))"
    "keeps (custodyX X) (settles X) e Q (execT err (insertReservation rv))"
    "keeps (custodyX X) (settles X) e Q (execT err (insertBan b))"
    "keeps (custodyX X) (settles X) e Q (execT err (updateSubmissions q h))"
    "keeps (custodyX X) (settles X) e Q (execU v err (updateSubmissions q h))"
  by (rule settle.keeps_exec settle.keeps_execU, rule custody_funds;
      auto simp: updateReservations_def insertReservation_def insertBan_def updateSubmissions_def Let_def
        fundedTasks_def assms split: if_splits)+

text \<open>A task row may change as long as it keeps what its escrow needs.\<close>

definition keepsEscrow :: "TaskID set \<Rightarrow> (task_row \<Rightarrow> bool) \<Rightarrow> (task_row \<Rightarrow> task_row) \<Rightarrow> bool" where
  "keepsEscrow X p f \<longleftrightarrow> (\<forall>r. tk_id (f r) = tk_id r) \<and> (\<forall>r. p r \<longrightarrow> tk_id r \<notin> X \<longrightarrow>
     (live r \<longrightarrow> live (f r)) \<and> (credit_reward r \<longrightarrow> credit_reward (f r)) \<and>
     (collectible_reward r \<longrightarrow> collectible_reward (f r)))"

lemma custody_tasks:
  assumes ok: "custodyX X d" and f: "keepsEscrow X p f"
    and d': "d' = d\<lparr>tasks := updateWhere p f (tasks d)\<rparr>"
  shows "settles X d d'"
proof -
  have step: "liveTasks P d - X \<subseteq> liveTasks P d'"
    if "\<And>r. \<lbrakk>p r; tk_id r \<notin> X; live r; P r\<rbrakk> \<Longrightarrow> live (f r) \<and> P (f r)" for P
  proof
    fix t assume "t \<in> liveTasks P d - X"
    then obtain r where r: "r \<in> set (tasks d)" "tk_id r = t" "live r" "P r" "t \<notin> X"
      by (auto simp: liveTasks_def)
    define r' where "r' = (if p r then f r else r)"
    have "r' \<in> set (tasks d')" using r(1) by (auto simp: r'_def d' set_updateWhere)
    moreover have "tk_id r' = t" "live r'" "P r'"
      using r that [of r] f by (auto simp: r'_def keepsEscrow_def)
    ultimately show "t \<in> liveTasks P d'" by (force simp: liveTasks_def)
  qed
  have same: "fundedTasks d' = fundedTasks d" "holdingTasks d' = holdingTasks d"
    "escrowedCollectibles d' = escrowedCollectibles d" "map tk_id (tasks d') = map tk_id (tasks d)"
    using f by (auto simp: d' fundedTasks_def holdingTasks_def escrowedCollectibles_def keepsEscrow_def)
  have "liveTasks credit_reward d - X \<subseteq> liveTasks credit_reward d'"
    "liveTasks collectible_reward d - X \<subseteq> liveTasks collectible_reward d'"
    by (rule step, use f in \<open>simp add: keepsEscrow_def\<close>)+
  with ok show ?thesis
    unfolding settles_def custodyX_def same by (auto simp: d')
qed

lemma settle_updateTask [safe_rules]:
  "\<lbrakk>keepsEscrow X (\<lambda>r. tk_id r = t) f; Q ()\<rbrakk> \<Longrightarrow> keeps (custodyX X) (settles X) e Q (execT err (updateTask t f))"
  by (rule settle.keeps_exec) (auto simp: updateTask_def intro: custody_tasks)

lemma settle_setTaskState [safe_rules]:
  "\<lbrakk>t \<in> X \<or> st = StateDraft \<or> st = StateOpen; \<And>k. Q k\<rbrakk>
    \<Longrightarrow> keeps (custodyX X) (settles X) e Q (setTaskState err t p st)"
  unfolding setTaskState_def
  by (rule settle.keeps_count,
      rule custody_tasks [where p = "\<lambda>r. tk_id r = t \<and> tk_state r = p" and f = "tk_state_update (\<lambda>_. st)"])
     (auto simp: keepsEscrow_def live_def credit_reward_def collectible_reward_def)

text \<open>Releasing what a task holds: every held collectible leaves escrow and its row is deleted.\<close>

definition releaseHeld :: "TaskID \<Rightarrow> (collectible_row \<Rightarrow> collectible_row) \<Rightarrow> db \<Rightarrow> db" where
  "releaseHeld t f d = d\<lparr>
     collectibles := updateWhere (\<lambda>r. (t, co_id r) \<in> set (task_fund_collectibles d)) f (collectibles d),
     task_fund_collectibles := deleteWhere (\<lambda>(t', c). t' = t) (task_fund_collectibles d)\<rparr>"

lemma custody_release:
  assumes ok: "custodyX X d" and f: "\<And>r. co_id (f r) = co_id r \<and> \<not> escrowed (f r)"
  shows "settles X d (releaseHeld t f d) \<and> t \<notin> holdingTasks (releaseHeld t f d)"
proof -
  let ?held = "task_fund_collectibles d"
  have held: "distinct (map snd ?held)" "snd ` set ?held = escrowedCollectibles d"
    using ok by (simp_all add: custodyX_def)
  have "c \<in> snd ` {h \<in> set ?held. fst h \<noteq> t} \<longleftrightarrow> c \<in> escrowedCollectibles (releaseHeld t f d)" for c
  proof -
    have unique: "t' = t''" if "(t', c) \<in> set ?held" "(t'', c) \<in> set ?held" for t' t''
      using that held(1) by (metis distinct_map inj_onD prod.inject snd_conv)
    have "set (filter escrowed (collectibles (releaseHeld t f d))) =
        {r \<in> set (collectibles d). escrowed r \<and> (t, co_id r) \<notin> set ?held}"
      using f by (auto simp: releaseHeld_def set_updateWhere split: if_splits)
    then have "c \<in> escrowedCollectibles (releaseHeld t f d) \<longleftrightarrow> c \<in> escrowedCollectibles d \<and> (t, c) \<notin> set ?held"
      unfolding escrowedCollectibles_def by auto
    also have "\<dots> \<longleftrightarrow> c \<in> snd ` {h \<in> set ?held. fst h \<noteq> t}"
      unfolding held(2) [symmetric] using unique by (auto intro: rev_image_eqI)
    finally show ?thesis ..
  qed
  then have esc: "snd ` {h \<in> set ?held. fst h \<noteq> t} = escrowedCollectibles (releaseHeld t f d)" by blast
  have del: "set (task_fund_collectibles (releaseHeld t f d)) = {h \<in> set ?held. fst h \<noteq> t}"
    by (auto simp: releaseHeld_def)
  have "map co_id (collectibles (releaseHeld t f d)) = map co_id (collectibles d)"
    using f by (simp add: releaseHeld_def)
  moreover have "distinct (map snd (task_fund_collectibles (releaseHeld t f d)))"
    using held(1) by (simp add: releaseHeld_def)
  moreover have "fundedTasks (releaseHeld t f d) = fundedTasks d" "tasks (releaseHeld t f d) = tasks d"
    by (simp_all add: releaseHeld_def fundedTasks_def)
  ultimately show ?thesis
    using ok del esc by (auto simp: settles_def custodyX_def holdingTasks_def liveTasks_def)
qed


section \<open>Settlement steps\<close>

definition heldIDs :: "TaskID \<Rightarrow> db \<Rightarrow> CollectibleID list" where
  "heldIDs t d = sort (map snd (filter (\<lambda>(t', c). t' = t) (task_fund_collectibles d)))"

lemma set_heldIDs: "set (heldIDs t d) = {c. (t, c) \<in> set (task_fund_collectibles d)}"
  by (force simp: heldIDs_def)

lemma heldIDs_empty: "heldIDs t d = [] \<longleftrightarrow> t \<notin> holdingTasks d"
proof -
  have "heldIDs t d = [] \<longleftrightarrow> {c. (t, c) \<in> set (task_fund_collectibles d)} = {}"
    unfolding set_heldIDs [symmetric] by simp
  then show ?thesis by (force simp: holdingTasks_def)
qed

lemma wp_held_exact:
  "\<lbrakk>Q (heldIDs t d) d; \<And>r. E r id\<rbrakk> \<Longrightarrow> wp e (heldFundCollectibleIDs t) Q E d"
  unfolding heldFundCollectibleIDs_def scanT_def heldIDs_def
  by (intro wp_bind wp_query wp_mapT_ret wp_ret) simp_all

definition updateAll :: "CollectibleID list \<Rightarrow> (collectible_row \<Rightarrow> collectible_row) \<Rightarrow> db \<Rightarrow> db" where
  "updateAll ids f d = d\<lparr>collectibles := updateWhere (\<lambda>r. co_id r \<in> set ids) f (collectibles d)\<rparr>"

lemma updateAll_Nil [simp]: "updateAll [] f d = d"
  by (simp add: updateAll_def updateWhere_def)

lemma updateAll_Cons:
  assumes "\<And>r. co_id (f r) = co_id r" "\<And>r. f (f r) = f r" "updateCollectible c f d = Some d1"
  shows "updateAll ids f d1 = updateAll (c # ids) f d"
proof -
  have "updateWhere (\<lambda>r. co_id r \<in> set ids) f (updateWhere (\<lambda>r. co_id r = c) f rows) =
      updateWhere (\<lambda>r. co_id r \<in> set (c # ids)) f rows" for rows
    using assms(1,2) by (induction rows) auto
  with assms(3) show ?thesis by (auto simp: updateAll_def updateCollectible_def)
qed

lemma wp_updateAll:
  assumes f: "\<And>r. co_id (f r) = co_id r" "\<And>r. f (f r) = f r" and "Q () (updateAll ids f d)" "E err id"
  shows "wp e (forT ids (\<lambda>c. execT err (updateCollectible c f))) Q E d"
  using assms(3)
proof (induction ids arbitrary: d)
  case Nil
  then show ?case by (simp add: wp_ret)
next
  case (Cons c ids)
  then show ?case by (auto intro!: wp_rules assms(4) Cons.IH simp: updateAll_Cons [OF f])
qed

lemma release_exact: "deleteHeld t (updateAll (heldIDs t d) f d) = Some (releaseHeld t f d)"
  by (simp add: deleteHeld_def updateAll_def releaseHeld_def set_heldIDs)

lemma settles_same: "\<lbrakk>custodyX X d; heldIDs t d = []\<rbrakk> \<Longrightarrow> settles X d d \<and> t \<notin> holdingTasks d"
  by (simp add: settle.step_refl heldIDs_empty)

lemma wp_refundHeld_settles:
  assumes "custodyX X d"
  shows "wp e (refundHeldCollectibleReward t) (\<lambda>_ d'. settles X d d' \<and> t \<notin> holdingTasks d') (\<lambda>_. quietly) d"
  unfolding refundHeldCollectibleReward_def
  by (intro wp_bind wp_held_exact wp_if wp_ret settles_same assms wp_updateAll wp_exec)
     (auto simp: release_exact custody_release [OF assms])

lemma wp_resolvePayout:
  assumes "\<And>out. (out = NoPayout) = (ids = []) \<Longrightarrow> Q out d" "\<And>r. E r id"
  shows "wp e (resolveCollectiblePayout w ids) Q E d"
proof -
  have "wp e (mapT ids (parseT ParseCollectibleID)) (\<lambda>cs s'. wp e (retT (CollectiblePayout v cs)) Q E s') E d"
    if "ids \<noteq> []" for v
    by (rule wp_map [where I = "\<lambda>t. t = d"]) (auto intro!: wp_rules assms simp: that)
  then show ?thesis
    unfolding resolveCollectiblePayout_def by (intro wp_rules assms) auto
qed

lemma wp_payOutCollectible_settles:
  assumes "custodyX X d"
  shows "wp e (payOutCollectible t w) (\<lambda>_ d'. settles X d d' \<and> t \<notin> holdingTasks d') (\<lambda>_. quietly) d"
  unfolding payOutCollectible_def
proof (intro wp_bind wp_held_exact wp_resolvePayout wp_if wp_ret, goal_cases)
  case (1 out)
  then show ?case using settles_same [OF assms] by simp
next
  case (2 out)
  show ?case
    by (intro wp_updateAll wp_rules) (auto simp: release_exact custody_release [OF assms])
qed simp_all


lemma wp_settles_and:
  assumes "keeps (custodyX X) (settles X) e (\<lambda>_. True) m" "custodyX X d" "wp e m (\<lambda>_. P) (\<lambda>_ _. True) d"
  shows "wp e m (\<lambda>_ d'. settles X d d' \<and> P d') (\<lambda>_. quietly) d"
proof -
  from assms(1,2) have "wp e m (\<lambda>_ d'. settles X d d' \<and> True) (\<lambda>_. quietly) d" by (simp add: keeps_def)
  from wp_conj [OF this assms(3)] show ?thesis by (rule wp_mono) auto
qed

lemma wp_refundFunding_settles:
  assumes "custodyX X d"
  shows "wp e (refundTaskCreditFunding t key) (\<lambda>_ d'. settles X d d' \<and> t \<notin> fundedTasks d') (\<lambda>_. quietly) d"
proof (rule wp_settles_and [OF _ assms])
  show "keeps (custodyX X) (settles X) e (\<lambda>_. True) (refundTaskCreditFunding t key)"
    unfolding refundTaskCreditFunding_def by (intro safe_rules)
  show "wp e (refundTaskCreditFunding t key) (\<lambda>_ d'. t \<notin> fundedTasks d') (\<lambda>_ _. True) d"
    unfolding refundTaskCreditFunding_def
    by (intro wp_rules) (auto simp: rowWhere_None fundedTasks_def deleteFund_def)
qed

lemma settle_settleRemaining [safe_rules]:
  "Q () \<Longrightarrow> keeps (custodyX X) (settles X) e Q (settleRemaining c acc r)"
  unfolding settleRemaining_def by (intro safe_rules)

lemma settle_lockWorkerAccount [safe_rules]:
  "(\<And>a. Q a) \<Longrightarrow> keeps (custodyX X) (settles X) e Q (lockWorkerAccount w)"
  unfolding lockWorkerAccount_def by (intro safe_rules)

context tx_invariant
begin

lemma keeps_case_selection [safe_rules]:
  "\<lbrakk>keeps I R e Q m; \<And>a. keeps I R e Q (k a); keeps I R e Q m'\<rbrakk> \<Longrightarrow> keeps I R e Q
     (case x of FullCreditReviewSelection \<Rightarrow> m | PartialCreditReviewSelection a \<Rightarrow> k a | NoCreditReviewSelection \<Rightarrow> m')"
  by (cases x) simp_all

end

lemma settle_payReviewFund [safe_rules]:
  "(\<And>a. Q a) \<Longrightarrow> keeps (custodyX X) (settles X) e Q (payReviewFund c)"
  unfolding payReviewFund_def by (intro safe_rules) auto

lemma wp_payReviewFund_settles:
  assumes "custodyX X d" "rf_close c" "rf_selection c \<noteq> NoCreditReviewSelection"
  shows "wp e (payReviewFund c) (\<lambda>_ d'. settles X d d' \<and> rf_task c \<notin> fundedTasks d') (\<lambda>_. quietly) d"
proof (rule wp_settles_and [OF settle_payReviewFund assms(1)])
  have close: "wp e (settleRemaining c acc r) (\<lambda>_ d'. rf_task c \<notin> fundedTasks d') (\<lambda>_ _. True) d1" for acc r d1
    unfolding settleRemaining_def Let_def
    by (intro wp_rules) (use assms(2) in \<open>auto simp: fundedTasks_def deleteFund_def\<close>)
  show "wp e (payReviewFund c) (\<lambda>_ d'. rf_task c \<notin> fundedTasks d') (\<lambda>_ _. True) d"
    unfolding payReviewFund_def
  proof (intro wp_rules TrueI, goal_cases)
    case 1
    then show ?case using assms(3) by simp
  next
    case 2
    then show ?case
      by (cases "rf_selection c") (auto intro!: wp_rules simp: rowWhere_None fundedTasks_def)
  next
    case 3
    show ?case by (rule wp_mono [OF close]) (auto intro!: wp_rules)
  qed
qed simp

lemma wp_seg:
  assumes "wp e m (\<lambda>_ d1. settles X d d1 \<and> P d1) (\<lambda>_. quietly) d"
    "\<And>a d1. \<lbrakk>settles X d d1; P d1\<rbrakk> \<Longrightarrow> wp e (k a) Q (\<lambda>_. quietly) d1"
  shows "wp e (bindT m k) Q (\<lambda>_. quietly) d"
  by (rule wp_bind, rule wp_mono [OF assms(1)]) (use assms(2) in auto)

lemma wp_seg_keeps:
  assumes "keeps (custodyX X) (settles X) e (\<lambda>_. True) m" "custodyX X d"
    "\<And>a d1. settles X d d1 \<Longrightarrow> wp e (k a) Q (\<lambda>_. quietly) d1"
  shows "wp e (bindT m k) Q (\<lambda>_. quietly) d"
  by (rule wp_seg [where P = "\<lambda>_. True"]) (use assms in \<open>auto simp: keeps_def\<close>)

text \<open>Once nothing is held for the task any more, custody holds again.\<close>

lemma wp_settled:
  assumes "keeps (custodyX {t}) (settles {t}) e Q m" "custodyX {t} d" "t \<notin> fundedTasks d" "t \<notin> holdingTasks d"
  shows "wp e m (\<lambda>a d'. custody_ok d' \<and> Q a) (\<lambda>_. quietly) d"
proof -
  from assms(1,2) have "wp e m (\<lambda>a d'. settles {t} d d' \<and> Q a) (\<lambda>_. quietly) d" by (simp add: keeps_def)
  then show ?thesis
    by (rule wp_mono) (use assms(3,4) in \<open>auto simp: settles_def intro!: custodyX_close [of t]\<close>)
qed


section \<open>The transactions that end a task\<close>

abbreviation guarded :: "env \<Rightarrow> ('a \<Rightarrow> bool) \<Rightarrow> ('r, 'a) dbtx \<Rightarrow> bool" where
  "guarded \<equiv> keeps custody_ok (\<lambda>_. custody_ok)"

lemma keepsEscrow_settled: "keepsEscrow {t} (\<lambda>r. tk_id r = t) (\<lambda>r. r\<lparr>tk_state := st\<rparr>)"
  by (simp add: keepsEscrow_def)

lemma settle_payCreditTip [safe_rules]:
  "(\<And>a. Q a) \<Longrightarrow> keeps (custodyX X) (settles X) e Q (payCreditTip t rv w de ce k sel)"
  unfolding payCreditTip_def
  by (cases sel; cases rv) (simp_all, (intro safe_rules; simp)+)

lemma custody_owner:
  assumes "custodyX X d" "updateCollectible c f d = Some d'" "\<And>r. co_id (f r) = co_id r \<and> co_state (f r) = co_state r"
  shows "settles X d d'"
proof -
  have "map co_id (filter escrowed (updateWhere p f rows)) = map co_id (filter escrowed rows)" for p rows
    using assms(3) by (induction rows) auto
  then have "map co_id (filter escrowed (collectibles d')) = map co_id (filter escrowed (collectibles d))"
    using assms(2) by (auto simp: updateCollectible_def)
  then have "escrowedCollectibles d' = escrowedCollectibles d"
    unfolding escrowedCollectibles_def set_map [symmetric] by (rule arg_cong)
  moreover have "map co_id (collectibles d') = map co_id (collectibles d)"
    using assms(2,3) by (auto simp: updateCollectible_def)
  moreover have "tasks d' = tasks d" "task_funds d' = task_funds d" "task_fund_collectibles d' = task_fund_collectibles d"
    using assms(2) by (auto simp: updateCollectible_def)
  ultimately show ?thesis
    using assms(1) by (simp add: settles_def custodyX_def liveTasks_def fundedTasks_def holdingTasks_def)
qed

lemma settle_payCollectibleTip [safe_rules]:
  "(\<And>a. Q a) \<Longrightarrow> keeps (custodyX X) (settles X) e Q (payCollectibleTip rv w sel)"
  unfolding payCollectibleTip_def
  by (cases sel; cases rv)
     (simp_all, (intro safe_rules settle.keeps_exec; (erule (1) custody_owner)?; simp)+)

lemma guarded_acceptAndPay:
  assumes sel: "ac_credit c \<noteq> NoCreditReviewSelection" and "\<And>a. Q a"
  shows "guarded e Q (acceptAndPay c k w)"
proof (rule keepsI)
  fix d assume "custody_ok d"
  then have d: "custodyX {ac_task c} d" by (auto simp: custody_ok_def intro: custodyX_mono)
  show "wp e (acceptAndPay c k w) (\<lambda>a d'. custody_ok d' \<and> Q a) (\<lambda>_. quietly) d"
    unfolding acceptAndPay_def
  proof (rule wp_seg_keeps [OF _ d], goal_cases)
    case (2 a1 d1)
    show ?case
    proof (rule wp_seg_keeps [where X = "{ac_task c}"], goal_cases)
      case (3 a2 d2)
      then have d2: "custodyX {ac_task c} d2" by (simp add: settles_def)
      show ?case
      proof (rule wp_seg [OF wp_lift], unfold payOutEscrow_def,
          rule wp_payReviewFund_settles [OF d2, of "acceptFundCommand c w"], goal_cases)
        case (3 payout d3)
        then have d3: "custodyX {ac_task c} d3" "ac_task c \<notin> fundedTasks d3"
          by (simp_all add: settles_def acceptFundCommand_def)
        show ?case
        proof (rule wp_seg [OF wp_lift], rule wp_payOutCollectible_settles [OF d3(1)], goal_cases)
          case (1 out d4)
          show ?case
            by (rule wp_settled [where t = "ac_task c"]) (use 1 d3 assms(2) in \<open>(intro safe_rules; simp) | auto simp: settles_def\<close>)+
        qed
      qed (use sel in \<open>simp_all add: acceptFundCommand_def\<close>)
    qed (use 2 in \<open>auto simp: settles_def intro!: safe_rules keepsEscrow_settled\<close>)
  qed (intro safe_rules)
qed


text \<open>Outside a settlement, whatever settles nothing keeps custody.\<close>

lemmas guarded_writes [safe_rules] =
  settle_ledger [where X = "{}", THEN keeps_settle_custody] settle_others [where X = "{}", THEN keeps_settle_custody]
  settle_updateTask [where X = "{}", THEN keeps_settle_custody] settle_setTaskState [where X = "{}", THEN keeps_settle_custody]
  settle_payReviewFund [where X = "{}", THEN keeps_settle_custody] settle_payCreditTip [where X = "{}", THEN keeps_settle_custody]
  settle_payCollectibleTip [where X = "{}", THEN keeps_settle_custody]

lemma guarded_supersede [safe_rules]: "(\<And>a. Q a) \<Longrightarrow> guarded e Q (supersedeCompetingSubmissions t s ac)"
  unfolding supersedeCompetingSubmissions_def by (intro safe_rules)

lemmas guarded_run = custody.keeps_run [THEN conjunct1]

lemma guarded_AcceptSubmission:
  assumes "AcceptSubmission c e n d = (r, d')" "custody_ok d" "ac_credit c \<noteq> NoCreditReviewSelection"
  shows "custody_ok d'"
  by (rule guarded_run [OF assms(1) [unfolded AcceptSubmission_def] assms(2), where success = accepted])
     (intro safe_rules guarded_acceptAndPay assms(3) | simp)+

lemma guarded_RequestChanges:
  assumes "RequestChanges c e n d = (r, d')" "custody_ok d"
  shows "custody_ok d'"
  by (rule guarded_run [OF assms(1) [unfolded RequestChanges_def] assms(2), where success = changesRequested])
     (intro safe_rules | simp)+

lemma guarded_ban [safe_rules]: "Q () \<Longrightarrow> guarded e Q (banImplementor c w)"
  unfolding banImplementor_def by (cases "jc_ban c") (auto intro!: safe_rules)

lemma guarded_RejectSubmission:
  assumes "RejectSubmission c e n d = (r, d')" "custody_ok d"
  shows "custody_ok d'"
  by (rule guarded_run [OF assms(1) [unfolded RejectSubmission_def] assms(2), where success = rejected])
     (intro safe_rules | simp)+

lemma reads_lockGrantAccount: "reads e (lockGrantAccount g)"
  by (auto intro!: readsI wp_rules)

lemma guarded_GrantCredits:
  assumes "GrantCredits c e n d = (r, d')" "custody_ok d"
  shows "custody_ok d'"
  by (rule guarded_run [OF assms(1) [unfolded GrantCredits_def grantEntry_def] assms(2), where success = granted])
     (intro safe_rules custody.keeps_reads [OF reads_lockGrantAccount] | simp)+

lemma guarded_PeerTransfer:
  assumes "PeerTransfer c e n d = (r, d')" "custody_ok d"
  shows "custody_ok d'"
proof (cases "refKey (transferSourceRef (pc_source c) (pc_actor c)) = refKey (transferTargetRef (pc_target c))")
  case True
  with assms show ?thesis by (auto simp: PeerTransfer_def)
next
  case False
  with assms(1) have run: "runT (SendRejected (invalidState ''begin peer transfer transaction failed''))
      (transferTx c (transferSourceRef (pc_source c) (pc_actor c)) (transferTargetRef (pc_target c))) e n d = (r, d')"
    by (simp add: PeerTransfer_def)
  show ?thesis
    by (rule guarded_run [OF run assms(2), where success = sent])
       (unfold transferTx_def sendFresh_def, (intro safe_rules | simp)+)
qed

section \<open>Refunds and cancellations\<close>

lemma guarded_settle:
  assumes refund: "\<And>d. custodyX {t} d \<Longrightarrow>
       wp e m (\<lambda>_ d'. settles {t} d d' \<and> t \<notin> fundedTasks d' \<and> t \<notin> holdingTasks d') (\<lambda>_. quietly) d"
    and tail: "\<And>a. keeps (custodyX {t}) (settles {t}) e Q (k a)"
  shows "guarded e Q (bindT m k)"
proof (rule keepsI)
  fix d assume "custody_ok d"
  then have "custodyX {t} d" by (auto simp: custody_ok_def intro: custodyX_mono)
  from refund [OF this] show "wp e (bindT m k) (\<lambda>a d'. custody_ok d' \<and> Q a) (\<lambda>_. quietly) d"
    by (rule wp_seg) (use wp_settled [OF tail] in \<open>auto simp: settles_def\<close>)
qed

lemma wp_settleFunded:
  assumes d: "custodyX X d"
  shows "wp e (bindT (refundTaskCreditFunding t key) (\<lambda>_. refundHeldCollectibleReward t))
     (\<lambda>_ d'. settles X d d' \<and> t \<notin> fundedTasks d' \<and> t \<notin> holdingTasks d') (\<lambda>_. quietly) d"
proof (rule wp_bind, rule wp_mono [OF wp_refundFunding_settles [OF d]])
  fix a d1 assume 1: "settles X d d1 \<and> t \<notin> fundedTasks d1"
  then have "custodyX X d1" by (simp add: settles_def)
  then show "wp e (refundHeldCollectibleReward t)
      (\<lambda>_ d'. settles X d d' \<and> t \<notin> fundedTasks d' \<and> t \<notin> holdingTasks d') (\<lambda>_. quietly) d1"
    by (rule wp_mono [OF wp_refundHeld_settles]) (use 1 in \<open>auto simp: settles_def\<close>)
qed

lemma settle_release [safe_rules]:
  "Q () \<Longrightarrow> keeps (custodyX X) (settles X) e Q (releaseReservationsOnCancel t)"
  unfolding releaseReservationsOnCancel_def by (intro safe_rules)

lemma guarded_expireLockedTask:
  assumes "\<And>a. Q a" "ParseTaskID e raw = Inr t" "t = raw"
  shows "guarded e Q (expireLockedTask raw t u)"
  unfolding expireLockedTask_def refundExpiredTaskFunding_def
  by (intro custody.keeps_bind safe_rules guarded_settle [where t = t] wp_lift wp_settleFunded)
     (simp_all add: assms)

lemma settle_countReservations [safe_rules]:
  "(\<And>k. Q k) \<Longrightarrow> keeps (custodyX X) (settles X) e Q (countT err c (updateReservations p st))"
  by (rule settle.keeps_count, rule custody_funds)
     (auto simp: updateReservations_def Let_def fundedTasks_def split: if_splits)

lemmas guarded_countReservations [safe_rules] = settle_countReservations [where X = "{}", THEN keeps_settle_custody]

lemma guarded_releaseInTx [safe_rules]: "(\<And>ds. Q ds) \<Longrightarrow> guarded e Q releaseExpiredReservationsInTx"
  unfolding releaseExpiredReservationsInTx_def by (intro safe_rules)

lemma guarded_createReservationTx [safe_rules]: "Q () \<Longrightarrow> guarded e Q (createReservationTx i c)"
  unfolding createReservationTx_def by (intro safe_rules)

lemma guarded_changeReservationStateTx [safe_rules]:
  "(\<And>ds. Q ds) \<Longrightarrow> guarded e Q (changeReservationStateTx t i st plan)"
  unfolding changeReservationStateTx_def by (intro safe_rules)

text \<open>The states the service asks for: open, unpublished back to draft, cancelled.\<close>

lemma guarded_cancel:
  assumes "\<And>a. keeps (custodyX {t}) (settles {t}) e Q (k a)"
  shows "guarded e Q (bindT (settleCancel t) k)"
proof -
  have eq: "bindT (settleCancel t) k = bindT (settleFundedTaskOnCancel t)
      (\<lambda>_. bindT (bindT (lockedReservationHolders t) (\<lambda>holders. bindT (releaseReservationsOnCancel t) (\<lambda>_. retT holders))) k)"
    unfolding settleCancel_def by (intro ext) (simp add: bindT_def split: prod.split outcome.split)
  show ?thesis
    unfolding eq settleFundedTaskOnCancel_def
    by (intro guarded_settle [where t = t] wp_settleFunded) (auto intro!: safe_rules assms)
qed

lemma guarded_changeTaskStateTx:
  assumes "st \<in> {StateDraft, StateOpen, StateCancelled}" "\<And>a. Q a"
  shows "guarded e Q (changeTaskStateTx t st plan)"
proof -
  have tail: "keeps (custodyX X) (settles X) e Q
     (bindT (setTaskState (invalidState ''change task state failed'') t p st)
        (\<lambda>commandTag. if commandTag \<noteq> 1 then raiseT (conflict ''task state was not changed'')
          else case plan of NoEvent \<Rightarrow> retT []
             | Record draft \<Rightarrow> bindT (parseReviewWorker u)
                 (\<lambda>creatorID. let merged = WithRecipients draft (creatorID # hs)
                   in bindT (recordEventDraftInTx (invalidState ''record task state event failed'') merged)
                       (\<lambda>_. retT [merged]))))"
    if "t \<in> X \<or> st \<noteq> StateCancelled" for X p u hs
    by (intro safe_rules assms(2)) (use that assms(1) in auto)
  show ?thesis
  proof (cases "st = StateCancelled")
    case True
    show ?thesis
      unfolding changeTaskStateTx_def True if_P [OF refl]
      by (rule custody.keeps_bind, intro safe_rules, rule custody.keeps_case_option, intro safe_rules,
          rule custody.keeps_bind, intro safe_rules, rule guarded_cancel, rule tail [unfolded True], simp)
  next
    case False
    then show ?thesis
      unfolding changeTaskStateTx_def if_not_P [OF False]
      by (intro safe_rules assms(2)) (use assms(1) in auto)
  qed
qed


lemma wp_deleteFund_settles:
  assumes "custodyX X d"
  shows "wp e (execT err (deleteFund t)) (\<lambda>_ d'. settles X d d' \<and> t \<notin> fundedTasks d') (\<lambda>_. quietly) d"
  by (rule wp_settles_and [OF settle_ledger(2) assms]) (auto intro!: wp_rules simp: deleteFund_def fundedTasks_def)

lemma guarded_clear:
  assumes d: "custodyX {t} d" and tail: "\<And>a. keeps (custodyX {t}) (settles {t}) e Q (k a)"
  shows "wp e (bindT (execT err (deleteFund t)) (\<lambda>_. bindT (liftT w (refundHeldCollectibleReward t)) k))
     (\<lambda>a d'. custody_ok d' \<and> Q a) (\<lambda>_. quietly) d"
proof (rule wp_seg [OF wp_deleteFund_settles [OF d]])
  fix a d1 assume 1: "settles {t} d d1" "t \<notin> fundedTasks d1"
  then have d1: "custodyX {t} d1" by (simp add: settles_def)
  show "wp e (bindT (liftT w (refundHeldCollectibleReward t)) k) (\<lambda>a d'. custody_ok d' \<and> Q a) (\<lambda>_. quietly) d1"
    by (rule wp_seg [OF wp_lift], rule wp_refundHeld_settles [OF d1], rule wp_settled [OF tail])
       (use 1 in \<open>auto simp: settles_def\<close>)
qed

lemma guarded_refundFund [safe_rules]:
  "guarded e (\<lambda>(x, v). \<not> refunded x \<and> refunded v) (refundFund c b f)"
proof (rule keepsI)
  fix d assume "custody_ok d"
  then have d: "custodyX {uc_task c} d" by (auto simp: custody_ok_def intro: custodyX_mono)
  have inv: "custodyX {uc_task c} d2" if "settles {uc_task c} d1 d2" for d1 d2
    using that by (simp add: settles_def)
  show "wp e (refundFund c b f) (\<lambda>a d'. custody_ok d' \<and> (case a of (x, v) \<Rightarrow> \<not> refunded x \<and> refunded v)) (\<lambda>_. quietly) d"
    unfolding refundFund_def
  proof (rule wp_seg_keeps [OF _ d], goal_cases)
    case (2 a1 d1)
    note 1 = inv [OF 2]
    show ?case
    proof (rule wp_if, rule wp_raise, simp, rule wp_seg_keeps [OF _ 1], goal_cases)
      case (2 a2 d2)
      note 2 = inv [OF 2(2)]
      show ?case
      proof (rule wp_seg_keeps [OF _ 2], goal_cases)
        case (2 a3 d3)
        show ?case by (rule guarded_clear [OF inv [OF 2]]) (intro safe_rules keepsEscrow_settled | simp)+
      qed (intro safe_rules)
    qed (intro safe_rules)
  qed (intro safe_rules)
qed

lemma guarded_RefundTask:
  assumes "RefundTask c e n d = (r, d')" "custody_ok d"
  shows "custody_ok d'"
  by (rule guarded_run [OF assms(1) [unfolded RefundTask_def] assms(2), where success = refunded])
     (intro safe_rules | simp)+

section \<open>Taking into escrow\<close>

lemma guarded_ownership [safe_rules]:
  "\<lbrakk>\<And>r. co_id (f r) = co_id r \<and> co_state (f r) = co_state r; Q ()\<rbrakk> \<Longrightarrow> guarded e Q (execT err (updateCollectible c f))"
  by (rule keeps_settle_custody, rule settle.keeps_exec) (auto intro: custody_owner)

lemma guarded_GiftCollectible:
  assumes "GiftCollectible c u v dr e n d = (r, d')" "custody_ok d"
  shows "custody_ok d'"
  by (rule guarded_run [OF assms(1) [unfolded GiftCollectible_def] assms(2), where success = "\<lambda>r. \<exists>x ds. r = CollectibleGifted x ds"])
     (intro safe_rules | simp)+

lemma guarded_AwardOrganizationCollectible:
  assumes "AwardOrganizationCollectible c i v dr e n d = (r, d')" "custody_ok d"
  shows "custody_ok d'"
  by (rule guarded_run [OF assms(1) [unfolded AwardOrganizationCollectible_def] assms(2),
        where success = "\<lambda>r. \<exists>x ds. r = CollectibleGifted x ds"])
     (intro safe_rules | simp)+


text \<open>A task ready to be funded: custody holds and the task is live with a reward of the kind.\<close>

definition ready :: "(task_row \<Rightarrow> bool) \<Rightarrow> TaskID \<Rightarrow> db \<Rightarrow> bool" where
  "ready P t d \<longleftrightarrow> custody_ok d \<and> t \<in> liveTasks P d"

interpretation ready: tx_invariant "ready P t" "\<lambda>_. ready P t" for P t
proof
  show "\<lbrakk>ready P t d; books d' = books d\<rbrakk> \<Longrightarrow> ready P t d'" for d d'
    using custody_books(1) [of d' d "{}"] books_eqD(5) [of d' d] by (simp add: ready_def custody_ok_def liveTasks_def)
qed

lemma wp_ready_seg:
  assumes "keeps (ready P t) (\<lambda>_. ready P t) e (\<lambda>_. True) m" "ready P t d"
    "\<And>a d1. ready P t d1 \<Longrightarrow> wp e (k a) Q (\<lambda>_. quietly) d1"
  shows "wp e (bindT m k) Q (\<lambda>_. quietly) d"
  by (rule wp_bind, rule wp_mono [OF assms(1) [unfolded keeps_def, rule_format, OF assms(2)]]) (use assms(3) in auto)

lemma updateTask_row:
  assumes "custody_ok d" "taskById t d = Some r"
  shows "updateWhere (\<lambda>x. tk_id x = t) f (tasks d) = updateWhere (\<lambda>x. x = r) f (tasks d)"
proof -
  have r: "r \<in> set (tasks d)" "tk_id r = t" using assms(2) by (auto dest: rowWhere_SomeD)
  have "x = r" if "x \<in> set (tasks d)" "tk_id x = t" for x
    using assms(1) r that by (auto simp: custody_ok_def custodyX_def distinct_map inj_on_def)
  with r(2) have eq: "(tk_id x = t) = (x = r)" if "x \<in> set (tasks d)" for x using that by metis
  show ?thesis unfolding updateWhere_def by (rule map_cong) (simp_all add: eq)
qed

lemma ready_update:
  assumes ok: "custody_ok d" and r: "taskById t d = Some r" and upd: "updateTask t f d = Some d'"
    and f: "keepsEscrow {} (\<lambda>x. x = r) f" and P: "live (f r)" "P (f r)"
  shows "ready P t d'"
proof -
  have d': "d' = d\<lparr>tasks := updateWhere (\<lambda>x. x = r) f (tasks d)\<rparr>"
    using upd updateTask_row [OF ok r] by (simp add: updateTask_def)
  have "f r \<in> set (tasks d')" "tk_id (f r) = t"
    using r f by (auto simp: d' set_updateWhere keepsEscrow_def dest: rowWhere_SomeD)
  with P have "t \<in> liveTasks P d'" by (force simp: liveTasks_def)
  moreover have "custody_ok d'"
    using custody_tasks [OF ok [unfolded custody_ok_def] f d'] by (rule settles_custody)
  ultimately show ?thesis by (simp add: ready_def)
qed

lemma ready_row: "\<lbrakk>custody_ok d; taskById t d = Some r; live r; P r\<rbrakk> \<Longrightarrow> ready P t d"
  unfolding ready_def liveTasks_def by (auto dest!: rowWhere_SomeD)

lemma wp_requireFundable_ready:
  assumes ok: "custody_ok d" and r: "taskById t d = Some r"
  shows "wp e (requireFundableTask t (taskLocked_of r) a) (\<lambda>_. ready credit_reward t) (\<lambda>_. quietly) d"
  unfolding requireFundableTask_def
proof (intro wp_rules quietly_id, goal_cases)
  case (1 x)
  then show ?case
    by (intro ready_row [OF ok r])
       (auto simp: requireCreditRewardFunding_def taskLocked_of_def live_def credit_reward_def
          split: RewardKind.splits if_splits)
next
  case (2 x kind d')
  then show ?case
    by (intro ready_update [OF ok r 2(4)])
       (auto simp: requireCreditRewardFunding_def taskLocked_of_def live_def credit_reward_def collectible_reward_def
          keepsEscrow_def split: RewardKind.splits if_splits)
qed

lemma custody_insertFund:
  assumes "ready credit_reward t d" "insertFund f d = Some d'" "tf_task f = t"
  shows "custody_ok d'"
proof -
  have "fundedTasks d' = insert t (fundedTasks d)" and same: "tasks d' = tasks d" "collectibles d' = collectibles d"
      "task_fund_collectibles d' = task_fund_collectibles d"
    using assms(2,3) by (auto simp: insertFund_def fundedTasks_def split: if_splits)
  then show ?thesis
    using assms(1) unfolding ready_def custody_ok_def custodyX_def
    by (simp add: liveTasks_def holdingTasks_def escrowedCollectibles_def)
qed

lemma guarded_ledger_stmt: "\<lbrakk>custody_ok d; insertLedger row d = Some d'\<rbrakk> \<Longrightarrow> custody_ok d'"
  by (rule settles_custody, rule custody_funds [of "{}" d])
     (auto simp: insertLedger_def custody_ok_def fundedTasks_def split: if_splits)

lemma guarded_books: "\<lbrakk>custody_ok d; books d' = books d\<rbrakk> \<Longrightarrow> custody_ok d'"
  by (simp add: custody_ok_def custody_books(1) [of d' d])

lemma wp_completeFunding_ready:
  assumes "ready credit_reward t d"
  shows "wp e (completeFunding acc t a i k msg dr) (\<lambda>x d'. custody_ok d' \<and> (case x of (c, v) \<Rightarrow> \<not> funded c \<and> funded v))
    (\<lambda>_. quietly) d"
  unfolding completeFunding_def
  by (intro wp_rules quietly_id conjI, erule guarded_books [rotated], erule guarded_ledger_stmt [rotated],
      rule custody_insertFund [OF assms]) (assumption | simp)+

lemma guarded_FundTask:
  assumes "FundTask c e n d = (r, d')" "custody_ok d"
  shows "custody_ok d'"
proof (rule guarded_run [OF assms(1) [unfolded FundTask_def] assms(2), where success = funded], goal_cases)
  case 1
  show ?case
  proof (intro custody.keeps_bind [OF _ keepsI], goal_cases)
    case (2 account d)
    show ?case
      by (intro wp_bind wp_findFundForKey wp_lift wp_lockTaskOwnedBy quietly_id,
          rule wp_mono [OF wp_requireFundable_ready [OF 2]], assumption,
          rule wp_ready_seg, intro safe_rules, assumption, rule wp_completeFunding_ready, assumption) simp_all
  qed (intro safe_rules)
qed simp

lemma guarded_FundTaskFromOrganization:
  assumes "FundTaskFromOrganization c e n d = (r, d')" "custody_ok d"
  shows "custody_ok d'"
proof (rule guarded_run [OF assms(1) [unfolded FundTaskFromOrganization_def] assms(2), where success = funded], goal_cases)
  case 1
  show ?case
  proof (intro custody.keeps_bind [OF _ keepsI], goal_cases)
    case (2 account d)
    show ?case
      by (intro wp_bind wp_findFundForKey wp_lift wp_lockTaskOwnedByOrganization quietly_id,
          rule wp_mono [OF wp_requireFundable_ready [OF 2]], assumption,
          rule wp_ready_seg, intro safe_rules, assumption, rule wp_ready_seg, intro safe_rules, assumption,
          rule wp_completeFunding_ready, assumption) simp_all
  qed (intro safe_rules)
qed simp

lemma escrow_one:
  "co_id ` set (filter escrowed (updateWhere (\<lambda>r. co_id r = c) (\<lambda>r. r\<lparr>co_state := CollectibleStateEscrowed\<rparr>) rows)) =
     (if c \<in> co_id ` set rows then {c} else {}) \<union> co_id ` set (filter escrowed rows)"
  by (induction rows) auto

lemma custody_hold:
  assumes ready: "ready collectible_reward t d" and c: "c \<in> co_id ` set (collectibles d)"
    and upd: "updateCollectible c (\<lambda>r. r\<lparr>co_state := CollectibleStateEscrowed\<rparr>) d = Some d1"
    and ins: "insertHeld t c d1 = Some d2"
  shows "custody_ok d2"
proof -
  have "collectibles d2 = updateWhere (\<lambda>r. co_id r = c) (\<lambda>r. r\<lparr>co_state := CollectibleStateEscrowed\<rparr>) (collectibles d)"
    using upd ins by (auto simp: updateCollectible_def insertHeld_def split: if_splits)
  then have "escrowedCollectibles d2 = insert c (escrowedCollectibles d)"
    using c unfolding escrowedCollectibles_def by (simp only: escrow_one if_True) simp
  moreover have "map co_id (collectibles d2) = map co_id (collectibles d)" "tasks d2 = tasks d" "task_funds d2 = task_funds d"
    "task_fund_collectibles d2 = task_fund_collectibles d @ [(t, c)]" "c \<notin> snd ` set (task_fund_collectibles d)"
    using upd ins by (auto simp: updateCollectible_def insertHeld_def split: if_splits)
  ultimately show ?thesis
    using ready unfolding ready_def custody_ok_def custodyX_def
    by (simp add: liveTasks_def holdingTasks_def fundedTasks_def)
qed

lemma wp_hold_ready:
  assumes "ready collectible_reward t d" "c \<in> co_id ` set (collectibles d)"
  shows "wp e (holdCollectibleForTask t c) (\<lambda>_. custody_ok) (\<lambda>_. quietly) d"
  unfolding holdCollectibleForTask_def
  by (intro wp_rules quietly_id, rule custody_hold [OF assms]) simp_all

lemma wp_collectible_kind:
  assumes ok: "custody_ok d" and r: "taskById t d = Some r" and draft: "tk_state r = StateDraft"
  shows "wp e (case tk_reward_kind r of
       RewardKindNone \<Rightarrow> execT err (updateTask t (\<lambda>r. r\<lparr>tk_reward_kind := RewardKindCollectible\<rparr>))
     | RewardKindCredit \<Rightarrow> execT err (updateTask t (\<lambda>r. r\<lparr>tk_reward_kind := RewardKindBundle\<rparr>))
     | RewardKindCollectible \<Rightarrow> retT () | RewardKindBundle \<Rightarrow> retT ())
    (\<lambda>_ d'. ready collectible_reward t d' \<and> collectibles d' = collectibles d) (\<lambda>_. quietly) d"
proof (cases "tk_reward_kind r")
  case RewardKindNone
  then show ?thesis using draft
    by (auto intro!: wp_rules ready_update [OF ok r] simp: keepsEscrow_def live_def credit_reward_def
        collectible_reward_def updateTask_def)
next
  case RewardKindCredit
  then show ?thesis using draft
    by (auto intro!: wp_rules ready_update [OF ok r] simp: keepsEscrow_def live_def credit_reward_def
        collectible_reward_def updateTask_def)
qed (use draft in \<open>auto intro!: wp_rules ready_row [OF ok r] simp: live_def collectible_reward_def\<close>)

lemma guarded_FundCollectibleReward:
  assumes "FundCollectibleReward c u t e n d = (r, d')" "custody_ok d"
  shows "custody_ok d'"
proof (rule guarded_run [OF assms(1) [unfolded FundCollectibleReward_def] assms(2),
      where success = "\<lambda>r. \<exists>x. r = RewardFunded x"], goal_cases)
  case 1
  show ?case
  proof (rule keepsI, intro wp_bind wp_lift wp_requireEscrowable wp_lockTaskOwnedBy wp_if wp_raise wp_let quietly_id, goal_cases)
    case (1 d x r)
    then show ?case
      by (simp only: taskLocked_of_def taskLocked.simps)
         (rule wp_mono [OF wp_collectible_kind], assumption, assumption, simp add: taskLocked_of_def,
          intro wp_bind wp_lift wp_ret,
          rule wp_mono [OF wp_hold_ready], auto dest: rowWhere_SomeD intro: wp_ret)
  qed
qed simp


lemma wp_updateAll_map:
  assumes f: "\<And>r. co_id (f r) = co_id r" "\<And>r. f (f r) = f r" and "\<And>ys. Q ys (updateAll ids f d)" "\<And>r. E r id"
  shows "wp e (mapT ids (\<lambda>c. bindT (execT err (updateCollectible c f)) (\<lambda>_. liftT w (findCollectible c)))) Q E d"
  using assms(3)
proof (induction ids arbitrary: d Q)
  case Nil
  then show ?case by (simp add: wp_ret)
next
  case (Cons c ids)
  have "wp e (mapT ids (\<lambda>c. bindT (execT err (updateCollectible c f)) (\<lambda>_. liftT w (findCollectible c))))
      (\<lambda>ys. wp e (retT (y # ys)) Q E) E d1" if "updateCollectible c f d = Some d1" for d1 y
    by (intro Cons.IH wp_ret) (use Cons.prems updateAll_Cons [OF f that] in simp)
  then show ?case by (auto intro!: wp_rules assms(4))
qed

lemma collectible_unfunded:
  assumes ok: "custody_ok d" and r: "taskById t d = Some r" "tk_reward_kind r \<noteq> RewardKindBundle" and "t \<in> holdingTasks d"
  shows "t \<notin> fundedTasks d"
proof
  assume "t \<in> fundedTasks d"
  with ok assms(4) obtain x y where "x \<in> set (tasks d)" "tk_id x = t" "credit_reward x"
      "y \<in> set (tasks d)" "tk_id y = t" "collectible_reward y"
    by (force simp: custody_ok_def custodyX_def liveTasks_def)
  moreover have "z = r" if "z \<in> set (tasks d)" "tk_id z = t" for z
    using ok r(1) that by (auto simp: custody_ok_def custodyX_def distinct_map inj_on_def dest!: rowWhere_SomeD)
  ultimately have "credit_reward r" "collectible_reward r" by metis+
  with r(2) show False by (simp add: credit_reward_def collectible_reward_def)
qed

lemma guarded_RefundCollectibleReward:
  assumes "RefundCollectibleReward t u e n d = (r, d')" "custody_ok d"
  shows "custody_ok d'"
proof (rule guarded_run [OF assms(1) [unfolded RefundCollectibleReward_def] assms(2),
      where success = "\<lambda>r. \<exists>x. r = RewardRefunded x"], goal_cases)
  case 1
  let ?mint = "\<lambda>r. r\<lparr>co_state := CollectibleStateMinted\<rparr>"
  show ?case
  proof (rule keepsI, rule wp_bind, intro wp_lift wp_lockTaskRefundable quietly_id, rule wp_bind,
      intro wp_query quietly_id wp_case_option wp_raise wp_if, rule wp_bind, intro wp_lift wp_held_exact
      quietly_id wp_if wp_raise, rule wp_bind, intro wp_updateAll_map quietly_id, simp, simp, rule wp_bind,
      intro wp_exec quietly_id, goal_cases)
    case prems: (1 d r0 r ys d1)
    from prems have d: "custodyX {t} d" by (auto simp: custody_ok_def intro: custodyX_mono)
    from prems have "t \<in> holdingTasks d" by (simp add: heldIDs_empty)
    with prems have "t \<notin> fundedTasks d" by (intro collectible_unfunded)
    moreover from prems have "d1 = releaseHeld t ?mint d" by (simp add: release_exact)
    ultimately have "custodyX {t} d1" "t \<notin> holdingTasks d1" "t \<notin> fundedTasks d1"
      using custody_release [OF d, of ?mint t] by (auto simp: settles_def)
    then show ?case
      by (intro wp_settled [where t = t]) (intro safe_rules keepsEscrow_settled | simp)+
  qed
qed simp


end
