(* ===== verification/Floats.thy ===== *)
theory Floats
  imports Core
begin

text \<open>
  Which texts \<open>strconv.ParseFloat(s, 64)\<close> accepts: the syntax of decimal and
  hexadecimal floating-point literals with digit separators, the special values, and the
  range of a 64-bit float.  The code only asks whether the text is a number.
\<close>

abbreviation code :: "char \<Rightarrow> nat" where "code c \<equiv> of_char c"

definition lower :: "char \<Rightarrow> char" where
  "lower c = (if 65 \<le> code c \<and> code c \<le> 90 then char_of (code c + 32) else c)"

definition is_hex :: "char \<Rightarrow> bool" where
  "is_hex c \<longleftrightarrow> 97 \<le> code (lower c) \<and> code (lower c) \<le> 102"

definition hex_value :: "char \<Rightarrow> nat" where
  "hex_value c = (if is_digit c then code c - 48 else code (lower c) - 87)"

section \<open>Digit separators\<close>

datatype saw = SawBegin | SawDigit | SawUnderscore | SawOther

fun underscoreLoop :: "bool \<Rightarrow> saw \<Rightarrow> string \<Rightarrow> bool" where
  "underscoreLoop hex saw [] = (saw \<noteq> SawUnderscore)"
| "underscoreLoop hex saw (c # cs) =
     (if is_digit c \<or> hex \<and> is_hex c then underscoreLoop hex SawDigit cs
      else if c = CHR ''_'' then (if saw = SawDigit then underscoreLoop hex SawUnderscore cs else False)
      else if saw = SawUnderscore then False
      else underscoreLoop hex SawOther cs)"

definition dropSign :: "string \<Rightarrow> string" where
  "dropSign s = (case s of c # cs \<Rightarrow> if c = CHR ''+'' \<or> c = CHR ''-'' then cs else s | [] \<Rightarrow> s)"

definition underscoreOK :: "string \<Rightarrow> bool" where
  "underscoreOK s = (case dropSign s of
     a # b # cs \<Rightarrow>
       if a = CHR ''0'' \<and> lower b \<in> {CHR ''b'', CHR ''o'', CHR ''x''}
       then underscoreLoop (lower b = CHR ''x'') SawDigit cs
       else underscoreLoop False SawBegin (a # b # cs)
   | cs \<Rightarrow> underscoreLoop False SawBegin cs)"

section \<open>Mantissa and exponent\<close>

record mantissa =
  mt_value :: nat
  mt_fraction :: nat
  mt_dot :: bool
  mt_digits :: bool
  mt_underscores :: bool

text \<open>The digits of the mantissa and the rest of the text.\<close>

fun readMantissa :: "bool \<Rightarrow> mantissa \<Rightarrow> string \<Rightarrow> mantissa \<times> string" where
  "readMantissa hex m [] = (m, [])"
| "readMantissa hex m (c # cs) =
     (if c = CHR ''_'' then readMantissa hex (m\<lparr>mt_underscores := True\<rparr>) cs
      else if c = CHR ''.'' then (if mt_dot m then (m, c # cs) else readMantissa hex (m\<lparr>mt_dot := True\<rparr>) cs)
      else if is_digit c \<or> hex \<and> is_hex c then
        readMantissa hex (m\<lparr>mt_digits := True, mt_value := mt_value m * (if hex then 16 else 10) + hex_value c,
          mt_fraction := mt_fraction m + (if mt_dot m then 1 else 0)\<rparr>) cs
      else (m, c # cs))"

fun readExponent :: "nat \<Rightarrow> bool \<Rightarrow> string \<Rightarrow> nat \<times> bool \<times> string" where
  "readExponent e u [] = (e, u, [])"
| "readExponent e u (c # cs) =
     (if c = CHR ''_'' then readExponent e True cs
      else if is_digit c then readExponent (if e < 10000 then e * 10 + (code c - 48) else e) u cs
      else (e, u, c # cs))"

text \<open>The smallest value a 64-bit float rounds to infinity, and the comparison with it.\<close>

definition overflows :: "bool \<Rightarrow> nat \<Rightarrow> int \<Rightarrow> bool" where
  "overflows hex m e =
     (let b = (if hex then 2 else 10 :: nat); bound = 2 ^ 1024 - 2 ^ 970 in
      m \<noteq> 0 \<and> (if 0 \<le> e then bound \<le> m * b ^ nat e else bound * b ^ nat (- e) \<le> m))"

definition special :: "string \<Rightarrow> bool" where
  "special s \<longleftrightarrow> map lower (dropSign s) \<in> {''inf'', ''infinity''} \<or> map lower s = ''nan''"

text \<open>The whole text must be read; \<open>None\<close> is a syntax error.\<close>

definition readFloat :: "string \<Rightarrow> (bool \<times> nat \<times> int) option" where
  "readFloat s =
     (let t = dropSign s;
          hex = (2 < length t \<and> t ! 0 = CHR ''0'' \<and> lower (t ! 1) = CHR ''x'') in
      case readMantissa hex \<lparr>mt_value = 0, mt_fraction = 0, mt_dot = False, mt_digits = False, mt_underscores = False\<rparr>
             (if hex then drop 2 t else t) of (m, rest) \<Rightarrow>
      let scale = (if hex then 4 else 1) * int (mt_fraction m) in
      if \<not> mt_digits m then None else
      (case rest of
         [] \<Rightarrow> if hex \<or> mt_underscores m \<and> \<not> underscoreOK s then None else Some (hex, mt_value m, - scale)
       | x # cs \<Rightarrow>
           if lower x \<noteq> (if hex then CHR ''p'' else CHR ''e'') then None else
           (let neg = (cs \<noteq> [] \<and> hd cs = CHR ''-''); ds = dropSign cs in
            if ds = [] \<or> \<not> is_digit (hd ds) then None else
            (case readExponent 0 (mt_underscores m) ds of (e, u, unread) \<Rightarrow>
               if unread \<noteq> [] \<or> u \<and> \<not> underscoreOK s then None
               else Some (hex, mt_value m, (if neg then - int e else int e) - scale)))))"

definition ParseFloat_ok :: "string \<Rightarrow> bool" where
  "ParseFloat_ok s \<longleftrightarrow> special s \<or> (case readFloat s of None \<Rightarrow> False | Some (hex, m, e) \<Rightarrow> \<not> overflows hex m e)"

end
