(* ===== verification/JsonText.thy ===== *)
theory JsonText
  imports Floats
begin

text \<open>
  The part of \<open>encoding/json\<close> that \<open>internal/schema\<close> relies on, on the bytes of a text: which
  byte sequences are UTF-8, how string literals are written and read, and the scanning of
  numbers.  A Go string is the list of its bytes.
\<close>

section \<open>UTF-8\<close>

definition between :: "nat \<Rightarrow> nat \<Rightarrow> char \<Rightarrow> bool" where
  "between a b c \<longleftrightarrow> a \<le> code c \<and> code c \<le> b"

text \<open>
  The second byte of a longer encoding: no overlong forms, no surrogates, nothing beyond
  the last code point.
\<close>

definition secondByte :: "char \<Rightarrow> char \<Rightarrow> bool" where
  "secondByte c c2 \<longleftrightarrow>
     between (if code c = 0xE0 then 0xA0 else if code c = 0xF0 then 0x90 else 0x80)
       (if code c = 0xED then 0x9F else if code c = 0xF4 then 0x8F else 0xBF) c2"

text \<open>The length of the encoded rune at the head of a text; 0 where there is none.\<close>

definition runeLen :: "string \<Rightarrow> nat" where
  "runeLen s = (case s of [] \<Rightarrow> 0 | c # s1 \<Rightarrow>
     if code c < 0x80 then 1 else (case s1 of [] \<Rightarrow> 0 | c2 # s2 \<Rightarrow>
     if between 0xC2 0xDF c then (if between 0x80 0xBF c2 then 2 else 0) else (case s2 of [] \<Rightarrow> 0 | c3 # s3 \<Rightarrow>
     if between 0xE0 0xEF c
     then (if secondByte c c2 \<and> between 0x80 0xBF c3 then 3 else 0) else (case s3 of [] \<Rightarrow> 0 | c4 # _ \<Rightarrow>
     if between 0xF0 0xF4 c
     then (if secondByte c c2 \<and> between 0x80 0xBF c3 \<and> between 0x80 0xBF c4 then 4 else 0) else 0))))"

definition bytes :: "nat list \<Rightarrow> string" where
  "bytes ns = map char_of ns"

definition RuneError :: nat where "RuneError = 0xFFFD"

definition EncodeRune :: "nat \<Rightarrow> string" where
  "EncodeRune r = bytes
     (if r < 0x80 then [r]
      else if r < 0x800 then [0xC0 + r div 64, 0x80 + r mod 64]
      else if r < 0x10000 then [0xE0 + r div 4096, 0x80 + r div 64 mod 64, 0x80 + r mod 64]
      else [0xF0 + r div 262144, 0x80 + r div 4096 mod 64, 0x80 + r div 64 mod 64, 0x80 + r mod 64])"

fun utf8 :: "string \<Rightarrow> bool" where
  "utf8 [] = True"
| "utf8 (c # cs) \<longleftrightarrow> runeLen (c # cs) \<noteq> 0 \<and> utf8 (drop (runeLen (c # cs) - 1) cs)"

section \<open>String literals\<close>

abbreviation quote :: char where "quote \<equiv> CHR 0x22"
abbreviation backslash :: char where "backslash \<equiv> CHR 0x5C"

definition is_hexdigit :: "char \<Rightarrow> bool" where
  "is_hexdigit c \<longleftrightarrow> is_digit c \<or> is_hex c"

definition readHex4 :: "string \<Rightarrow> (nat \<times> string) option" where
  "readHex4 s = (case s of
     a # b # c # d # rest \<Rightarrow>
       if is_hexdigit a \<and> is_hexdigit b \<and> is_hexdigit c \<and> is_hexdigit d
       then Some (4096 * hex_value a + 256 * hex_value b + 16 * hex_value c + hex_value d, rest) else None
   | _ \<Rightarrow> None)"

text \<open>A following escape, for the second half of a surrogate pair.\<close>

definition readEscape4 :: "string \<Rightarrow> (nat \<times> string) option" where
  "readEscape4 s = (case s of
     b # u # rest \<Rightarrow> if b = backslash \<and> u = CHR ''u'' then readHex4 rest else None
   | _ \<Rightarrow> None)"

text \<open>The rune of a unicode escape and what is left to read after it.\<close>

definition escapedRune :: "nat \<Rightarrow> string \<Rightarrow> nat \<times> string" where
  "escapedRune r rest =
     (if 0xD800 \<le> r \<and> r < 0xE000 then
        (case readEscape4 rest of
           Some (r2, rest2) \<Rightarrow>
             if r < 0xDC00 \<and> 0xDC00 \<le> r2 \<and> r2 < 0xE000
             then (0x10000 + (r - 0xD800) * 1024 + (r2 - 0xDC00), rest2) else (RuneError, rest)
         | None \<Rightarrow> (RuneError, rest))
      else (r, rest))"

definition shortEscape :: "char \<Rightarrow> char option" where
  "shortEscape e =
     (if e = quote \<or> e = backslash \<or> e = CHR ''/'' then Some e
      else if e = CHR ''b'' then Some (CHR 0x08) else if e = CHR ''f'' then Some (CHR 0x0C)
      else if e = CHR ''n'' then Some (CHR 0x0A) else if e = CHR ''r'' then Some (CHR 0x0D)
      else if e = CHR ''t'' then Some (CHR 0x09) else None)"

definition prepend :: "string \<Rightarrow> (string \<times> string) option \<Rightarrow> (string \<times> string) option" where
  "prepend p r = map_option (\<lambda>(s, rest). (p @ s, rest)) r"

lemma length_readHex4: "readHex4 s = Some (r, rest) \<Longrightarrow> length rest < length s"
  by (auto simp: readHex4_def split: list.splits if_splits)

lemma length_escapedRune: "escapedRune r rest = (r', rest') \<Longrightarrow> length rest' \<le> length rest"
  by (auto simp: escapedRune_def readEscape4_def split: option.splits if_splits list.splits dest!: length_readHex4)

text \<open>
  Reading a literal from after its opening quote: the scanner's checks and the unquoting in
  one pass.  \<open>None\<close> is a syntax error; otherwise the value and the text after the closing
  quote.
\<close>

function readString :: "string \<Rightarrow> (string \<times> string) option" where
  "readString [] = None"
| "readString (c # cs) =
     (if c = quote then Some ([], cs)
      else if c = backslash then
        (case cs of
           [] \<Rightarrow> None
         | e # ds \<Rightarrow>
             if e = CHR ''u'' then
               (case readHex4 ds of
                  None \<Rightarrow> None
                | Some (r, rest) \<Rightarrow>
                    prepend (EncodeRune (fst (escapedRune r rest))) (readString (snd (escapedRune r rest))))
             else (case shortEscape e of None \<Rightarrow> None | Some x \<Rightarrow> prepend [x] (readString ds)))
      else if code c < 0x20 then None
      else if runeLen (c # cs) = 0 then prepend (EncodeRune RuneError) (readString cs)
      else prepend (take (runeLen (c # cs)) (c # cs)) (readString (drop (runeLen (c # cs) - 1) cs)))"
  by pat_completeness auto
termination
proof (relation "measure length")
  fix c e ds r and cs rest :: string and x
  assume "cs = e # ds" "readHex4 ds = Some x" "(r, rest) = x"
  then have "length rest < length ds" using length_readHex4 by metis
  then have "length (snd (escapedRune r rest)) < length ds"
    using length_escapedRune [OF surjective_pairing, of r rest] by simp
  then show "(snd (escapedRune r rest), c # cs) \<in> measure length" using \<open>cs = e # ds\<close> by simp
qed auto

section \<open>Writing a string\<close>

definition hexDigit :: "nat \<Rightarrow> char" where
  "hexDigit d = (if d < 10 then char_of (48 + d) else char_of (87 + d))"

text \<open>\<open>json.Marshal\<close> also escapes the characters special in HTML.\<close>

definition escapeByte :: "char \<Rightarrow> string" where
  "escapeByte c =
     (if c = quote \<or> c = backslash then [backslash, c]
      else if c = CHR 0x08 then [backslash, CHR ''b''] else if c = CHR 0x0C then [backslash, CHR ''f'']
      else if c = CHR 0x0A then [backslash, CHR ''n''] else if c = CHR 0x0D then [backslash, CHR ''r'']
      else if c = CHR 0x09 then [backslash, CHR ''t'']
      else if code c < 0x20 \<or> c = CHR ''<'' \<or> c = CHR ''>'' \<or> c = CHR ''&''
      then [backslash, CHR ''u'', CHR ''0'', CHR ''0'', hexDigit (code c div 16), hexDigit (code c mod 16)]
      else [c])"

definition escapeRune :: "string \<Rightarrow> string" where
  "escapeRune s =
     (if s = bytes [0xE2, 0x80, 0xA8] then backslash # ''u2028''
      else if s = bytes [0xE2, 0x80, 0xA9] then backslash # ''u2029'' else s)"

fun marshalBody :: "string \<Rightarrow> string" where
  "marshalBody [] = []"
| "marshalBody (c # cs) =
     (if code c < 0x80 then escapeByte c @ marshalBody cs
      else if runeLen (c # cs) = 0 then (backslash # ''ufffd'') @ marshalBody cs
      else escapeRune (take (runeLen (c # cs)) (c # cs)) @ marshalBody (drop (runeLen (c # cs) - 1) cs))"

definition marshalString :: "string \<Rightarrow> string" where
  "marshalString s = quote # marshalBody s @ [quote]"

section \<open>Reading back what was written\<close>

lemma runeLen_ascii: "code c < 0x80 \<Longrightarrow> runeLen (c # cs) = 1"
  by (simp add: runeLen_def)

lemma runeLen_le: "runeLen s \<le> length s"
  by (auto simp: runeLen_def split: list.split)

text \<open>Whether there is a rune at the head is decided by its own bytes.\<close>

lemma runeLen_prefix: "runeLen s = k \<Longrightarrow> k \<noteq> 0 \<Longrightarrow> runeLen (take k s @ t) = k"
  by (cases s; cases "tl s"; cases "tl (tl s)"; cases "tl (tl (tl s))") (auto simp: runeLen_def split: if_split_asm)

lemma prepend_simps [simp]:
  "prepend p (Some (s, rest)) = Some (p @ s, rest)"
  "prepend p None = None"
  by (simp_all add: prepend_def)

lemma hexDigit_ok:
  assumes "d < 16"
  shows "is_hexdigit (hexDigit d) \<and> hex_value (hexDigit d) = d"
proof -
  have "code (hexDigit d) = (if d < 10 then 48 + d else 87 + d)"
    using assms by (simp add: hexDigit_def)
  then show ?thesis
    using assms by (auto simp: is_hexdigit_def hex_value_def is_digit_def is_hex_def lower_def)
qed

lemma readHex4_byte:
  "code c < 0x100 \<Longrightarrow> readHex4 (CHR ''0'' # CHR ''0'' # hexDigit (code c div 16) # hexDigit (code c mod 16) # t) = Some (code c, t)"
  using hexDigit_ok [of "code c div 16"] hexDigit_ok [of "code c mod 16"]
  by (simp add: readHex4_def is_hexdigit_def is_digit_def hex_value_def less_mult_imp_div_less)

lemma readString_escapeByte:
  assumes "code c < 0x80"
  shows "readString (escapeByte c @ t) = prepend [c] (readString t)"
proof -
  have "escapedRune (code c) t = (code c, t)" "EncodeRune (code c) = [c]"
    using assms by (simp_all add: escapedRune_def EncodeRune_def bytes_def)
  then show ?thesis
    using assms readHex4_byte [of c t]
    by (auto simp: escapeByte_def shortEscape_def runeLen_ascii)
qed

lemma readString_raw:
  assumes "128 \<le> code c" "runeLen (c # cs) = k" "k \<noteq> 0"
  shows "readString (take k (c # cs) @ t) = prepend (take k (c # cs)) (readString t)"
proof -
  obtain j where k: "k = Suc j" using assms(3) by (cases k) auto
  have j: "j \<le> length cs" using runeLen_le [of "c # cs"] assms(2) k by simp
  have len: "runeLen (c # take j cs @ t) = k"
    using runeLen_prefix [OF assms(2,3), of t] k by simp
  have "c \<noteq> quote" "c \<noteq> backslash" using assms(1) by auto
  then show ?thesis
    using assms(1) j by (simp add: k len [unfolded k])
qed

lemma readString_escaped:
  "readString (backslash # CHR ''u'' # CHR ''2'' # CHR ''0'' # CHR ''2'' # CHR ''8'' # t)
     = prepend (bytes [0xE2, 0x80, 0xA8]) (readString t)"
  "readString (backslash # CHR ''u'' # CHR ''2'' # CHR ''0'' # CHR ''2'' # CHR ''9'' # t)
     = prepend (bytes [0xE2, 0x80, 0xA9]) (readString t)"
  by (simp_all add: readHex4_def is_hexdigit_def is_digit_def hex_value_def escapedRune_def EncodeRune_def)

lemma readString_escapeRune:
  assumes "128 \<le> code c" "runeLen (c # cs) = k" "k \<noteq> 0"
  shows "readString (escapeRune (take k (c # cs)) @ t) = prepend (take k (c # cs)) (readString t)"
proof (cases "take k (c # cs) \<in> {bytes [0xE2, 0x80, 0xA8], bytes [0xE2, 0x80, 0xA9]}")
  case True
  then show ?thesis
    by (auto simp: escapeRune_def readString_escaped simp del: readString.simps)
next
  case False
  then have "escapeRune (take k (c # cs)) = take k (c # cs)" by (simp add: escapeRune_def)
  then show ?thesis using readString_raw [OF assms] by simp
qed

lemma readString_marshal: "utf8 s \<Longrightarrow> readString (marshalBody s @ quote # t) = Some (s, t)"
proof (induction s rule: utf8.induct)
  case (2 c cs)
  let ?k = "runeLen (c # cs)"
  from 2 have IH: "readString (marshalBody (drop (?k - 1) cs) @ quote # t) = Some (drop (?k - 1) cs, t)" and k: "?k \<noteq> 0"
    by simp_all
  show ?case
  proof (cases "code c < 0x80")
    case True
    with IH have "readString (marshalBody cs @ quote # t) = Some (cs, t)" by (simp add: runeLen_ascii)
    with True show ?thesis using readString_escapeByte [OF True, of "marshalBody cs @ quote # t"]
      by (simp del: readString.simps)
  next
    case False
    have "take ?k (c # cs) @ drop (?k - 1) cs = c # cs" using k by (cases ?k) simp_all
    with False k IH show ?thesis
      using readString_escapeRune [OF _ refl k, of "marshalBody (drop (?k - 1) cs) @ quote # t"]
      by (simp del: readString.simps)
  qed
qed simp

section \<open>Numbers\<close>

text \<open>
  The scanner reads the longest number and fails where a begun fraction or exponent has no
  digit; \<open>None\<close> is a syntax error.
\<close>

definition scanInteger :: "string \<Rightarrow> (string \<times> string) option" where
  "scanInteger s = (case s of
     [] \<Rightarrow> None
   | c # cs \<Rightarrow> if c = CHR ''0'' then Some ([c], cs)
       else if is_digit c then Some (c # takeWhile is_digit cs, dropWhile is_digit cs) else None)"

definition scanDigits :: "string \<Rightarrow> string \<Rightarrow> (string \<times> string) option" where
  "scanDigits p s =
     (if takeWhile is_digit s = [] then None else Some (p @ takeWhile is_digit s, dropWhile is_digit s))"

definition scanFraction :: "string \<Rightarrow> (string \<times> string) option" where
  "scanFraction s = (case s of
     [] \<Rightarrow> Some ([], s)
   | c # cs \<Rightarrow> if c = CHR ''.'' then scanDigits [c] cs else Some ([], s))"

definition scanExponent :: "string \<Rightarrow> (string \<times> string) option" where
  "scanExponent s = (case s of
     [] \<Rightarrow> Some ([], s)
   | c # cs \<Rightarrow> if c = CHR ''e'' \<or> c = CHR ''E'' then
         (case cs of
            [] \<Rightarrow> None
          | d # ds \<Rightarrow> if d = CHR ''+'' \<or> d = CHR ''-'' then scanDigits [c, d] ds else scanDigits [c] cs)
       else Some ([], s))"

definition scanSign :: "string \<Rightarrow> string \<times> string" where
  "scanSign s = (case s of [] \<Rightarrow> ([], s) | c # cs \<Rightarrow> if c = CHR ''-'' then ([c], cs) else ([], s))"

definition scanNumber :: "string \<Rightarrow> (string \<times> string) option" where
  "scanNumber s = (case scanSign s of (sign, s1) \<Rightarrow> (case scanInteger s1 of
     None \<Rightarrow> None
   | Some (i, s2) \<Rightarrow> (case scanFraction s2 of
       None \<Rightarrow> None
     | Some (f, s3) \<Rightarrow> (case scanExponent s3 of
         None \<Rightarrow> None
       | Some (x, s4) \<Rightarrow> Some (sign @ i @ f @ x, s4)))))"

text \<open>A text that does not continue a number.\<close>

definition stops :: "string \<Rightarrow> bool" where
  "stops t \<longleftrightarrow> (case t of [] \<Rightarrow> True | c # _ \<Rightarrow> \<not> is_digit c \<and> c \<notin> {CHR ''.'', CHR ''e'', CHR ''E''})"

lemma stops_while: "stops t \<Longrightarrow> takeWhile is_digit (s @ t) = takeWhile is_digit s \<and>
    dropWhile is_digit (s @ t) = dropWhile is_digit s @ t"
  by (induction s) (auto simp: stops_def split: list.splits)

lemma scan_append:
  assumes "stops t"
  shows "scanInteger s = Some (a, b) \<Longrightarrow> scanInteger (s @ t) = Some (a, b @ t)"
    "scanDigits p s = Some (a, b) \<Longrightarrow> scanDigits p (s @ t) = Some (a, b @ t)"
    "scanFraction s = Some (a, b) \<Longrightarrow> scanFraction (s @ t) = Some (a, b @ t)"
    "scanExponent s = Some (a, b) \<Longrightarrow> scanExponent (s @ t) = Some (a, b @ t)"
proof -
  note while = stops_while [OF assms]
  show D: "scanDigits p s = Some (a, b) \<Longrightarrow> scanDigits p (s @ t) = Some (a, b @ t)" for p s a b
    using while by (auto simp: scanDigits_def split: if_splits)
  show "scanInteger s = Some (a, b) \<Longrightarrow> scanInteger (s @ t) = Some (a, b @ t)"
    using while by (auto simp: scanInteger_def split: list.splits if_splits)
  show "scanFraction s = Some (a, b) \<Longrightarrow> scanFraction (s @ t) = Some (a, b @ t)"
    using assms by (cases s; cases t) (auto simp: scanFraction_def stops_def dest: D split: if_splits)
  show "scanExponent s = Some (a, b) \<Longrightarrow> scanExponent (s @ t) = Some (a, b @ t)"
    using assms by (cases s; cases "tl s"; cases t) (auto simp: scanExponent_def stops_def dest: D split: if_splits)
qed

lemma scanNumber_append:
  assumes "stops t" "scanNumber s = Some (a, b)"
  shows "scanNumber (s @ t) = Some (a, b @ t)"
proof -
  obtain sign s1 where sign: "scanSign s = (sign, s1)" by fastforce
  from assms(2) obtain i s2 where i: "scanInteger s1 = Some (i, s2)"
    by (auto simp: scanNumber_def sign split: option.splits)
  from assms(2) obtain f s3 where f: "scanFraction s2 = Some (f, s3)"
    by (auto simp: scanNumber_def sign i split: option.splits)
  from assms(2) obtain x where x: "scanExponent s3 = Some (x, b)" "a = sign @ i @ f @ x"
    by (auto simp: scanNumber_def sign i f split: option.splits)
  have "s \<noteq> []" using i sign by (auto simp: scanSign_def scanInteger_def)
  then have "scanSign (s @ t) = (sign, s1 @ t)" using sign by (auto simp: scanSign_def split: list.splits if_splits)
  then show ?thesis
    using scan_append(1) [OF assms(1) i] scan_append(3) [OF assms(1) f] scan_append(4) [OF assms(1) x(1)] x(2)
    by (simp add: scanNumber_def)
qed

lemma nat_digits_lead: "hd (nat_digits n) = CHR ''0'' \<Longrightarrow> n = 0"
proof (induction n rule: nat_digits.induct)
  case (1 n)
  show ?case
  proof (cases "n < 10")
    case True
    have "n = code (char_of (48 + n)) - 48" using True by simp
    moreover have "char_of (48 + n) = CHR ''0''" using 1(2) True by (subst (asm) nat_digits.simps) simp
    ultimately show ?thesis by simp
  next
    case False
    then have "hd (nat_digits n) = hd (nat_digits (n div 10))"
      using nat_digits_ok [of "n div 10"] by (subst nat_digits.simps) simp
    with 1 False have "n div 10 = 0" by simp
    with False show ?thesis by simp
  qed
qed

lemma scanNumber_formatInt: "scanNumber (formatInt v) = Some (formatInt v, [])"
proof -
  have ds: "scanInteger (nat_digits n) = Some (nat_digits n, [])" for n
  proof -
    obtain c cs where n: "nat_digits n = c # cs" "is_digit c" "list_all is_digit cs"
      using nat_digits_ok [of n] by (cases "nat_digits n") auto
    moreover have "c = CHR ''0'' \<Longrightarrow> cs = []"
      using nat_digits_lead [of n] n(1) by (auto simp: nat_digits.simps [of 0])
    moreover have "takeWhile is_digit cs = cs" "dropWhile is_digit cs = []"
      using n(3) by (simp_all add: list_all_iff takeWhile_eq_all_conv dropWhile_eq_Nil_conv)
    ultimately show ?thesis by (auto simp: scanInteger_def)
  qed
  have "hd (nat_digits n) \<noteq> CHR ''-''" "nat_digits n \<noteq> []" for n
    using nat_digits_ok [of n] by (cases "nat_digits n"; auto simp: is_digit_def)+
  then have "scanSign (formatInt v) = (if v < 0 then (''-'', nat_digits (nat (- v))) else ([], nat_digits (nat v)))"
    by (auto simp: scanSign_def formatInt_def split: list.split) (metis list.sel(1))
  then show ?thesis by (simp add: scanNumber_def ds scanFraction_def scanExponent_def formatInt_def)
qed

section \<open>What is read is UTF-8\<close>

lemma runeLen_append: "runeLen s \<noteq> 0 \<Longrightarrow> runeLen (s @ t) = runeLen s"
  using runeLen_prefix [of s "runeLen s" "drop (runeLen s) s @ t"] by (simp add: append_assoc [symmetric])

lemma utf8_append: "utf8 s \<Longrightarrow> utf8 t \<Longrightarrow> utf8 (s @ t)"
proof (induction s rule: utf8.induct)
  case (2 c cs)
  have "runeLen (c # cs) - 1 \<le> length cs" using runeLen_le [of "c # cs"] by simp
  with 2 show ?case using runeLen_append [of "c # cs" t] by simp
qed simp

lemma utf8_rune: "runeLen s \<noteq> 0 \<Longrightarrow> utf8 (take (runeLen s) s)"
proof -
  assume k: "runeLen s \<noteq> 0"
  then obtain c cs where s: "s = c # cs" by (cases s) (simp_all add: runeLen_def)
  have "runeLen (take (runeLen s) s) = runeLen s" using runeLen_prefix [OF refl k, of "[]"] by simp
  then show ?thesis using k s by (cases "runeLen s") simp_all
qed

definition scalar_value :: "nat \<Rightarrow> bool" where
  "scalar_value r \<longleftrightarrow> r < 0x110000 \<and> \<not> (0xD800 \<le> r \<and> r < 0xE000)"

lemma mod_below: "q div 64 = k \<Longrightarrow> q < 64 * k + m \<Longrightarrow> q mod 64 < m" for q k m :: nat
  using div_mult_mod_eq [of q 64] by linarith

lemma runeLen_EncodeRune:
  assumes "scalar_value r"
  shows "runeLen (EncodeRune r) = length (EncodeRune r)"
proof -
  consider "r < 0x80" | "0x80 \<le> r" "r < 0x800" | "0x800 \<le> r" "r < 0x10000" | "0x10000 \<le> r" "r < 0x110000"
    using assms by (force simp: scalar_value_def)
  then show ?thesis
  proof cases
    case 1
    then show ?thesis by (simp add: EncodeRune_def bytes_def runeLen_def)
  next
    case 2
    then have "2 \<le> r div 64" "r div 64 \<le> 31" by simp_all
    then show ?thesis using 2 by (simp add: EncodeRune_def bytes_def runeLen_def between_def)
  next
    case 3
    then have "r div 4096 \<le> 15" "r div 64 mod 64 \<le> 63" "r div 4096 = 0 \<longrightarrow> 32 \<le> r div 64 mod 64"
      by auto
    moreover have "r div 64 mod 64 \<le> 31" if "r div 4096 = 13"
    proof -
      have "r < 55296" using assms that by (auto simp: scalar_value_def)
      then have "r div 64 < 64 * 13 + 32" by simp
      moreover have "r div 64 div 64 = 13" using that by (simp add: div_mult2_eq [symmetric])
      ultimately show ?thesis using mod_below [of "r div 64" 13 32] by simp
    qed
    ultimately show ?thesis using 3 by (auto simp: EncodeRune_def bytes_def runeLen_def between_def secondByte_def)
  next
    case 4
    then have "r div 262144 \<le> 4" "r div 4096 mod 64 \<le> 63" "r div 262144 = 0 \<longrightarrow> 16 \<le> r div 4096 mod 64"
        "r div 64 mod 64 \<le> 63" "r mod 64 \<le> 63"
      by auto
    moreover have "r div 4096 mod 64 \<le> 15" if "r div 262144 = 4"
    proof -
      have "r div 4096 < 64 * 4 + 16" using 4 by simp
      moreover have "r div 4096 div 64 = 4" using that by (simp add: div_mult2_eq [symmetric])
      ultimately show ?thesis using mod_below [of "r div 4096" 4 16] by simp
    qed
    ultimately show ?thesis using 4 by (simp add: EncodeRune_def bytes_def runeLen_def between_def secondByte_def)
  qed
qed

lemma utf8_EncodeRune: "scalar_value r \<Longrightarrow> utf8 (EncodeRune r)"
proof -
  assume "scalar_value r"
  note len = runeLen_EncodeRune [OF this]
  have "length (EncodeRune r) \<noteq> 0" by (simp add: EncodeRune_def bytes_def)
  with utf8_rune [of "EncodeRune r"] len show ?thesis by simp
qed

lemma hex_value_less: "is_hexdigit c \<Longrightarrow> hex_value c < 16"
  by (auto simp: is_hexdigit_def hex_value_def is_digit_def is_hex_def)

lemma escaped_scalar:
  assumes "readHex4 s = Some (r, rest)"
  shows "scalar_value (fst (escapedRune r rest'))"
proof -
  obtain a b c d where "s = a # b # c # d # rest"
      "r = 4096 * hex_value a + 256 * hex_value b + 16 * hex_value c + hex_value d"
      "hex_value a < 16" "hex_value b < 16" "hex_value c < 16" "hex_value d < 16"
    using assms hex_value_less by (auto simp: readHex4_def split: list.splits if_splits)
  then have "r < 0x10000" by simp
  then show ?thesis
    by (auto simp: escapedRune_def scalar_value_def RuneError_def split: option.split prod.split)
qed

lemma readString_utf8: "readString s = Some (v, rest) \<Longrightarrow> utf8 v"
proof (induction s arbitrary: v rule: readString.induct)
  case (2 c cs)
  have pre: "utf8 v" if "prepend p x = Some (v, rest)" "utf8 p" "\<And>w. x = Some (w, rest) \<Longrightarrow> utf8 w" for p x
    using that utf8_append by (auto simp: prepend_def)
  have short: "utf8 [x]" if "shortEscape e = Some x" for e x
    using that by (auto simp: shortEscape_def runeLen_ascii split: if_splits)
  from "2.prems" show ?case
    by (auto split: if_splits list.splits option.splits intro: "2.IH" utf8_EncodeRune escaped_scalar short utf8_rune
        elim!: pre simp: scalar_value_def RuneError_def simp del: take_Suc_Cons)
qed simp

section \<open>Trimming\<close>

definition no_prefix :: "string list \<Rightarrow> string \<Rightarrow> bool" where
  "no_prefix ws s \<longleftrightarrow> (\<forall>w \<in> set ws. \<not> (0 < length w \<and> length w \<le> length s \<and> take (length w) s = w))"

lemma trimPrefix_id: "no_prefix ws s \<Longrightarrow> trimPrefix ws s = s"
  by (subst trimPrefix.simps) (auto simp: no_prefix_def split: option.split dest!: rowWhere_SomeD)

lemma trimPrefix_done: "no_prefix ws (trimPrefix ws s) \<and> (\<exists>n. trimPrefix ws s = drop n s)"
proof (induction ws s rule: trimPrefix.induct)
  case (1 ws s)
  let ?p = "\<lambda>w. 0 < length w \<and> length w \<le> length s \<and> take (length w) s = w"
  show ?case
  proof (cases "List.find ?p ws")
    case None
    then have "no_prefix ws s" by (auto simp: no_prefix_def rowWhere_None)
    then show ?thesis using trimPrefix_id [of ws s] by (metis drop0)
  next
    case (Some w)
    then have "trimPrefix ws s = trimPrefix ws (drop (length w) s)" by (subst trimPrefix.simps) simp
    with 1 [OF Some] show ?thesis by (metis drop_drop)
  qed
qed

lemma no_prefix_take: "no_prefix ws s \<Longrightarrow> no_prefix ws (take n s)"
  by (auto simp: no_prefix_def min_def split: if_splits)

lemma TrimSpace_idem [simp]: "TrimSpace (TrimSpace s) = TrimSpace s"
proof -
  let ?a = "trimPrefix spaces s"
  let ?b = "trimPrefix (map rev spaces) (rev ?a)"
  obtain n where "?b = drop n (rev ?a)" using trimPrefix_done by blast
  then have "rev ?b = take (length ?a - n) ?a" by (simp add: rev_drop)
  then have "no_prefix spaces (rev ?b)" using trimPrefix_done no_prefix_take by metis
  then show ?thesis
    using trimPrefix_done [of "map rev spaces" "rev ?a"] by (simp add: TrimSpace_def trimPrefix_id)
qed

lemma spaces_runes: "w \<in> set spaces \<Longrightarrow> runeLen w = length w \<and> \<not> between 0x80 0xBF (hd w)"
  by (auto simp: spaces_def space_codes_def runeLen_def between_def secondByte_def)

lemma secondByte_between: "secondByte c c2 \<Longrightarrow> between 0x80 0xBF c2"
  by (auto simp: secondByte_def between_def split: if_split_asm)

lemma runeLen_tail:
  assumes "i < runeLen s" "0 < i"
  shows "between 0x80 0xBF (s ! i)"
proof -
  have "runeLen s \<le> 4"
    by (cases s; cases "tl s"; cases "tl (tl s)"; cases "tl (tl (tl s))") (simp_all add: runeLen_def)
  then consider "i = 1" | "i = 2" | "i = 3" using assms by linarith
  then show ?thesis
    using assms(1)
    by cases (cases s; cases "tl s"; cases "tl (tl s)"; cases "tl (tl (tl s))";
      auto simp: runeLen_def secondByte_between split: if_split_asm)+
qed

lemma utf8_drop_rune: "utf8 s \<Longrightarrow> runeLen s = k \<Longrightarrow> k \<noteq> 0 \<Longrightarrow> utf8 (drop k s)"
  by (cases s; cases k) auto

lemma utf8_strip: "utf8 (x @ w) \<Longrightarrow> w \<noteq> [] \<Longrightarrow> \<not> between 0x80 0xBF (hd w) \<Longrightarrow> utf8 x"
proof (induction x rule: length_induct)
  case (1 x)
  show ?case
  proof (cases x)
    case (Cons c cs)
    let ?k = "runeLen (x @ w)"
    have k: "?k \<noteq> 0" using 1(2) Cons by auto
    have le: "?k \<le> length x"
    proof (rule ccontr)
      assume "\<not> ?k \<le> length x"
      then have "between 0x80 0xBF ((x @ w) ! length x)" using Cons by (intro runeLen_tail) auto
      then show False using 1(3,4) by (simp add: hd_conv_nth nth_append)
    qed
    have "utf8 (drop ?k x @ w)" using utf8_drop_rune [OF 1(2) refl k] le by simp
    then have "utf8 (drop ?k x)" using 1 k Cons by simp
    moreover have "runeLen x = ?k" using runeLen_prefix [of "x @ w" ?k "drop ?k x"] k le by simp
    ultimately show ?thesis using Cons k by (cases ?k) simp_all
  qed simp
qed

lemma utf8_trimPrefix: "utf8 s \<Longrightarrow> utf8 (trimPrefix spaces s)"
proof (induction spaces s rule: trimPrefix.induct)
  case (1 s)
  show ?case
  proof (cases "List.find (\<lambda>w. 0 < length w \<and> length w \<le> length s \<and> take (length w) s = w) spaces")
    case None
    then show ?thesis using 1(2) by (subst trimPrefix.simps) simp
  next
    case (Some w)
    from rowWhere_SomeD [OF this] have w: "w \<in> set spaces" "0 < length w" "take (length w) s = w" by auto
    have "runeLen (w @ drop (length w) s) = length w" using runeLen_append [of w] spaces_runes [OF w(1)] w(2) by simp
    moreover have "w @ drop (length w) s = s" using w(3) by (metis append_take_drop_id)
    ultimately have "utf8 (drop (length w) s)" using utf8_drop_rune [OF 1(2)] w(2) by simp
    then show ?thesis using 1(1) [OF Some] Some by (subst trimPrefix.simps) simp
  qed
qed

lemma utf8_trimSuffix: "utf8 (rev s) \<Longrightarrow> utf8 (rev (trimPrefix (map rev spaces) s))"
proof (induction "map rev spaces" s rule: trimPrefix.induct)
  case (1 s)
  show ?case
  proof (cases "List.find (\<lambda>w. 0 < length w \<and> length w \<le> length s \<and> take (length w) s = w) (map rev spaces)")
    case None
    then show ?thesis using 1(2) by (subst trimPrefix.simps) simp
  next
    case (Some v)
    from rowWhere_SomeD [OF this] have v: "v \<in> set (map rev spaces)" "0 < length v" "take (length v) s = v" by auto
    then obtain w where w: "w \<in> set spaces" "v = rev w" by auto
    have "rev s = rev (drop (length v) s) @ w" using v(3) w(2) by (metis append_take_drop_id rev_append rev_swap)
    then have "utf8 (rev (drop (length v) s))" using 1(2) utf8_strip spaces_runes [OF w(1)] w(2) v(2) by auto
    then show ?thesis using 1(1) [OF Some] Some by (subst trimPrefix.simps) simp
  qed
qed

lemma utf8_TrimSpace: "utf8 s \<Longrightarrow> utf8 (TrimSpace s)"
  by (simp add: TrimSpace_def utf8_trimSuffix utf8_trimPrefix)

text \<open>A text that starts and ends with printable ASCII is trimmed already.\<close>

definition solid :: "string \<Rightarrow> bool" where
  "solid s \<longleftrightarrow> s \<noteq> [] \<and> hd s \<notin> hd ` set spaces \<and> last s \<notin> last ` set spaces"

lemma TrimSpace_solid:
  assumes "solid s"
  shows "TrimSpace s = s"
proof -
  have start: "hd w = hd s" if "take (length w) s = w" "0 < length w" for w
    using that by (metis hd_take)
  have finish: "last w = last s" if "take (length w) (rev s) = rev w" "0 < length w" for w
    using that by (metis hd_rev hd_take length_rev)
  have "no_prefix spaces s" unfolding no_prefix_def using assms start by (metis imageI solid_def)
  moreover have "no_prefix (map rev spaces) (rev s)"
    unfolding no_prefix_def set_map ball_simps length_rev using assms finish by (metis imageI solid_def)
  ultimately show ?thesis by (simp add: TrimSpace_def trimPrefix_id)
qed

definition printable :: "char \<Rightarrow> bool" where
  "printable c \<longleftrightarrow> 33 \<le> (of_char c :: nat) \<and> (of_char c :: nat) \<le> 126"

lemma printable_ends:
  assumes "printable c"
  shows "c \<notin> hd ` set spaces" "c \<notin> last ` set spaces"
  using assms by (auto simp: printable_def spaces_def space_codes_def)

lemma solidI: "\<lbrakk>s \<noteq> []; printable (hd s); printable (last s)\<rbrakk> \<Longrightarrow> solid s"
  using printable_ends by (simp add: solid_def)

end
