(* ===== verification/Attachments.thy ===== *)
theory Attachments
  imports JsonText
begin

text \<open>
  \<open>internal/attachment\<close>: validated file names, content types and contents, the data URLs
  they arrive in, and the padded base64 of \<open>encoding/base64\<close> that the URLs carry.  A
  content is its bytes; a byte is a character.
\<close>

section \<open>Base64\<close>

definition stdAlphabet :: string where
  "stdAlphabet = ''ABCDEFGHIJKLMNOPQRSTUVWXYZabcdefghijklmnopqrstuvwxyz0123456789+/''"

definition urlAlphabet :: string where
  "urlAlphabet = ''ABCDEFGHIJKLMNOPQRSTUVWXYZabcdefghijklmnopqrstuvwxyz0123456789-_''"

fun indexOf :: "'a \<Rightarrow> 'a list \<Rightarrow> nat option" where
  "indexOf x [] = None"
| "indexOf x (y # ys) = (if x = y then Some 0 else map_option Suc (indexOf x ys))"

text \<open>The six-bit digits of a group of bytes, and the bytes of a group of digits.\<close>

fun digits3 :: "string \<Rightarrow> nat list" where
  "digits3 [a, b, c] = (let v = of_char a * 65536 + of_char b * 256 + of_char c in
     [v div 262144, v div 4096 mod 64, v div 64 mod 64, v mod 64])"
| "digits3 [a, b] = (let v = of_char a * 65536 + of_char b * 256 in
     [v div 262144, v div 4096 mod 64, v div 64 mod 64])"
| "digits3 [a] = (let v = of_char a * 65536 in [v div 262144, v div 4096 mod 64])"
| "digits3 _ = []"

definition bytes3 :: "nat list \<Rightarrow> string" where
  "bytes3 ds = (case ds of
     [p, q, r, s] \<Rightarrow> let v = p * 262144 + q * 4096 + r * 64 + s in
       [char_of (v div 65536), char_of (v div 256 mod 256), char_of (v mod 256)]
   | [p, q, r] \<Rightarrow> let v = p * 262144 + q * 4096 + r * 64 in [char_of (v div 65536), char_of (v div 256 mod 256)]
   | [p, q] \<Rightarrow> let v = p * 262144 + q * 4096 in [char_of (v div 65536)]
   | _ \<Rightarrow> [])"

fun encodeGroups :: "string \<Rightarrow> bool \<Rightarrow> string \<Rightarrow> string" where
  "encodeGroups alphabet pad (a # b # c # rest) =
     map ((!) alphabet) (digits3 [a, b, c]) @ encodeGroups alphabet pad rest"
| "encodeGroups alphabet pad [a, b] = map ((!) alphabet) (digits3 [a, b]) @ (if pad then ''='' else '''')"
| "encodeGroups alphabet pad [a] = map ((!) alphabet) (digits3 [a]) @ (if pad then ''=='' else '''')"
| "encodeGroups alphabet pad [] = []"

definition readDigits :: "string \<Rightarrow> string \<Rightarrow> string option" where
  "readDigits alphabet s =
     (if \<forall>c \<in> set s. indexOf c alphabet \<noteq> None then Some (bytes3 (map (\<lambda>c. the (indexOf c alphabet)) s)) else None)"

text \<open>The last group may be padded, or short when the encoding has no padding.\<close>

fun decodeGroups :: "string \<Rightarrow> bool \<Rightarrow> string \<Rightarrow> string option" where
  "decodeGroups alphabet pad (a # b # c # d # rest) =
     (if pad \<and> rest = [] \<and> d = CHR ''='' then readDigits alphabet (if c = CHR ''='' then [a, b] else [a, b, c])
      else case readDigits alphabet [a, b, c, d] of
             None \<Rightarrow> None
           | Some chunk \<Rightarrow> map_option ((@) chunk) (decodeGroups alphabet pad rest))"
| "decodeGroups alphabet pad [] = Some []"
| "decodeGroups alphabet pad [a] = None"
| "decodeGroups alphabet pad short = (if pad then None else readDigits alphabet short)"

text \<open>The decoder skips line ends wherever they stand.\<close>

definition withoutLineEnds :: "string \<Rightarrow> string" where
  "withoutLineEnds s = filter (\<lambda>c. c \<noteq> CHR 0x0A \<and> c \<noteq> CHR 0x0D) s"

definition StdEncodeToString :: "string \<Rightarrow> string" where
  "StdEncodeToString content = encodeGroups stdAlphabet True content"

definition StdDecodeString :: "string \<Rightarrow> string option" where
  "StdDecodeString s = decodeGroups stdAlphabet True (withoutLineEnds s)"

definition RawURLEncodeToString :: "string \<Rightarrow> string" where
  "RawURLEncodeToString content = encodeGroups urlAlphabet False content"

definition RawURLDecodeString :: "string \<Rightarrow> string option" where
  "RawURLDecodeString s = decodeGroups urlAlphabet False (withoutLineEnds s)"

section \<open>Attachments\<close>

definition MaxBytes :: nat where "MaxBytes = 500 * 1024"

record Attachment =
  att_name :: string
  att_content_type :: string
  att_content :: string

definition NewName :: "string \<Rightarrow> string result" where
  "NewName raw =
     (let trimmed = TrimSpace raw in
      if trimmed = [] then Inl (NewDomainError ErrorCodeInvalidArgument ''attachment filename is required'')
      else if length trimmed > 160
      then Inl (NewDomainError ErrorCodeInvalidArgument ''attachment filename is too long'')
      else if CHR 0x00 \<in> set trimmed \<or> CHR ''/'' \<in> set trimmed \<or> CHR 0x5C \<in> set trimmed
      then Inl (NewDomainError ErrorCodeInvalidArgument ''attachment filename is invalid'')
      else Inr trimmed)"

text \<open>
  \<open>strings.ToLower\<close> on the bytes of a string, as far as a comparison with ASCII text can
  see it: the ASCII capitals and the two other runes whose lower case is ASCII (the dotted
  capital I and the Kelvin sign).  Every other rune has no ASCII lower case.
\<close>

definition lowerByte :: "char \<Rightarrow> char" where
  "lowerByte c = (let v = of_char c :: nat in if 65 \<le> v \<and> v \<le> 90 then char_of (v + 32) else c)"

fun ToLower :: "string \<Rightarrow> string" where
  "ToLower (a # b # c # rest) =
     (if of_char a = (0xC4 :: nat) \<and> of_char b = (0xB0 :: nat) then CHR ''i'' # ToLower (c # rest)
      else if of_char a = (0xE2 :: nat) \<and> of_char b = (0x84 :: nat) \<and> of_char c = (0xAA :: nat)
      then CHR ''k'' # ToLower rest
      else lowerByte a # ToLower (b # c # rest))"
| "ToLower [a, b] =
     (if of_char a = (0xC4 :: nat) \<and> of_char b = (0xB0 :: nat) then ''i'' else [lowerByte a, lowerByte b])"
| "ToLower [a] = [lowerByte a]"
| "ToLower [] = []"

definition contentTypes :: "string list" where
  "contentTypes = [''image/png'', ''image/jpeg'', ''image/gif'', ''image/webp'', ''text/plain'', ''application/json'',
     ''application/pdf'']"

definition ParseContentType :: "string \<Rightarrow> string result" where
  "ParseContentType raw =
     (let trimmed = ToLower (TrimSpace raw) in
      if trimmed \<in> set contentTypes then Inr trimmed
      else Inl (NewDomainError ErrorCodeInvalidArgument ''attachment content type is not allowed''))"

definition NewContent :: "string \<Rightarrow> string result" where
  "NewContent value =
     (if length value = 0 then Inl (NewDomainError ErrorCodeInvalidArgument ''attachment content is required'')
      else if length value > MaxBytes
      then Inl (NewDomainError ErrorCodeInvalidArgument ''attachment content is too large'')
      else Inr value)"

definition dataURLPrefix :: "string \<Rightarrow> string" where
  "dataURLPrefix contentType = ''data:'' @ contentType @ '';base64,''"

definition ParseDataURL :: "string \<Rightarrow> string \<Rightarrow> string result" where
  "ParseDataURL raw expectedContentType =
     (let value = TrimSpace raw; prefix = dataURLPrefix expectedContentType in
      if take (length prefix) value \<noteq> prefix
      then Inl (NewDomainError ErrorCodeInvalidArgument ''attachment data URL is invalid'')
      else case StdDecodeString (drop (length prefix) value) of
             None \<Rightarrow> Inl (NewDomainError ErrorCodeInvalidArgument ''attachment content is invalid'')
           | Some decoded \<Rightarrow> NewContent decoded)"

definition buildAttachment :: "string result \<Rightarrow> string result \<Rightarrow> (string \<Rightarrow> string result) \<Rightarrow> Attachment result" where
  "buildAttachment name contentType content = (case name of
     Inl reason \<Rightarrow> Inl reason
   | Inr n \<Rightarrow> (case contentType of
       Inl reason \<Rightarrow> Inl reason
     | Inr t \<Rightarrow> (case content t of
         Inl reason \<Rightarrow> Inl reason
       | Inr c \<Rightarrow> Inr \<lparr>att_name = n, att_content_type = t, att_content = c\<rparr>)))"

definition NewAttachment :: "string \<Rightarrow> string \<Rightarrow> string \<Rightarrow> Attachment result" where
  "NewAttachment rawName rawContentType dataURL =
     buildAttachment (NewName rawName) (ParseContentType rawContentType) (ParseDataURL dataURL)"

definition NewStoredAttachment :: "string \<Rightarrow> string \<Rightarrow> string \<Rightarrow> Attachment result" where
  "NewStoredAttachment rawName rawContentType content =
     buildAttachment (NewName rawName) (ParseContentType rawContentType) (\<lambda>_. NewContent content)"

definition DataURL :: "Attachment \<Rightarrow> string" where
  "DataURL attachment = dataURLPrefix (att_content_type attachment) @ StdEncodeToString (att_content attachment)"

section \<open>What was encoded decodes\<close>

lemma indexOf_nth: "\<lbrakk>distinct xs; i < length xs\<rbrakk> \<Longrightarrow> indexOf (xs ! i) xs = Some i"
proof (induction xs arbitrary: i)
  case (Cons x xs)
  then show ?case by (cases i) auto
qed simp

text \<open>An alphabet: 64 different characters, none of them a padding or a line end.\<close>

definition alphabet_ok :: "string \<Rightarrow> bool" where
  "alphabet_ok alphabet \<longleftrightarrow> distinct alphabet \<and> length alphabet = 64 \<and> set alphabet \<inter> {CHR ''='', CHR 0x0A, CHR 0x0D} = {}"

lemma alphabets_ok: "alphabet_ok stdAlphabet" "alphabet_ok urlAlphabet"
  unfolding alphabet_ok_def stdAlphabet_def urlAlphabet_def by simp_all

lemma readDigits_encoded:
  assumes "alphabet_ok alphabet" "\<forall>d \<in> set ds. d < 64"
  shows "readDigits alphabet (map ((!) alphabet) ds) = Some (bytes3 ds)"
proof -
  have "indexOf (alphabet ! d) alphabet = Some d" if "d \<in> set ds" for d
    using assms that by (intro indexOf_nth) (auto simp: alphabet_ok_def)
  then have "map (\<lambda>c. the (indexOf c alphabet)) (map ((!) alphabet) ds) = ds"
    "\<forall>c \<in> set (map ((!) alphabet) ds). indexOf c alphabet \<noteq> None"
    by (auto intro: map_idI)
  then show ?thesis by (simp add: readDigits_def)
qed

lemma byte_lt: "of_char (c :: char) < (256 :: nat)"
  by (fact nat_of_char_less_256)

lemma top_digit: "a < 256 \<Longrightarrow> b < 256 \<Longrightarrow> c < 256 \<Longrightarrow> (a * 65536 + b * 256 + c) div 262144 < (64 :: nat)"
  by (rule less_mult_imp_div_less) simp

lemma digits3_lt: "d \<in> set (digits3 s) \<Longrightarrow> d < 64"
proof (induction s rule: digits3.induct)
  case (1 a b c)
  then show ?case using top_digit [OF byte_lt [of a] byte_lt [of b] byte_lt [of c]] by (auto simp: Let_def)
next
  case (2 a b)
  then show ?case using top_digit [OF byte_lt [of a] byte_lt [of b], of 0] by (auto simp: Let_def)
next
  case (3 a)
  then show ?case using top_digit [OF byte_lt [of a], of 0 0] by (auto simp: Let_def)
qed auto

text \<open>A number below the square of the base is its two digits, one level at a time.\<close>

lemma six_bits:
  fixes v :: nat
  shows "v div 262144 * 262144 + v div 4096 mod 64 * 4096 + v div 64 mod 64 * 64 + v mod 64 = v"
proof -
  define w x y where "w = v div 64" and "x = w div 64" and "y = x div 64"
  define p q r where "p = v mod 64" and "q = w mod 64" and "r = x mod 64"
  have "w * 64 + p = v" "x * 64 + q = w" "y * 64 + r = x"
    unfolding w_def x_def y_def p_def q_def r_def by (rule div_mult_mod_eq)+
  then have "y * 262144 + r * 4096 + q * 64 + p = v" by simp
  moreover have "x = v div 4096" "y = v div 262144" unfolding w_def x_def y_def by (simp_all flip: div_mult2_eq)
  ultimately show ?thesis unfolding p_def q_def r_def w_def by simp
qed

lemma three_bytes:
  fixes a b c :: nat
  assumes "b < 256" "c < 256"
  shows "(a * 65536 + b * 256 + c) div 65536 = a" "(a * 65536 + b * 256 + c) div 256 mod 256 = b"
    "(a * 65536 + b * 256 + c) mod 256 = c"
proof -
  have mid: "(a * 65536 + b * 256 + c) div 256 = a * 256 + b" using assms by simp
  then show "(a * 65536 + b * 256 + c) div 256 mod 256 = b" using assms by simp
  have "(a * 65536 + b * 256 + c) div 65536 = (a * 65536 + b * 256 + c) div 256 div 256" by (simp flip: div_mult2_eq)
  then show "(a * 65536 + b * 256 + c) div 65536 = a" using mid assms by simp
  show "(a * 65536 + b * 256 + c) mod 256 = c" using assms by (simp add: mod_add_left_eq [symmetric])
qed

lemma bytes3_digits:
  "bytes3 (digits3 [a, b, c]) = [a, b, c]" "bytes3 (digits3 [a, b]) = [a, b]" "bytes3 (digits3 [a]) = [a]"
proof -
  define v where "v = (of_char a :: nat) * 65536 + of_char b * 256 + of_char c"
  note three = three_bytes [OF byte_lt [of b] byte_lt [of c], of "of_char a", folded v_def]
  have "bytes3 (digits3 [a, b, c]) = [char_of (v div 65536), char_of (v div 256 mod 256), char_of (v mod 256)]"
    by (simp only: digits3.simps bytes3_def Let_def list.case six_bits v_def)
  then show "bytes3 (digits3 [a, b, c]) = [a, b, c]" by (simp only: three) simp
  define w where "w = (of_char a :: nat) * 65536 + of_char b * 256"
  have "w mod 64 = 0" unfolding w_def by presburger
  with six_bits [of w] have "bytes3 (digits3 [a, b]) = [char_of (w div 65536), char_of (w div 256 mod 256)]"
    by (simp only: digits3.simps bytes3_def Let_def list.case add_0_right flip: w_def)
  moreover have "w div 65536 = of_char a" "w div 256 mod 256 = of_char b"
    using three_bytes [OF byte_lt [of b], of 0 "of_char a"] by (simp_all add: w_def)
  ultimately show "bytes3 (digits3 [a, b]) = [a, b]" by (simp only:) simp
  define x where "x = (of_char a :: nat) * 65536"
  have "x div 64 = of_char a * 1024" by (simp add: x_def)
  moreover have "x mod 64 = 0" "(of_char a * 1024) mod 64 = (0 :: nat)"
    using mod_mult_self2_is_0 [of "of_char a * 1024 :: nat" 64] mod_mult_self2_is_0 [of "of_char a * 16 :: nat" 64]
    by (simp_all add: x_def)
  ultimately have "x mod 64 = 0" "x div 64 mod 64 = 0" by simp_all
  with six_bits [of x] have "bytes3 (digits3 [a]) = [char_of (x div 65536)]"
    by (simp only: digits3.simps bytes3_def Let_def list.case add_0_right mult_0 flip: x_def)
  moreover have "x div 65536 = of_char a" by (simp add: x_def)
  ultimately show "bytes3 (digits3 [a]) = [a]" by (simp only:) simp
qed

lemma digits3_lengths:
  "\<exists>p q r s. digits3 [a, b, c] = [p, q, r, s]" "\<exists>p q r. digits3 [a, b] = [p, q, r]" "\<exists>p q. digits3 [a] = [p, q]"
  unfolding digits3.simps Let_def by blast+

declare digits3.simps [simp del]

lemma readDigits_group:
  "alphabet_ok alphabet \<Longrightarrow> readDigits alphabet (map ((!) alphabet) (digits3 g)) = Some (bytes3 (digits3 g))"
  by (simp add: readDigits_encoded digits3_lt)

lemma not_padding: "\<lbrakk>alphabet_ok alphabet; d < 64\<rbrakk> \<Longrightarrow> alphabet ! d \<noteq> CHR ''=''"
  unfolding alphabet_ok_def by (metis disjoint_iff insertI1 nth_mem)

lemma group_padding: "alphabet_ok alphabet \<Longrightarrow> c \<in> set (map ((!) alphabet) (digits3 g)) \<Longrightarrow> c \<noteq> CHR ''=''"
  using not_padding digits3_lt by auto

lemma decode_encode: "alphabet_ok alphabet \<Longrightarrow> decodeGroups alphabet pad (encodeGroups alphabet pad s) = Some s"
proof (induction alphabet pad s rule: encodeGroups.induct)
  case (1 alphabet pad a b c rest)
  obtain p q r s where ds: "digits3 [a, b, c] = [p, q, r, s]" using digits3_lengths(1) by blast
  show ?case
    using 1 readDigits_group [OF 1(2), of "[a, b, c]"] group_padding [OF 1(2), of _ "[a, b, c]"] bytes3_digits(1) [of a b c]
    by (simp add: ds)
next
  case (2 alphabet pad a b)
  obtain p q r where ds: "digits3 [a, b] = [p, q, r]" using digits3_lengths(2) by blast
  show ?case
    using readDigits_group [OF 2, of "[a, b]"] group_padding [OF 2, of _ "[a, b]"] bytes3_digits(2) [of a b] by (simp add: ds)
next
  case (3 alphabet pad a)
  obtain p q where ds: "digits3 [a] = [p, q]" using digits3_lengths(3) by blast
  show ?case
    using readDigits_group [OF 3, of "[a]"] group_padding [OF 3, of _ "[a]"] bytes3_digits(3) [of a] by (simp add: ds)
qed simp

lemma encoded_chars:
  "alphabet_ok alphabet \<Longrightarrow> set (encodeGroups alphabet pad s) \<subseteq> set alphabet \<union> {CHR ''=''}"
proof (induction alphabet pad s rule: encodeGroups.induct)
  case (1 alphabet pad a b c rest)
  then show ?case using digits3_lt [of _ "[a, b, c]"] by (auto simp: alphabet_ok_def)
next
  case (2 alphabet pad a b)
  then show ?case using digits3_lt [of _ "[a, b]"] by (auto simp: alphabet_ok_def)
next
  case (3 alphabet pad a)
  then show ?case using digits3_lt [of _ "[a]"] by (auto simp: alphabet_ok_def)
qed simp

lemma encoded_lines:
  assumes "alphabet_ok alphabet"
  shows "withoutLineEnds (encodeGroups alphabet pad s) = encodeGroups alphabet pad s"
proof -
  have "\<forall>c \<in> set (encodeGroups alphabet pad s). c \<noteq> CHR 0x0A \<and> c \<noteq> CHR 0x0D"
    using encoded_chars [OF assms, of pad s] assms by (auto simp: alphabet_ok_def)
  then show ?thesis by (simp add: withoutLineEnds_def filter_id_conv)
qed

lemma base64_roundtrip: "StdDecodeString (StdEncodeToString s) = Some s" "RawURLDecodeString (RawURLEncodeToString s) = Some s"
  using decode_encode alphabets_ok
  by (simp_all add: StdDecodeString_def StdEncodeToString_def RawURLDecodeString_def RawURLEncodeToString_def encoded_lines)


section \<open>What was accepted is accepted again\<close>

lemma alphabet_printable: "c \<in> set stdAlphabet \<union> {CHR ''=''} \<Longrightarrow> printable c"
  by (auto simp: stdAlphabet_def printable_def)

lemma contentTypes_fixed:
  assumes "t \<in> set contentTypes"
  shows "ToLower (TrimSpace t) = t"
proof -
  have "hd t \<in> set stdAlphabet" "last t \<in> set stdAlphabet" "t \<noteq> []"
    using assms by (auto simp: contentTypes_def stdAlphabet_def)
  then have "solid t" by (simp add: solidI alphabet_printable)
  moreover have "\<forall>t \<in> set contentTypes. ToLower t = t" by (simp add: contentTypes_def lowerByte_def)
  ultimately show ?thesis using assms by (simp add: TrimSpace_solid)
qed

definition valid_attachment :: "Attachment \<Rightarrow> bool" where
  "valid_attachment a \<longleftrightarrow> NewName (att_name a) = Inr (att_name a) \<and> att_content_type a \<in> set contentTypes \<and>
     NewContent (att_content a) = Inr (att_content a)"

lemma NewName_accepted: "NewName raw = Inr n \<Longrightarrow> NewName n = Inr n"
  by (auto simp: NewName_def Let_def split: if_splits)

lemma NewContent_accepted: "NewContent raw = Inr c \<Longrightarrow> c = raw \<and> c \<noteq> [] \<and> length c \<le> MaxBytes"
  by (auto simp: NewContent_def split: if_splits)

lemma ParseContentType_type: "t \<in> set contentTypes \<Longrightarrow> ParseContentType t = Inr t"
  by (simp add: ParseContentType_def contentTypes_fixed)

lemma buildAttachment_valid:
  assumes "buildAttachment (NewName rawName) (ParseContentType rawType) content = Inr a"
    and "\<And>t c. content t = Inr c \<Longrightarrow> NewContent c = Inr c"
  shows "valid_attachment a"
  using assms
  by (auto simp: buildAttachment_def valid_attachment_def ParseContentType_def Let_def NewName_accepted split: sum.splits if_splits)

lemma accepted_valid:
  "NewAttachment n t url = Inr a \<Longrightarrow> valid_attachment a" "NewStoredAttachment n t c = Inr a \<Longrightarrow> valid_attachment a"
proof -
  show "NewAttachment n t url = Inr a \<Longrightarrow> valid_attachment a"
    unfolding NewAttachment_def
    by (erule buildAttachment_valid) (auto simp: ParseDataURL_def Let_def dest: NewContent_accepted split: if_splits option.splits)
  show "NewStoredAttachment n t c = Inr a \<Longrightarrow> valid_attachment a"
    unfolding NewStoredAttachment_def by (erule buildAttachment_valid) (auto dest: NewContent_accepted)
qed

lemma digits3_nonempty [simp]: "digits3 [a, b, c] \<noteq> []" "digits3 [a, b] \<noteq> []" "digits3 [a] \<noteq> []"
  by (simp_all add: digits3.simps Let_def)

lemma encodeGroups_nonempty: "s \<noteq> [] \<Longrightarrow> encodeGroups alphabet pad s \<noteq> []"
  by (cases "(alphabet, pad, s)" rule: encodeGroups.cases) auto

lemma last_encoded:
  assumes "s \<noteq> []"
  shows "StdEncodeToString s \<noteq> [] \<and> last (StdEncodeToString s) \<notin> last ` set spaces"
proof -
  have "StdEncodeToString s \<noteq> []" by (simp add: StdEncodeToString_def encodeGroups_nonempty assms)
  moreover from last_in_set [OF this] have "last (StdEncodeToString s) \<in> set stdAlphabet \<union> {CHR ''=''}"
    unfolding StdEncodeToString_def by (rule subsetD [OF encoded_chars [OF alphabets_ok(1)]])
  ultimately show ?thesis by (simp only: printable_ends(2) [OF alphabet_printable] not_False_eq_True simp_thms)
qed

lemma ParseDataURL_encoded:
  assumes "t \<in> set contentTypes" "NewContent c = Inr c"
  shows "ParseDataURL (dataURLPrefix t @ StdEncodeToString c) t = Inr c"
proof -
  have "c \<noteq> []" using assms(2) by (auto dest: NewContent_accepted)
  moreover have "hd (dataURLPrefix t) = CHR ''d''" "dataURLPrefix t \<noteq> []" by (simp_all add: dataURLPrefix_def)
  moreover have "CHR ''d'' \<notin> hd ` set spaces" by (rule printable_ends) (simp add: printable_def)
  ultimately have "TrimSpace (dataURLPrefix t @ StdEncodeToString c) = dataURLPrefix t @ StdEncodeToString c"
    using last_encoded by (intro TrimSpace_solid) (simp add: solid_def)
  then show ?thesis by (simp add: ParseDataURL_def base64_roundtrip assms(2))
qed

lemma attachment_roundtrip:
  assumes "valid_attachment a"
  shows "NewAttachment (att_name a) (att_content_type a) (DataURL a) = Inr a"
    "NewStoredAttachment (att_name a) (att_content_type a) (att_content a) = Inr a"
  using assms
  by (simp_all add: valid_attachment_def NewAttachment_def NewStoredAttachment_def buildAttachment_def DataURL_def
      ParseContentType_type ParseDataURL_encoded)


end
