(* ===== verification/TaskCreation.thy ===== *)
theory TaskCreation
  imports Custody Attachments
begin

text \<open>
  \<open>CreateTask\<close> of \<open>internal/db/task_store.go\<close>: the task row with its owner, reward and
  placement columns, its visibility, its attachments, and the escrow of the collectibles
  promised with it, in one transaction.  The title, description, reference and payload
  columns are free text that no rule reads and are not kept; the scope row of
  \<open>task_visibility_scopes\<close> is kept in the task's row.
\<close>

section \<open>Columns\<close>

datatype SeriesPlacement =
    StandalonePlacement
  | NewSeriesPlacement int
  | ExistingSeriesPlacement TaskSeriesID int

record CreateCommand =
  cc_actor :: UserID
  cc_owner :: Owner
  cc_type :: TaskType
  cc_reward :: RewardSpec
  cc_participation :: ParticipationPolicy
  cc_assignee_scope :: AssigneeScope
  cc_ttl_hours :: int
  cc_visibility :: Visibility
  cc_placement :: SeriesPlacement
  cc_response_schema :: string
  cc_attachments :: "Attachment list"
  cc_expiration :: ExpirationPolicy
  cc_fund_collectibles :: "CollectibleID list"

fun ownerSQLColumns :: "Owner \<Rightarrow> OwnerKind \<times> UserID option \<times> TeamID option \<times> OrganizationID option" where
  "ownerSQLColumns (UserOwner u) = (OwnerKindUser, Some u, None, None)"
| "ownerSQLColumns (TeamOwner t) = (OwnerKindTeam, None, Some t, None)"
| "ownerSQLColumns (OrganizationOwner i) = (OwnerKindOrganization, None, None, Some i)"
| "ownerSQLColumns (OrganizationTeamOwner i t) = (OwnerKindOrganizationTeam, None, Some t, Some i)"

fun rewardSQLColumns :: "RewardSpec \<Rightarrow> RewardKind \<times> int option" where
  "rewardSQLColumns NoRewardSpec = (RewardKindNone, None)"
| "rewardSQLColumns (CreditRewardSpec amount) = (RewardKindCredit, Some amount)"
| "rewardSQLColumns (CollectibleRewardSpec count) = (RewardKindCollectible, None)"
| "rewardSQLColumns (BundleRewardSpec credit count) = (RewardKindBundle, Some credit)"

fun expirationSQLColumn :: "ExpirationPolicy \<Rightarrow> int option" where
  "expirationSQLColumn (ExpiresAt instant) = Some instant"
| "expirationSQLColumn NoExpiration = None"

definition taskColumns :: "TaskID \<Rightarrow> TaskSeriesID option \<Rightarrow> int option \<Rightarrow> CreateCommand \<Rightarrow> task_row" where
  "taskColumns taskID series position command =
     (case ownerSQLColumns (cc_owner command) of (kind, user, team, organization) \<Rightarrow>
      case rewardSQLColumns (cc_reward command) of (rewardKind, amount) \<Rightarrow>
      \<lparr>tk_id = taskID, tk_state = StateDraft, tk_created_by = cc_actor command, tk_organization = organization,
       tk_reward_kind = rewardKind, tk_reward_amount = amount, tk_participation = cc_participation command,
       tk_ttl_hours = cc_ttl_hours command, tk_expires_at = expirationSQLColumn (cc_expiration command),
       tk_series = series, tk_series_position = position, tk_owner_kind = kind, tk_user = user, tk_team = team,
       tk_type = cc_type command, tk_assignee_scope = cc_assignee_scope command,
       tk_visibility = cc_visibility command, tk_response_schema = cc_response_schema command\<rparr>)"

text \<open>Reading the columns back, as \<open>parseTaskRow\<close> does.\<close>

definition collectibleRewardSpec :: "int \<Rightarrow> RewardSpec result" where
  "collectibleRewardSpec rawCount =
     (case NewCollectibleRewardCount rawCount of Inl reason \<Rightarrow> Inl reason | Inr count \<Rightarrow> Inr (CollectibleRewardSpec count))"

definition parseRewardSpec :: "RewardKind \<Rightarrow> int \<Rightarrow> int \<Rightarrow> RewardSpec result" where
  "parseRewardSpec rawKind rawCreditAmount rawCollectibleCount =
     (let bundle = (\<lambda>count. case NewCreditRewardAmount rawCreditAmount of
            Inl reason \<Rightarrow> Inl reason
          | Inr amount \<Rightarrow> (case NewCollectibleRewardCount count of
              Inl reason \<Rightarrow> Inl reason | Inr c \<Rightarrow> Inr (BundleRewardSpec amount c)));
          atLeastOne = (if rawCollectibleCount = 0 then 1 else rawCollectibleCount) in
      case rawKind of
        RewardKindNone \<Rightarrow> if rawCollectibleCount > 0 then collectibleRewardSpec rawCollectibleCount else Inr NoRewardSpec
      | RewardKindCredit \<Rightarrow>
          if rawCollectibleCount > 0 then bundle rawCollectibleCount
          else (case NewCreditRewardAmount rawCreditAmount of
                  Inl reason \<Rightarrow> Inl reason | Inr amount \<Rightarrow> Inr (CreditRewardSpec amount))
      | RewardKindCollectible \<Rightarrow> collectibleRewardSpec atLeastOne
      | RewardKindBundle \<Rightarrow> bundle atLeastOne)"

definition ownerOf :: "task_row \<Rightarrow> Owner option" where
  "ownerOf r = (case (tk_owner_kind r, tk_user r, tk_team r, tk_organization r) of
     (OwnerKindUser, Some u, None, None) \<Rightarrow> Some (UserOwner u)
   | (OwnerKindTeam, None, Some t, None) \<Rightarrow> Some (TeamOwner t)
   | (OwnerKindOrganization, None, None, Some i) \<Rightarrow> Some (OrganizationOwner i)
   | (OwnerKindOrganizationTeam, None, Some t, Some i) \<Rightarrow> Some (OrganizationTeamOwner i t)
   | _ \<Rightarrow> None)"

section \<open>The transaction\<close>

definition insertSeriesForPlacement ::
  "TaskSeriesID \<Rightarrow> CreateCommand \<Rightarrow> (DomainError, TaskSeriesID option \<times> int option) dbtx" where
  "insertSeriesForPlacement seriesID command = (case cc_placement command of
     StandalonePlacement \<Rightarrow> retT (None, None)
   | NewSeriesPlacement position \<Rightarrow>
       bindT (execT (invalidState ''insert task series failed'')
         (insertSeries \<lparr>sr_id = seriesID, sr_state = SeriesStateDraft\<rparr>))
       (\<lambda>_. retT (Some seriesID, Some position))
   | ExistingSeriesPlacement series position \<Rightarrow> retT (Some series, Some position))"

definition attachmentRows :: "string \<Rightarrow> Attachment list \<Rightarrow> attachment_row list" where
  "attachmentRows owner attachments = map (\<lambda>(index, value).
     \<lparr>at_owner = owner, at_index = index, at_filename = att_name value, at_content_type = att_content_type value,
      at_content = att_content value\<rparr>) (enumerate 0 attachments)"

definition insertTaskAttachments :: "TaskID \<Rightarrow> Attachment list \<Rightarrow> (DomainError, unit) dbtx" where
  "insertTaskAttachments taskID attachments =
     forT (attachmentRows taskID attachments)
       (\<lambda>row. execT (invalidState ''insert task attachment failed'') (insertTaskAttachment row))"

definition escrowForNewTask :: "TaskID \<Rightarrow> CreateCommand \<Rightarrow> (DomainError, unit) dbtx" where
  "escrowForNewTask taskID command =
     forT (cc_fund_collectibles command) (\<lambda>collectibleID.
       bindT (requireEscrowableCollectible collectibleID (cc_actor command))
       (\<lambda>_. holdCollectibleForTask taskID collectibleID))"

definition createTaskTx :: "TaskSeriesID \<Rightarrow> TaskID \<Rightarrow> CreateCommand \<Rightarrow> (DomainError, unit) dbtx" where
  "createTaskTx seriesID taskID command =
     bindT (insertSeriesForPlacement seriesID command)
     (\<lambda>(series, position). bindT (execT (invalidState ''insert task failed'')
        (insertTask (taskColumns taskID series position command)))
     (\<lambda>_. bindT (queryT (invalidState ''insert task visibility failed'') (\<lambda>d. ()))
     (\<lambda>_. bindT (insertTaskAttachments taskID (cc_attachments command))
     (\<lambda>_. escrowForNewTask taskID command))))"

datatype CreateTaskStoreResult = CreateTaskStoreAccepted task_row | CreateTaskStoreRejected DomainError

definition CreateTask :: "TaskSeriesID \<Rightarrow> TaskID \<Rightarrow> CreateCommand \<Rightarrow> env \<Rightarrow> nat \<Rightarrow> db \<Rightarrow> CreateTaskStoreResult \<times> db" where
  "CreateTask seriesID taskID command e n d =
     (case commitN (invalidState ''begin create task transaction failed'')
             (invalidState ''commit create task transaction failed'') (createTaskTx seriesID taskID command) e n d of
        (Inl reason, n', d') \<Rightarrow> (CreateTaskStoreRejected reason, d')
      | (Inr _, n', d') \<Rightarrow>
          (case fst (FindTask taskID e n' d') of
             FindTaskStoreAccepted value \<Rightarrow> (CreateTaskStoreAccepted value, d')
           | FindTaskStoreRejected reason \<Rightarrow> (CreateTaskStoreRejected reason, d')))"

section \<open>Columns survive\<close>

lemma ownerOf_columns: "ownerOf (taskColumns taskID series position command) = Some (cc_owner command)"
  by (cases "cc_owner command") (simp_all add: ownerOf_def taskColumns_def split: prod.split)

lemma owner_columns_ok_columns: "owner_columns_ok (taskColumns taskID series position command)"
  by (cases "cc_owner command") (simp_all add: owner_columns_ok_def taskColumns_def split: prod.split)

text \<open>A reward reads back as it was declared once its collectibles are held.\<close>

fun heldFor :: "RewardSpec \<Rightarrow> int" where
  "heldFor (CollectibleRewardSpec count) = count"
| "heldFor (BundleRewardSpec credit count) = count"
| "heldFor _ = 0"

fun rewardSpec_ok :: "RewardSpec \<Rightarrow> bool" where
  "rewardSpec_ok NoRewardSpec \<longleftrightarrow> True"
| "rewardSpec_ok (CreditRewardSpec amount) \<longleftrightarrow> 0 < amount"
| "rewardSpec_ok (CollectibleRewardSpec count) \<longleftrightarrow> 0 < count"
| "rewardSpec_ok (BundleRewardSpec credit count) \<longleftrightarrow> 0 < credit \<and> 0 < count"

lemma parseRewardSpec_columns:
  assumes "rewardSpec_ok reward" "rewardSQLColumns reward = (kind, amount)"
  shows "parseRewardSpec kind (case amount of None \<Rightarrow> 0 | Some a \<Rightarrow> a) (heldFor reward) = Inr reward"
  using assms
  by (cases reward) (auto simp: parseRewardSpec_def collectibleRewardSpec_def NewCollectibleRewardCount_def NewCreditRewardAmount_def)

section \<open>Creation keeps the invariants\<close>

context tx_invariant
begin

lemma method_CreateTask:
  assumes run: "CreateTask s t c e n d = (r, d')" and ok: "I d"
    and tx: "keeps I R e (\<lambda>_. True) (createTaskTx s t c)"
  shows "R d d'"
  using run keeps_commit [OF _ ok tx]
  by (fastforce simp: CreateTask_def split: prod.splits sum.splits FindTaskStoreResult.splits)

lemma keeps_case_placement [safe_rules]:
  "\<lbrakk>keeps I R e Q m; \<And>p. keeps I R e Q (k p); \<And>s p. keeps I R e Q (h s p)\<rbrakk> \<Longrightarrow> keeps I R e Q (case x of
     StandalonePlacement \<Rightarrow> m | NewSeriesPlacement p \<Rightarrow> k p | ExistingSeriesPlacement s p \<Rightarrow> h s p)"
  by (cases x) simp_all

end

lemma same_inserts:
  "insertTask row d = Some d' \<Longrightarrow> sameCredits d d'"
  "insertSeries srow d = Some d' \<Longrightarrow> sameCredits d d'"
  "insertTaskAttachment arow d = Some d' \<Longrightarrow> sameCredits d d'"
  by (auto simp: insert_defs sameCredits_def split: if_splits)

lemma safe_inserts [safe_rules]:
  assumes "Q ()"
  shows "safe e Q (execT err (insertTask row))" "safe e Q (execT err (insertSeries srow))"
    "safe e Q (execT err (insertTaskAttachment arow))"
  using assms by (auto intro!: credit.keeps_exec intro: conserves_same dest: same_inserts)

lemma safe_hold [safe_rules]: "Q () \<Longrightarrow> safe e Q (holdCollectibleForTask t c)"
  unfolding holdCollectibleForTask_def by (intro safe_rules)

lemma safe_createTaskTx [safe_rules]: "Q () \<Longrightarrow> safe e Q (createTaskTx s t c)"
  unfolding createTaskTx_def insertSeriesForPlacement_def insertTaskAttachments_def escrowForNewTask_def
  by (intro safe_rules)

text \<open>Promised collectibles need a task that declares such a reward.\<close>

definition promises :: "CreateCommand \<Rightarrow> bool" where
  "promises c \<longleftrightarrow> cc_fund_collectibles c = [] \<or> fst (rewardSQLColumns (cc_reward c)) \<in> {RewardKindCollectible, RewardKindBundle}"

lemma custody_insertTask:
  assumes "custody_ok d" "insertTask row d = Some d'"
  shows "custody_ok d'"
proof -
  have "tasks d' = tasks d @ [row]" "tk_id row \<notin> tk_id ` set (tasks d)" "task_funds d' = task_funds d"
      "task_fund_collectibles d' = task_fund_collectibles d" "collectibles d' = collectibles d"
    using assms(2) by (auto simp: insertTask_def split: if_splits)
  then show ?thesis
    using assms(1) by (auto simp: custody_ok_def custodyX_def custody_views)
qed

lemma ready_insertTask:
  assumes "custody_ok d" "insertTask row d = Some d'" "live row" "P row" "tk_id row = t"
  shows "ready P t d'"
  using custody_insertTask [OF assms(1,2)] assms(2-5)
  by (auto simp: ready_def liveTasks_def insertTask_def split: if_splits)

lemma ready_same:
  assumes "tasks d' = tasks d" "task_funds d' = task_funds d" "collectibles d' = collectibles d"
    "task_fund_collectibles d' = task_fund_collectibles d"
  shows "custody_ok d' = custody_ok d" "ready P t d' = ready P t d"
  using assms by (simp_all add: custody_ok_def custodyX_def ready_def custody_views)

lemma insert_same:
  "insertSeries srow d = Some d' \<Longrightarrow> custody_ok d' = custody_ok d"
  "insertTaskAttachment arow d = Some d' \<Longrightarrow> custody_ok d' = custody_ok d"
  "insertTaskAttachment arow d = Some d' \<Longrightarrow> ready P t d' = ready P t d"
  by (rule ready_same; auto simp: insert_defs split: if_splits)+

lemma guarded_inserts [safe_rules]:
  assumes "Q ()"
  shows "guarded e Q (execT err (insertSeries srow))" "guarded e Q (execT err (insertTaskAttachment arow))"
    "keeps (ready P t) (\<lambda>_. ready P t) e Q (execT err (insertTaskAttachment arow))"
  using assms by (auto intro!: custody.keeps_exec ready.keeps_exec simp: insert_same)

lemma wp_hold_again:
  assumes ready: "ready collectible_reward t d" and c: "c \<in> co_id ` set (collectibles d)"
  shows "wp e (holdCollectibleForTask t c) (\<lambda>_. ready collectible_reward t) (\<lambda>_. quietly) d"
  unfolding holdCollectibleForTask_def
proof (intro wp_rules quietly_id)
  fix d1 d2
  assume upd: "updateCollectible c (\<lambda>r. r\<lparr>co_state := CollectibleStateEscrowed\<rparr>) d = Some d1"
    and ins: "insertHeld t c d1 = Some d2"
  then have "tasks d2 = tasks d" by (auto simp: updateCollectible_def insertHeld_def split: if_splits)
  with ready custody_hold [OF ready c upd ins] show "ready collectible_reward t d2"
    by (simp add: ready_def liveTasks_def)
qed

lemma ready_escrowForNewTask: "keeps (ready collectible_reward t) (\<lambda>_. ready collectible_reward t) e (\<lambda>_. True) (escrowForNewTask t c)"
  unfolding escrowForNewTask_def
  by (intro ready.keeps_for keepsI wp_bind wp_requireEscrowable quietly_id wp_mono [OF wp_hold_again] TrueI)
     (auto dest: rowWhere_SomeD)

lemma ready_attachments: "keeps (ready P t) (\<lambda>_. ready P t) e (\<lambda>_. True) (insertTaskAttachments t as)"
  unfolding insertTaskAttachments_def by (intro safe_rules)

lemma keeps_ready: "keeps (ready P t) (\<lambda>_. ready P t) e Q m \<Longrightarrow> ready P t d \<Longrightarrow>
    wp e m (\<lambda>a d'. custody_ok d' \<and> Q a) (\<lambda>_. quietly) d"
  by (auto simp: keeps_def ready_def elim!: wp_mono)

lemma guarded_insertSeries [safe_rules]:
  "(\<And>p. Q p) \<Longrightarrow> guarded e Q (insertSeriesForPlacement s c)"
  unfolding insertSeriesForPlacement_def by (intro safe_rules)

lemma collectible_columns:
  assumes "fst (rewardSQLColumns (cc_reward c)) \<in> {RewardKindCollectible, RewardKindBundle}"
  shows "collectible_reward (taskColumns t s p c)"
  using assms by (auto simp: taskColumns_def collectible_reward_def split: prod.splits)

lemma taskColumns_live [simp]: "tk_id (taskColumns t s p c) = t" "live (taskColumns t s p c)"
  by (auto simp: taskColumns_def live_def split: prod.splits)

lemma guarded_createTaskTx:
  assumes "promises c"
  shows "guarded e (\<lambda>_. True) (createTaskTx s t c)"
proof (cases "cc_fund_collectibles c = []")
  case True
  have ins: "guarded e (\<lambda>_. True) (execT err (insertTask row))" for err row
    by (intro custody.keeps_exec) (auto intro: custody_insertTask)
  from True show ?thesis
    unfolding createTaskTx_def insertTaskAttachments_def escrowForNewTask_def
    by (simp only: forT.simps) (intro safe_rules ins)
next
  case False
  with assms have row: "collectible_reward (taskColumns t a p c)" for a p
    unfolding promises_def by (intro collectible_columns) simp
  have "keeps (ready collectible_reward t) (\<lambda>_. ready collectible_reward t) e (\<lambda>_. True)
      (bindT (queryT err f) (\<lambda>_. bindT (insertTaskAttachments t as) (\<lambda>_. escrowForNewTask t c)))" for err f as
    by (intro ready.keeps_bind ready.keeps_readers ready_attachments ready_escrowForNewTask TrueI)
  note after = keeps_ready [OF this ready_insertTask [where P = collectible_reward, OF _ _ _ row]]
  have ins: "guarded e (\<lambda>_. True) (bindT (execT err (insertTask (taskColumns t a p c)))
      (\<lambda>_. bindT (queryT err' f) (\<lambda>_. bindT (insertTaskAttachments t as) (\<lambda>_. escrowForNewTask t c))))" for err err' f as a p
    by (intro keepsI wp_bind wp_exec quietly_id after) auto
  show ?thesis
    unfolding createTaskTx_def
    by (rule custody.keeps_bind [OF guarded_insertSeries]) (auto intro: ins)
qed

end
