(* ===== verification/AuthValues.thy ===== *)
theory AuthValues
  imports JsonText
begin

text \<open>
  \<open>internal/auth/values.go\<close> and the display name reads of \<open>internal/db/auth_store.go\<close>: the
  name shown for a user, its bound, its derivation from the e-mail address in Go and the
  read-time fallback in SQL.  Lengths count bytes.
\<close>

definition displayNameMaxLength :: nat where "displayNameMaxLength = 120"

definition fallbackDisplayName :: string where "fallbackDisplayName = ''member''"

definition NewDisplayName :: "string \<Rightarrow> string result" where
  "NewDisplayName raw =
     (let trimmed = TrimSpace raw in
      if trimmed = [] then Inl (NewDomainError ErrorCodeInvalidArgument ''display name is required'')
      else if length trimmed > displayNameMaxLength
      then Inl (NewDomainError ErrorCodeInvalidArgument ''display name is too long'')
      else Inr trimmed)"

definition NewPasswordSecret :: "string \<Rightarrow> string result" where
  "NewPasswordSecret raw =
     (if length raw < 12 then Inl (NewDomainError ErrorCodeInvalidArgument ''password must contain at least 12 bytes'')
      else Inr raw)"

text \<open>The part before the first at sign, or all of it: \<open>local[:at]\<close> and \<open>split_part\<close>.\<close>

definition localPart :: "string \<Rightarrow> string" where
  "localPart email = takeWhile (\<lambda>c. c \<noteq> CHR ''@'') email"

definition DeriveDisplayNameFromEmail :: "string \<Rightarrow> string" where
  "DeriveDisplayNameFromEmail email =
     (let start = TrimSpace (localPart email);
          short = (if length start > displayNameMaxLength then take displayNameMaxLength start else start);
          name = TrimSpace short in
      if name = [] then fallbackDisplayName else name)"

datatype DisplayNameChoice = DeriveDisplayName | ProvidedDisplayName string

datatype EmailVerificationState = EmailUnverified | EmailVerified

fun EmailVerificationState_String :: "EmailVerificationState \<Rightarrow> string" where
  "EmailVerificationState_String EmailUnverified = ''unverified''"
| "EmailVerificationState_String EmailVerified = ''verified''"

definition ParseEmailVerificationState :: "string \<Rightarrow> EmailVerificationState result" where
  "ParseEmailVerificationState raw =
     (if raw = ''unverified'' then Inr EmailUnverified
      else if raw = ''verified'' then Inr EmailVerified
      else Inl (NewDomainError ErrorCodeInvalidEnum ''email verification state is invalid''))"

text \<open>\<open>coalesce(nullif(display_name, ''), split_part(email, '@', 1))\<close>.\<close>

definition userDisplayNameSQL :: "string \<Rightarrow> string \<Rightarrow> string" where
  "userDisplayNameSQL displayName email = (if displayName = [] then localPart email else displayName)"

section \<open>Derived names\<close>

lemma NewDisplayName_accepted: "NewDisplayName raw = Inr n \<Longrightarrow> NewDisplayName n = Inr n \<and> n \<noteq> []"
  by (auto simp: NewDisplayName_def Let_def split: if_splits)

lemma fallback_fixed: "TrimSpace fallbackDisplayName = fallbackDisplayName"
  by (intro TrimSpace_solid solidI) (simp_all add: fallbackDisplayName_def printable_def)

lemma derived_name_valid: "NewDisplayName (DeriveDisplayNameFromEmail email) = Inr (DeriveDisplayNameFromEmail email)"
proof -
  have len: "length (TrimSpace s) \<le> displayNameMaxLength" if "length s \<le> displayNameMaxLength" for s
    using that length_TrimSpace [of s] by simp
  have "length fallbackDisplayName \<le> displayNameMaxLength" "fallbackDisplayName \<noteq> []"
    by (simp_all add: fallbackDisplayName_def displayNameMaxLength_def)
  then show ?thesis
    using len by (simp add: DeriveDisplayNameFromEmail_def NewDisplayName_def Let_def fallback_fixed not_less)
qed

lemma verification_state_roundtrip:
  "ParseEmailVerificationState raw = Inr s \<longleftrightarrow> raw = EmailVerificationState_String s"
  by (cases s) (auto simp: ParseEmailVerificationState_def)

text \<open>The stored name of a registered user is read back as it is.\<close>

lemma userDisplayName_stored: "NewDisplayName raw = Inr n \<Longrightarrow> NewDisplayName (userDisplayNameSQL n email) = Inr n"
  by (frule NewDisplayName_accepted) (simp add: userDisplayNameSQL_def)

end
