(* ===== verification/Schema.thy ===== *)
theory Schema
  imports Floats
begin

text \<open>
  \<open>internal/schema\<close>: the response schemas of tasks, validation of a response against
  its schema, the index of sensitive fields, and redaction.  The value model is the
  one of \<open>value.go\<close>; its JSON text is the subject of the theory \<open>Json\<close>.
\<close>

section \<open>Field names and paths\<close>

type_synonym FieldName = string

definition NewFieldName :: "string \<Rightarrow> FieldName result" where
  "NewFieldName raw =
     (let trimmed = TrimSpace raw in
      if trimmed = '''' then Inl (NewDomainError ErrorCodeInvalidArgument ''field name is required'')
      else Inr trimmed)"

type_synonym Path = "FieldName list"

definition RootPath :: Path where "RootPath = []"

definition Append :: "Path \<Rightarrow> FieldName \<Rightarrow> Path" where
  "Append path name = path @ [name]"

fun Path_String :: "Path \<Rightarrow> string" where
  "Path_String [] = ''''"
| "Path_String [s] = s"
| "Path_String (s # ss) = s @ ''.'' @ Path_String ss"

section \<open>Sensitivity\<close>

datatype SensitivityCategory = SensitivityPII | SensitivitySecret
datatype RetentionPolicy = RetentionStandard | RetentionDeleteOnRequest
datatype RedactionPolicy = RedactionReplace | RedactionRemove

datatype Sensitivity =
    NotSensitive
  | Sensitive SensitivityCategory RetentionPolicy RedactionPolicy

fun SensitivityCategory_String :: "SensitivityCategory \<Rightarrow> string" where
  "SensitivityCategory_String SensitivityPII = ''pii''"
| "SensitivityCategory_String SensitivitySecret = ''secret''"

fun RetentionPolicy_String :: "RetentionPolicy \<Rightarrow> string" where
  "RetentionPolicy_String RetentionStandard = ''standard''"
| "RetentionPolicy_String RetentionDeleteOnRequest = ''delete_on_request''"

fun RedactionPolicy_String :: "RedactionPolicy \<Rightarrow> string" where
  "RedactionPolicy_String RedactionReplace = ''replace''"
| "RedactionPolicy_String RedactionRemove = ''remove''"

definition ParseSensitivityCategory :: "string \<Rightarrow> SensitivityCategory result" where
  "ParseSensitivityCategory raw =
     (if raw = ''pii'' then Inr SensitivityPII
      else if raw = ''secret'' then Inr SensitivitySecret
      else Inl (NewDomainError ErrorCodeInvalidEnum ''sensitivity category is invalid''))"

definition ParseRetentionPolicy :: "string \<Rightarrow> RetentionPolicy result" where
  "ParseRetentionPolicy raw =
     (if raw = ''standard'' then Inr RetentionStandard
      else if raw = ''delete_on_request'' then Inr RetentionDeleteOnRequest
      else Inl (NewDomainError ErrorCodeInvalidEnum ''retention policy is invalid''))"

definition ParseRedactionPolicy :: "string \<Rightarrow> RedactionPolicy result" where
  "ParseRedactionPolicy raw =
     (if raw = ''replace'' then Inr RedactionReplace
      else if raw = ''remove'' then Inr RedactionRemove
      else Inl (NewDomainError ErrorCodeInvalidEnum ''redaction policy is invalid''))"

interpretation sensitivity_category: sealed_enum SensitivityCategory_String ParseSensitivityCategory
  by unfold_locales (rename_tac raw k, case_tac k; simp add: ParseSensitivityCategory_def)

interpretation retention_policy: sealed_enum RetentionPolicy_String ParseRetentionPolicy
  by unfold_locales (rename_tac raw k, case_tac k; simp add: ParseRetentionPolicy_def)

interpretation redaction_policy: sealed_enum RedactionPolicy_String ParseRedactionPolicy
  by unfold_locales (rename_tac raw k, case_tac k; simp add: ParseRedactionPolicy_def)

section \<open>Schemas and values\<close>

datatype FieldPresence = FieldRequired | FieldMayOmit

fun FieldPresence_String :: "FieldPresence \<Rightarrow> string" where
  "FieldPresence_String FieldRequired = ''required''"
| "FieldPresence_String FieldMayOmit = ''may_omit''"

definition ParseFieldPresence :: "string \<Rightarrow> FieldPresence result" where
  "ParseFieldPresence raw =
     (if raw = ''required'' then Inr FieldRequired
      else if raw = ''may_omit'' then Inr FieldMayOmit
      else Inl (NewDomainError ErrorCodeInvalidEnum ''field presence is invalid''))"

interpretation field_presence: sealed_enum FieldPresence_String ParseFieldPresence
  by unfold_locales (rename_tac raw k, case_tac k; simp add: ParseFieldPresence_def)

datatype Schema =
    ObjectSchema "ObjectField list"
  | ArraySchema Schema
  | StringSchema Sensitivity
  | IntegerSchema
  | DecimalStringSchema
  | EnumSchema "string list"
  | LiteralSchema string
  | UnionSchema "Schema list"
  | FreeformSchema
and ObjectField =
    ObjectField (FieldNameOf: FieldName) (PresenceOf: FieldPresence) (SchemaOf: Schema) (SensitivityOf: Sensitivity)

datatype Value =
    NullValue
  | StringValue string
  | IntegerValue int
  | DecimalStringValue string
  | ObjectValue "(FieldName \<times> Value) list"
  | ArrayValue "Value list"

fun findObjectField :: "(FieldName \<times> Value) list \<Rightarrow> FieldName \<Rightarrow> Value option" where
  "findObjectField [] name = None"
| "findObjectField ((n, v) # fs) name = (if n = name then Some v else findObjectField fs name)"

fun findSchemaField :: "ObjectField list \<Rightarrow> FieldName \<Rightarrow> ObjectField option" where
  "findSchemaField [] name = None"
| "findSchemaField (f # fs) name = (if FieldNameOf f = name then Some f else findSchemaField fs name)"

section \<open>Validation\<close>

datatype ValidationError = ValidationError (PathOf: Path) (MessageOf: string)

datatype ValidationResult = ValidationAccepted | ValidationRejected "ValidationError list"

definition validateString :: "Value \<Rightarrow> Path \<Rightarrow> ValidationError list" where
  "validateString v path = (case v of StringValue _ \<Rightarrow> [] | _ \<Rightarrow> [ValidationError path ''value must be a string''])"

definition validateInteger :: "Value \<Rightarrow> Path \<Rightarrow> ValidationError list" where
  "validateInteger v path = (case v of IntegerValue _ \<Rightarrow> [] | _ \<Rightarrow> [ValidationError path ''value must be an integer''])"

definition validateDecimalString :: "Value \<Rightarrow> Path \<Rightarrow> ValidationError list" where
  "validateDecimalString v path = (case v of
     StringValue s \<Rightarrow> if ParseFloat_ok s then [] else [ValidationError path ''value must be a decimal string'']
   | _ \<Rightarrow> [ValidationError path ''value must be a decimal string''])"

definition validateEnum :: "string list \<Rightarrow> Value \<Rightarrow> Path \<Rightarrow> ValidationError list" where
  "validateEnum allowed v path = (case v of
     StringValue s \<Rightarrow> if s \<in> set allowed then [] else [ValidationError path ''value is not an allowed enum member'']
   | _ \<Rightarrow> [ValidationError path ''value must be an enum string''])"

definition validateLiteral :: "string \<Rightarrow> Value \<Rightarrow> Path \<Rightarrow> ValidationError list" where
  "validateLiteral lit v path = (case v of
     StringValue s \<Rightarrow> if s \<noteq> lit then [ValidationError path ''value does not match literal''] else []
   | _ \<Rightarrow> [ValidationError path ''value must be a literal string''])"

fun validateAt :: "Schema \<Rightarrow> Value \<Rightarrow> Path \<Rightarrow> ValidationError list"
  and validateObject :: "ObjectField list \<Rightarrow> (FieldName \<times> Value) list \<Rightarrow> Path \<Rightarrow> ValidationError list"
  and validateUnion :: "Schema list \<Rightarrow> Value \<Rightarrow> Path \<Rightarrow> ValidationError list" where
  "validateAt (ObjectSchema fs) v path = (case v of
     ObjectValue object \<Rightarrow> validateObject fs object path
   | _ \<Rightarrow> [ValidationError path ''value must be an object''])"
| "validateAt (ArraySchema item) v path = (case v of
     ArrayValue items \<Rightarrow> concat (map (\<lambda>x. validateAt item x path) items)
   | _ \<Rightarrow> [ValidationError path ''value must be an array''])"
| "validateAt (StringSchema _) v path = validateString v path"
| "validateAt IntegerSchema v path = validateInteger v path"
| "validateAt DecimalStringSchema v path = validateDecimalString v path"
| "validateAt (EnumSchema allowed) v path = validateEnum allowed v path"
| "validateAt (LiteralSchema lit) v path = validateLiteral lit v path"
| "validateAt (UnionSchema variants) v path = validateUnion variants v path"
| "validateAt FreeformSchema v path = []"
| "validateObject [] object path = []"
| "validateObject (ObjectField name presence s sens # fs) object path =
     (case findObjectField object name of
        None \<Rightarrow> (if presence = FieldRequired
                 then [ValidationError (Append path name) ''required field is missing''] else [])
      | Some found \<Rightarrow> validateAt s found (Append path name)) @ validateObject fs object path"
| "validateUnion [] v path = [ValidationError path ''value did not match a union variant'']"
| "validateUnion (variant # variants) v path =
     (if validateAt variant v path = [] then [] else validateUnion variants v path)"

definition Validate :: "Schema \<Rightarrow> Value \<Rightarrow> ValidationResult" where
  "Validate s v =
     (let errors = validateAt s v RootPath in
      if errors \<noteq> [] then ValidationRejected errors else ValidationAccepted)"

text \<open>What a response that fits its schema is, independently of the checker.\<close>

inductive conforms :: "Schema \<Rightarrow> Value \<Rightarrow> bool" where
  conforms_object: "\<lbrakk>\<And>f. \<lbrakk>f \<in> set fs; findObjectField object (FieldNameOf f) = None\<rbrakk> \<Longrightarrow> PresenceOf f = FieldMayOmit;
      \<And>f v. \<lbrakk>f \<in> set fs; findObjectField object (FieldNameOf f) = Some v\<rbrakk> \<Longrightarrow> conforms (SchemaOf f) v\<rbrakk>
     \<Longrightarrow> conforms (ObjectSchema fs) (ObjectValue object)"
| conforms_array: "(\<And>x. x \<in> set items \<Longrightarrow> conforms item x) \<Longrightarrow> conforms (ArraySchema item) (ArrayValue items)"
| conforms_string: "conforms (StringSchema sens) (StringValue t)"
| conforms_integer: "conforms IntegerSchema (IntegerValue i)"
| conforms_decimal: "ParseFloat_ok t \<Longrightarrow> conforms DecimalStringSchema (StringValue t)"
| conforms_enum: "t \<in> set allowed \<Longrightarrow> conforms (EnumSchema allowed) (StringValue t)"
| conforms_literal: "conforms (LiteralSchema t) (StringValue t)"
| conforms_union: "\<lbrakk>variant \<in> set variants; conforms variant v\<rbrakk> \<Longrightarrow> conforms (UnionSchema variants) v"
| conforms_freeform: "conforms FreeformSchema v"

inductive_simps conforms_simps [simp]:
  "conforms (ObjectSchema fs) v" "conforms (ArraySchema item) v" "conforms (StringSchema sens) v" "conforms IntegerSchema v"
  "conforms DecimalStringSchema v" "conforms (EnumSchema allowed) v" "conforms (LiteralSchema t) v"
  "conforms (UnionSchema variants) v" "conforms FreeformSchema v"

text \<open>The declared fields of an object, one by one.\<close>

definition field_conforms :: "(FieldName \<times> Value) list \<Rightarrow> ObjectField \<Rightarrow> bool" where
  "field_conforms object f \<longleftrightarrow> (case findObjectField object (FieldNameOf f) of
     None \<Rightarrow> PresenceOf f = FieldMayOmit | Some v \<Rightarrow> conforms (SchemaOf f) v)"

lemma conforms_object_iff:
  "conforms (ObjectSchema fs) (ObjectValue object) \<longleftrightarrow> (\<forall>f \<in> set fs. field_conforms object f)"
  by (auto simp: field_conforms_def split: option.splits)

lemma validate_conforms:
  "validateAt s v path = [] \<longleftrightarrow> conforms s v"
  "validateObject fs object path = [] \<longleftrightarrow> (\<forall>f \<in> set fs. field_conforms object f)"
  "validateUnion variants v path = [] \<longleftrightarrow> (\<exists>variant \<in> set variants. conforms variant v)"
proof (induction s v path and fs object path and variants v path
    rule: validateAt_validateObject_validateUnion.induct)
  case (1 fs v path)
  then show ?case
    using conforms_object_iff by (cases v) auto
next
  case (11 name presence s sens fs object path)
  then show ?case
    by (cases presence) (auto simp: field_conforms_def split: option.splits)
qed (auto simp: validateString_def validateInteger_def validateDecimalString_def validateEnum_def validateLiteral_def
    split: Value.splits)

lemma Validate_conforms: "Validate s v = ValidationAccepted \<longleftrightarrow> conforms s v"
  by (simp add: Validate_def validate_conforms)

text \<open>Errors point below the place that was checked.\<close>

lemma validate_paths:
  "err \<in> set (validateAt s v path) \<Longrightarrow> \<exists>rest. PathOf err = path @ rest"
  "err \<in> set (validateObject fs object path) \<Longrightarrow> \<exists>rest. PathOf err = path @ rest"
  "err \<in> set (validateUnion variants v path) \<Longrightarrow> \<exists>rest. PathOf err = path @ rest"
  by (induction s v path and fs object path and variants v path
      rule: validateAt_validateObject_validateUnion.induct)
     (auto simp: validateString_def validateInteger_def validateDecimalString_def validateEnum_def validateLiteral_def
       Append_def split: Value.splits option.splits if_splits)

text \<open>
  Responses that agree on the first occurrence of every field name, at every depth: this is
  all that validation looks at.
\<close>

inductive sameFirst :: "Value \<Rightarrow> Value \<Rightarrow> bool" where
  sameFirst_refl: "sameFirst v v"
| sameFirst_object: "(\<And>n. rel_option sameFirst (findObjectField xs n) (findObjectField ys n))
     \<Longrightarrow> sameFirst (ObjectValue xs) (ObjectValue ys)"
| sameFirst_array: "list_all2 sameFirst xs ys \<Longrightarrow> sameFirst (ArrayValue xs) (ArrayValue ys)"

lemma findObjectField_append:
  "findObjectField (xs @ ys) n = (case findObjectField xs n of None \<Rightarrow> findObjectField ys n | Some v \<Rightarrow> Some v)"
  by (induction xs n rule: findObjectField.induct) auto

lemma sameFirst_repeated:
  assumes "findObjectField object n \<noteq> None"
  shows "sameFirst (ObjectValue (object @ (n, x) # others)) (ObjectValue (object @ others))"
  by (rule sameFirst_object)
     (use assms in \<open>auto simp: findObjectField_append intro: option.rel_refl sameFirst_refl split: option.split\<close>)

lemma validate_sameFirst:
  "sameFirst v w \<Longrightarrow> validateAt s v path = validateAt s w path"
  "(\<And>n. rel_option sameFirst (findObjectField xs n) (findObjectField ys n)) \<Longrightarrow> validateObject fs xs path = validateObject fs ys path"
  "sameFirst v w \<Longrightarrow> validateUnion variants v path = validateUnion variants w path"
proof (induction s v path and fs xs path and variants v path arbitrary: w and ys and w
    rule: validateAt_validateObject_validateUnion.induct)
  case (1 fs v path)
  from "1.prems" show ?case
  proof (cases rule: sameFirst.cases)
    case (sameFirst_object xs ys)
    with "1.IH" [OF sameFirst_object(1), of ys] show ?thesis by simp
  qed auto
next
  case (2 item v path)
  from "2.prems" show ?case
  proof (cases rule: sameFirst.cases)
    case (sameFirst_array xs ys)
    have "validateAt item (xs ! i) path = validateAt item (ys ! i) path" if "i < length xs" for i
      using "2.IH" [OF sameFirst_array(1) nth_mem [OF that]] sameFirst_array(3) that by (simp add: list_all2_conv_all_nth)
    with sameFirst_array have "map (\<lambda>x. validateAt item x path) xs = map (\<lambda>x. validateAt item x path) ys"
      by (intro nth_equalityI) (auto simp: list_all2_lengthD)
    with sameFirst_array show ?thesis by simp
  qed auto
next
  case (11 name presence s sens fs object path)
  from "11.prems" [of name] "11.IH" "11.prems" show ?case
    by (cases "findObjectField object name"; cases "findObjectField ys name") auto
next
  case (13 variant variants v path)
  then show ?case by (metis validateUnion.simps(2))
qed (auto simp: validateString_def validateInteger_def validateDecimalString_def validateEnum_def validateLiteral_def
    split: Value.splits elim: sameFirst.cases)

lemma Validate_sameFirst: "sameFirst v w \<Longrightarrow> Validate s v = Validate s w"
  using validate_sameFirst(1) by (simp add: Validate_def)

section \<open>The index of sensitive fields and redaction\<close>

record SensitiveField =
  sfPath :: Path
  sfSensitivity :: Sensitivity

fun collectSensitive :: "Schema \<Rightarrow> Value \<Rightarrow> Path \<Rightarrow> SensitiveField list"
  and collectFields :: "ObjectField list \<Rightarrow> (FieldName \<times> Value) list \<Rightarrow> Path \<Rightarrow> SensitiveField list" where
  "collectSensitive (ObjectSchema fs) v path = (case v of
     ObjectValue object \<Rightarrow> collectFields fs object path | _ \<Rightarrow> [])"
| "collectSensitive (ArraySchema item) v path = (case v of
     ArrayValue items \<Rightarrow> concat (map (\<lambda>x. collectSensitive item x path) items) | _ \<Rightarrow> [])"
| "collectSensitive (StringSchema sens) v path =
     (if sens \<noteq> NotSensitive then [\<lparr>sfPath = path, sfSensitivity = sens\<rparr>] else [])"
| "collectSensitive IntegerSchema v path = []"
| "collectSensitive DecimalStringSchema v path = []"
| "collectSensitive (EnumSchema allowed) v path = []"
| "collectSensitive (LiteralSchema lit) v path = []"
| "collectSensitive (UnionSchema variants) v path = []"
| "collectSensitive FreeformSchema v path = []"
| "collectFields [] object path = []"
| "collectFields (ObjectField name presence s sens # fs) object path =
     (case findObjectField object name of
        None \<Rightarrow> []
      | Some found \<Rightarrow>
          (if sens \<noteq> NotSensitive then [\<lparr>sfPath = Append path name, sfSensitivity = sens\<rparr>] else [])
          @ collectSensitive s found (Append path name))
     @ collectFields fs object path"

definition BuildSensitiveIndex :: "Schema \<Rightarrow> Value \<Rightarrow> SensitiveField list" where
  "BuildSensitiveIndex s v = collectSensitive s v RootPath"

definition redactedMark :: Value where
  "redactedMark = StringValue ''[redacted]''"

lemma findSchemaField_in: "findSchemaField fs name = Some f \<Longrightarrow> f \<in> set fs \<and> FieldNameOf f = name"
  by (induction fs name rule: findSchemaField.induct) (auto split: if_splits)

lemma size_SchemaOf: "f \<in> set fs \<Longrightarrow> size (SchemaOf f) < size_list size fs"
  by (induction fs) (auto, case_tac f, auto)

text \<open>
  Redaction walks the value under its schema.  \<open>redactField\<close> is the body of the loop over
  the fields of an object: it returns the fields the iteration appends.
\<close>

function redactAt :: "Schema \<Rightarrow> Value \<Rightarrow> Value"
  and redactField :: "ObjectField list \<Rightarrow> FieldName \<times> Value \<Rightarrow> (FieldName \<times> Value) list" where
  "redactAt (ObjectSchema fs) v = (case v of
     ObjectValue object \<Rightarrow> ObjectValue (concat (map (redactField fs) object)) | _ \<Rightarrow> v)"
| "redactAt (ArraySchema item) v = (case v of
     ArrayValue items \<Rightarrow> ArrayValue (map (redactAt item) items) | _ \<Rightarrow> v)"
| "redactAt (StringSchema sens) v = (case sens of
     Sensitive _ _ RedactionReplace \<Rightarrow> redactedMark | _ \<Rightarrow> v)"
| "redactAt IntegerSchema v = v"
| "redactAt DecimalStringSchema v = v"
| "redactAt (EnumSchema allowed) v = v"
| "redactAt (LiteralSchema lit) v = v"
| "redactAt (UnionSchema variants) v = v"
| "redactAt FreeformSchema v = v"
| "redactField fs (name, x) = (case findSchemaField fs name of
     None \<Rightarrow> [(name, x)]
   | Some f \<Rightarrow> (case SensitivityOf f of
       Sensitive _ _ RedactionRemove \<Rightarrow> []
     | Sensitive _ _ RedactionReplace \<Rightarrow> [(name, redactedMark)]
     | NotSensitive \<Rightarrow> [(name, redactAt (SchemaOf f) x)]))"
  by pat_completeness auto

termination
  by (relation "measure (case_sum (\<lambda>(s, v). 2 * size s + 1) (\<lambda>(fs, p). 2 * size_list size fs + 1))")
     (auto dest!: findSchemaField_in size_SchemaOf)

definition RedactSensitive :: "Schema \<Rightarrow> Value \<Rightarrow> Value" where
  "RedactSensitive s v = redactAt s v"

text \<open>
  Two responses that may differ only where redaction acts: in the value of a sensitive object
  field, or in a value under a sensitive string schema with the policy \<open>replace\<close>.  They agree
  on what redaction leaves in place even though it is declared sensitive: values under a string
  schema with the policy \<open>remove\<close>, and everything under a union.
\<close>

inductive agree :: "Schema \<Rightarrow> Value \<Rightarrow> Value \<Rightarrow> bool" where
  agree_refl: "agree s v v"
| agree_object: "\<lbrakk>map fst xs = map fst ys;
      \<And>i f. \<lbrakk>i < length xs; findSchemaField fs (fst (xs ! i)) = Some f; SensitivityOf f = NotSensitive\<rbrakk>
        \<Longrightarrow> agree (SchemaOf f) (snd (xs ! i)) (snd (ys ! i));
      \<And>i. \<lbrakk>i < length xs; findSchemaField fs (fst (xs ! i)) = None\<rbrakk> \<Longrightarrow> snd (xs ! i) = snd (ys ! i)\<rbrakk>
     \<Longrightarrow> agree (ObjectSchema fs) (ObjectValue xs) (ObjectValue ys)"
| agree_array: "\<lbrakk>length xs = length ys; \<And>i. i < length xs \<Longrightarrow> agree item (xs ! i) (ys ! i)\<rbrakk>
     \<Longrightarrow> agree (ArraySchema item) (ArrayValue xs) (ArrayValue ys)"
| agree_string: "agree (StringSchema (Sensitive c r RedactionReplace)) v w"

lemma map_eq_nth:
  assumes "length xs = length ys" "\<And>i. i < length xs \<Longrightarrow> g (xs ! i) = g (ys ! i)"
  shows "map g xs = map g ys"
  using assms by (simp add: list_eq_iff_nth_eq)

lemma fst_nth_eq: "map fst xs = map fst ys \<Longrightarrow> i < length xs \<Longrightarrow> fst (ys ! i) = fst (xs ! i)"
  by (metis length_map nth_map)

lemma redactField_alt:
  "redactField fs p = (case findSchemaField fs (fst p) of
     None \<Rightarrow> [p]
   | Some f \<Rightarrow> (case SensitivityOf f of
       Sensitive _ _ RedactionRemove \<Rightarrow> []
     | Sensitive _ _ RedactionReplace \<Rightarrow> [(fst p, redactedMark)]
     | NotSensitive \<Rightarrow> [(fst p, redactAt (SchemaOf f) (snd p))]))"
  by (cases p) (simp split: option.split Sensitivity.split RedactionPolicy.split)

theorem redact_noninterference: "agree s v w \<Longrightarrow> redactAt s v = redactAt s w"
proof (induction rule: agree.induct)
  case (agree_object xs ys fs)
  have "map (redactField fs) xs = map (redactField fs) ys"
  proof (rule map_eq_nth)
    fix i assume i: "i < length xs"
    have name: "fst (ys ! i) = fst (xs ! i)" by (rule fst_nth_eq [OF agree_object.hyps(1) i])
    show "redactField fs (xs ! i) = redactField fs (ys ! i)"
    proof (cases "findSchemaField fs (fst (xs ! i))")
      case None
      then show ?thesis
        using agree_object.hyps(3) [OF i None] name by (simp add: redactField_alt prod_eq_iff)
    next
      case (Some f)
      then show ?thesis
        using agree_object.IH [OF i Some] name
        by (cases "SensitivityOf f") (simp_all add: redactField_alt split: RedactionPolicy.split)
    qed
  qed (metis agree_object.hyps(1) length_map)
  then show ?case by simp
next
  case (agree_array xs ys item)
  then have "map (redactAt item) xs = map (redactAt item) ys" by (intro map_eq_nth)
  then show ?case by simp
qed auto

lemma redactField_fields:
  "(n, y) \<in> set (redactField fs (m, x)) \<Longrightarrow> n = m"
  by (auto split: option.splits Sensitivity.splits RedactionPolicy.splits)

lemma concat_map_idem:
  "(\<And>x. x \<in> set xs \<Longrightarrow> concat (map g (g x)) = g x) \<Longrightarrow> concat (map g (concat (map g xs))) = concat (map g xs)"
  by (induction xs) auto

theorem redact_idempotent:
  "redactAt s (redactAt s v) = redactAt s v"
  "concat (map (redactField fs) (redactField fs p)) = redactField fs p"
proof (induction s v and fs p rule: redactAt_redactField.induct)
  case (1 fs v)
  then show ?case
    by (cases v) (simp_all add: concat_map_idem)
next
  case (2 item v)
  then show ?case by (cases v) auto
next
  case (10 fs name x)
  then show ?case
    by (auto split: option.splits Sensitivity.splits RedactionPolicy.splits simp: redactedMark_def)
qed (auto simp: redactedMark_def split: Sensitivity.splits RedactionPolicy.splits)

text \<open>Responses in which no object names a field twice.\<close>

fun unambiguous :: "Value \<Rightarrow> bool" where
  "unambiguous (ObjectValue fs) \<longleftrightarrow> distinct (map fst fs) \<and> (\<forall>p \<in> set fs. unambiguous (snd p))"
| "unambiguous (ArrayValue items) \<longleftrightarrow> (\<forall>x \<in> set items. unambiguous x)"
| "unambiguous _ \<longleftrightarrow> True"

lemma findObjectField_distinct:
  "distinct (map fst object) \<Longrightarrow> (n, x) \<in> set object \<Longrightarrow> findObjectField object n = Some x"
  by (induction object n rule: findObjectField.induct) (auto simp: rev_image_eqI)

lemma collectFields_member:
  assumes "collectFields fs object path = []" "f \<in> set fs" "findObjectField object (FieldNameOf f) = Some x"
  shows "SensitivityOf f = NotSensitive \<and> collectSensitive (SchemaOf f) x (Append path (FieldNameOf f)) = []"
  using assms
proof (induction fs)
  case (Cons g fs)
  then show ?case by (cases g) (auto split: if_splits)
qed simp

theorem redact_unindexed:
  "unambiguous v \<Longrightarrow> collectSensitive s v path = [] \<Longrightarrow> redactAt s v = v"
  "unambiguous (ObjectValue object) \<Longrightarrow> p \<in> set object \<Longrightarrow> collectFields fs object path = []
     \<Longrightarrow> redactField fs p = [p]"
proof (induction s v and fs p arbitrary: path and path object rule: redactAt_redactField.induct)
  case (1 fs v)
  show ?case
  proof (cases v)
    case (ObjectValue object)
    then have "map (redactField fs) object = map (\<lambda>p. [p]) object"
      using 1 by auto
    then show ?thesis using ObjectValue by (simp only: redactAt.simps Value.case concat_map_singleton map_ident)
  qed auto
next
  case (2 item v)
  then show ?case
    by (cases v) (auto intro!: map_idI)
next
  case (10 fs name x)
  have look: "findObjectField object name = Some x"
    using 10(2,3) by (auto intro: findObjectField_distinct)
  show ?case
  proof (cases "findSchemaField fs name")
    case (Some f)
    then have "f \<in> set fs" "FieldNameOf f = name" using findSchemaField_in by blast+
    then have f: "SensitivityOf f = NotSensitive" "collectSensitive (SchemaOf f) x (Append path name) = []"
      using collectFields_member [OF 10(4)] look by blast+
    then show ?thesis
      using 10(1) [OF Some f(1)] 10(2,3) Some by fastforce
  qed simp
qed (auto split: if_splits)

section \<open>What redaction leaves in place\<close>

text \<open>
  \<open>reaches s v t w path\<close>: in the response \<open>v\<close> the value \<open>w\<close> stands under the part \<open>t\<close> of the
  schema \<open>s\<close>, at the path the index would report, and no field on the way is itself sensitive.
\<close>

inductive reaches :: "Schema \<Rightarrow> Value \<Rightarrow> Schema \<Rightarrow> Value \<Rightarrow> Path \<Rightarrow> bool" where
  reaches_here: "reaches s v s v []"
| reaches_field: "\<lbrakk>findSchemaField fs name = Some f; SensitivityOf f = NotSensitive; findObjectField object name = Some x;
      reaches (SchemaOf f) x t w path\<rbrakk> \<Longrightarrow> reaches (ObjectSchema fs) (ObjectValue object) t w (name # path)"
| reaches_item: "\<lbrakk>x \<in> set items; reaches item x t w path\<rbrakk> \<Longrightarrow> reaches (ArraySchema item) (ArrayValue items) t w path"

lemma redacted_field:
  assumes "findSchemaField fs name = Some f" "SensitivityOf f = NotSensitive" "findObjectField object name = Some x"
  shows "findObjectField (concat (map (redactField fs) object)) name = Some (redactAt (SchemaOf f) x)"
  using assms
proof (induction object name rule: findObjectField.induct)
  case (2 n v fields name)
  show ?case
  proof (cases "n = name")
    case True
    with "2.prems" show ?thesis by simp
  next
    case False
    with "2.IH" "2.prems" show ?thesis by (auto split: option.split Sensitivity.split RedactionPolicy.split)
  qed
qed simp

theorem reaches_redacted: "reaches s v t w path \<Longrightarrow> reaches s (redactAt s v) t (redactAt t w) path"
proof (induction rule: reaches.induct)
  case (reaches_field fs name f object x t w path)
  from reaches.reaches_field [OF reaches_field.hyps(1,2) redacted_field [OF reaches_field.hyps(1-3)] reaches_field.IH]
  show ?case by simp
next
  case (reaches_item x items item t w path)
  then have "redactAt item x \<in> set (map (redactAt item) items)" by simp
  from reaches.reaches_item [OF this reaches_item.IH] show ?case by simp
qed (simp add: reaches_here)

lemma collectFields_has:
  assumes "f \<in> set fs" "findObjectField object (FieldNameOf f) = Some x" "y \<in> set (collectSensitive (SchemaOf f) x (Append path (FieldNameOf f)))"
  shows "y \<in> set (collectFields fs object path)"
  using assms
proof (induction fs)
  case (Cons g fs)
  then show ?case by (cases g) auto
qed simp

lemma reaches_indexed:
  assumes "reaches s v t w path" "y \<in> set (collectSensitive t w (p @ path))"
  shows "y \<in> set (collectSensitive s v p)"
  using assms
proof (induction arbitrary: p rule: reaches.induct)
  case (reaches_field fs name f object x t w path)
  then have "f \<in> set fs" "FieldNameOf f = name" using findSchemaField_in by blast+
  with reaches_field.IH [of "Append p name"] reaches_field.prems reaches_field.hyps(3) show ?case
    by (simp add: collectFields_has Append_def)
qed auto

end
