(* ===== verification/SubmissionValues.thy ===== *)
theory SubmissionValues
  imports TaskValues Attachments AuthValues Schema
begin

text \<open>
  \<open>internal/submission/models.go\<close> and \<open>values.go\<close>: states, validation outcomes, the stored
  index of sensitive fields, review notes, response sources and receipt tokens.
\<close>

section \<open>States and outcomes\<close>

fun SubmissionState_String :: "SubmissionState \<Rightarrow> string" where
  "SubmissionState_String SubmissionStateSubmitted = ''submitted''"
| "SubmissionState_String SubmissionStateInvalid = ''invalid''"
| "SubmissionState_String SubmissionStateAccepted = ''accepted''"
| "SubmissionState_String SubmissionStateRejected = ''rejected''"
| "SubmissionState_String SubmissionStateChangesRequested = ''changes_requested''"
| "SubmissionState_String SubmissionStateSuperseded = ''superseded''"

definition ParseSubmissionState :: "string \<Rightarrow> SubmissionState result" where
  "ParseSubmissionState raw =
     (if raw = ''submitted'' then Inr SubmissionStateSubmitted
      else if raw = ''invalid'' then Inr SubmissionStateInvalid
      else if raw = ''accepted'' then Inr SubmissionStateAccepted
      else if raw = ''rejected'' then Inr SubmissionStateRejected
      else if raw = ''changes_requested'' then Inr SubmissionStateChangesRequested
      else if raw = ''superseded'' then Inr SubmissionStateSuperseded
      else Inl (NewDomainError ErrorCodeInvalidEnum ''submission state is invalid''))"

record StoredValidationError =
  er_path :: string
  er_message :: string

datatype ValidationOutcome = ValidationPassed | ValidationFailed "StoredValidationError list"

definition StateForValidation :: "ValidationOutcome \<Rightarrow> SubmissionState" where
  "StateForValidation outcome =
     (case outcome of ValidationPassed \<Rightarrow> SubmissionStateSubmitted | _ \<Rightarrow> SubmissionStateInvalid)"

record StoredSensitiveField =
  sf_path :: string
  sf_category :: string
  sf_retention :: string
  sf_redaction :: string
  sf_state :: string
  sf_redacted_at :: string

section \<open>Review notes and responses\<close>

definition NewRequiredReviewNote :: "string \<Rightarrow> string result" where
  "NewRequiredReviewNote raw =
     (if raw = [] then Inl (NewDomainError ErrorCodeInvalidArgument ''review note is required'')
      else if length raw > 2000 then Inl (NewDomainError ErrorCodeInvalidArgument ''review note is too long'')
      else Inr raw)"

definition NewStoredReviewNote :: "string \<Rightarrow> string result" where
  "NewStoredReviewNote raw =
     (if length raw > 2000 then Inl (NewDomainError ErrorCodeInvalidArgument ''review note is too long'') else Inr raw)"

definition NewResponseSource :: "string \<Rightarrow> string result" where
  "NewResponseSource raw =
     (let trimmed = TrimSpace raw in
      if trimmed = [] then Inl (NewDomainError ErrorCodeInvalidArgument ''submission response JSON is required'')
      else Inr trimmed)"

section \<open>Receipt tokens\<close>

definition NewReceiptTokenPlain :: "env \<Rightarrow> nat \<Rightarrow> string result" where
  "NewReceiptTokenPlain e n = (case entropy e n of
     None \<Rightarrow> Inl (NewDomainError ErrorCodeInvalidState ''generate submission receipt token failed'')
   | Some chunk \<Rightarrow>
       if length chunk \<noteq> 32
       then Inl (NewDomainError ErrorCodeInvalidState ''generate submission receipt token was short'')
       else Inr (RawURLEncodeToString chunk))"

definition ParseReceiptTokenPlain :: "string \<Rightarrow> string result" where
  "ParseReceiptTokenPlain raw =
     (if raw = [] then Inl (NewDomainError ErrorCodeInvalidArgument ''submission receipt token is required'')
      else if RawURLDecodeString raw = None
      then Inl (NewDomainError ErrorCodeInvalidArgument ''submission receipt token is invalid'')
      else Inr raw)"

definition ReceiptTokenHash :: "env \<Rightarrow> string \<Rightarrow> string" where
  "ReceiptTokenHash e token = sha256_hex e token"

section \<open>The submission read model\<close>

text \<open>\<open>submission.Submission\<close>; the creation instant is in seconds since the Unix epoch, as it is read.\<close>

record Submission =
  sm_id :: SubmissionID
  sm_task :: TaskID
  sm_submitter :: UserID
  sm_display_name :: string
  sm_state :: SubmissionState
  sm_response :: string
  sm_attachments :: "Attachment list"
  sm_validation :: ValidationOutcome
  sm_sensitive_fields :: "StoredSensitiveField list"
  sm_review_note :: string
  sm_created_at :: int

section \<open>Values read back\<close>

interpretation submission_state: sealed_enum SubmissionState_String ParseSubmissionState
  by unfold_locales (rename_tac raw k, case_tac k; simp add: ParseSubmissionState_def)

lemma NewResponseSource_accepted: "NewResponseSource raw = Inr s \<Longrightarrow> NewResponseSource s = Inr s \<and> s \<noteq> []"
  by (auto simp: NewResponseSource_def Let_def split: if_splits)

text \<open>A token that was handed out is accepted when it comes back.\<close>

lemma issued_token_parses:
  assumes "NewReceiptTokenPlain e n = Inr token"
  shows "ParseReceiptTokenPlain token = Inr token"
proof -
  obtain chunk where chunk: "length chunk = 32" and token: "token = RawURLEncodeToString chunk"
    using assms by (auto simp: NewReceiptTokenPlain_def split: option.splits if_splits)
  from chunk have "chunk \<noteq> []" by auto
  then show ?thesis
    by (simp add: ParseReceiptTokenPlain_def token base64_roundtrip)
       (simp add: RawURLEncodeToString_def encodeGroups_nonempty)
qed

end
