(* ===== verification/SubmissionStore.thy ===== *)
theory SubmissionStore
  imports TaskCreation SubmissionValues
begin

text \<open>
  \<open>internal/db/submission_store.go\<close> and \<open>submission_row_parse.go\<close>: a submission and all that
  belongs to it is written in one transaction, and read back by its id, by the hash of its
  receipt token, by its task and by its submitter.  The arrays that PostgreSQL builds with
  \<open>jsonb_agg\<close> and the program decodes again are passed as lists.
\<close>

section \<open>Creating\<close>

record SubmitCommand =
  sc_task :: TaskID
  sc_submitter :: UserID
  sc_response :: string
  sc_attachments :: "Attachment list"
  sc_budget :: WorkBudgetCharge
  sc_draft :: Draft

definition consumeSubmissionBudget :: "AgentCredentialID \<Rightarrow> int \<Rightarrow> (DomainError, unit) dbtx" where
  "consumeSubmissionBudget credential dailyTaskLimit =
     bindT (lockCredential ''lock agent credential for submission budget failed'' credential)
     (\<lambda>_. bindT (askT (\<lambda>e n. utcDay (clock e n)))
     (\<lambda>day. bindT (chargeWorkDayCounter (workDayKeyAgentTasks @ credential) day 1 dailyTaskLimit)
     (\<lambda>res. case res of
        dayCounterCharged \<Rightarrow> retT ()
      | dayCounterExhausted usedBefore \<Rightarrow>
          raiseT (budgetExceededError (dailyTaskBudgetMessage usedBefore dailyTaskLimit))
      | dayCounterChargeFailed \<Rightarrow> raiseT (invalidState ''consume daily task budget failed''))))"

definition chargeSubmission :: "WorkBudgetCharge \<Rightarrow> (DomainError, unit) dbtx" where
  "chargeSubmission budget = (case budget of
     ChargeDailyTaskBudget credential dailyTaskLimit \<Rightarrow> orRefuse (consumeSubmissionBudget credential dailyTaskLimit) id
   | NoWorkBudgetCharge \<Rightarrow> retT ())"

definition validationErrorRows :: "SubmissionID \<Rightarrow> ValidationOutcome \<Rightarrow> validation_error_row list" where
  "validationErrorRows submissionID outcome = (case outcome of
     ValidationPassed \<Rightarrow> []
   | ValidationFailed errors \<Rightarrow> map (\<lambda>(index, x).
       \<lparr>ve_submission = submissionID, ve_index = index, ve_path = er_path x, ve_message = er_message x\<rparr>)
       (enumerate 0 errors))"

definition insertValidationErrors :: "SubmissionID \<Rightarrow> ValidationOutcome \<Rightarrow> (DomainError, unit) dbtx" where
  "insertValidationErrors submissionID outcome =
     forT (validationErrorRows submissionID outcome)
       (\<lambda>row. execT (invalidState ''insert submission validation error failed'') (insertValidationError row))"

text \<open>The state and the redaction instant of a new row are the column defaults.\<close>

definition sensitiveFieldRows :: "SubmissionID \<Rightarrow> StoredSensitiveField list \<Rightarrow> sensitive_field_row list" where
  "sensitiveFieldRows submissionID entries = map (\<lambda>(index, x).
     \<lparr>sv_submission = submissionID, sv_index = index, sv_path = sf_path x, sv_category = sf_category x,
      sv_retention = sf_retention x, sv_redaction = sf_redaction x, sv_state = ''active'', sv_redacted_at = ''''\<rparr>)
     (enumerate 0 entries)"

definition insertSensitiveFields :: "SubmissionID \<Rightarrow> StoredSensitiveField list \<Rightarrow> (DomainError, unit) dbtx" where
  "insertSensitiveFields submissionID entries =
     forT (sensitiveFieldRows submissionID entries)
       (\<lambda>row. execT (invalidState ''insert submission sensitive field failed'') (insertSensitiveField row))"

definition insertSubmissionAttachments :: "SubmissionID \<Rightarrow> Attachment list \<Rightarrow> (DomainError, unit) dbtx" where
  "insertSubmissionAttachments submissionID attachments =
     forT (attachmentRows submissionID attachments)
       (\<lambda>row. execT (invalidState ''insert submission attachment failed'') (insertSubmissionAttachment row))"

definition fetchUserDisplayName :: "UserID \<Rightarrow> (DomainError, string) dbtx" where
  "fetchUserDisplayName userID =
     bindT (queryT (invalidState ''read user display name failed'') (\<lambda>d. rowWhere (\<lambda>u. us_id u = userID) (users d)))
     (\<lambda>row. case row of
        None \<Rightarrow> raiseT (invalidState ''read user display name failed'')
      | Some u \<Rightarrow> (case NewDisplayName (userDisplayNameSQL (us_display_name u) (us_email u)) of
          Inl reason \<Rightarrow> raiseT reason | Inr name \<Rightarrow> retT name))"

text \<open>The insert casts the response to \<open>jsonb\<close> and fails where the cast does.\<close>

definition submissionColumns :: "SubmissionID \<Rightarrow> SubmitCommand \<Rightarrow> SubmissionState \<Rightarrow> int \<Rightarrow> string \<Rightarrow> submission_row" where
  "submissionColumns submissionID command state now response =
     \<lparr>sb_id = submissionID, sb_task = sc_task command, sb_user = sc_submitter command, sb_state = state,
      sb_accepted_key = None, sb_changes_key = None, sb_review_key = None, sb_note = None, sb_reviewed_by = None,
      sb_response = response, sb_created_at = now\<rparr>"

definition ownActiveReservation :: "SubmitCommand \<Rightarrow> reservation_row \<Rightarrow> bool" where
  "ownActiveReservation command v \<longleftrightarrow> rv_task v = sc_task command \<and> rv_assignee v = AssigneeScopeUser \<and>
     rv_user v = Some (sc_submitter command) \<and> rv_state v = ReservationStateActive"

text \<open>\<open>to_char\<close> renders whole seconds.\<close>

definition wholeSeconds :: "int \<Rightarrow> int" where
  "wholeSeconds instant = instant div 1000000000"

definition createSubmissionTx ::
  "SubmissionID \<Rightarrow> SubmissionReceiptTokenID \<Rightarrow> string \<Rightarrow> SubmitCommand \<Rightarrow> SubmissionState \<Rightarrow> ValidationOutcome
    \<Rightarrow> StoredSensitiveField list \<Rightarrow> (DomainError, Submission) dbtx" where
  "createSubmissionTx submissionID receiptID receiptHash command state outcome sensitiveFields =
     bindT (askT (\<lambda>e n. clock e n))
     (\<lambda>now. bindT (chargeSubmission (sc_budget command))
     (\<lambda>_. bindT (askT (\<lambda>e n. jsonb_text e (sc_response command)))
     (\<lambda>cast. bindT (execT (invalidState ''insert submission failed'')
        (\<lambda>d. case cast of None \<Rightarrow> None
           | Some response \<Rightarrow> insertSubmission (submissionColumns submissionID command state now response) d))
     (\<lambda>_. bindT (if state \<noteq> SubmissionStateInvalid
            then execT (invalidState ''mark task reservation submitted failed'')
                   (updateReservations (ownActiveReservation command) ReservationStateSubmitted)
            else retT ())
     (\<lambda>_. bindT (execT (invalidState ''insert submission receipt token failed'')
        (insertReceiptToken \<lparr>rt_id = receiptID, rt_submission = submissionID, rt_hash = receiptHash\<rparr>))
     (\<lambda>_. bindT (insertValidationErrors submissionID outcome)
     (\<lambda>_. bindT (insertSensitiveFields submissionID sensitiveFields)
     (\<lambda>_. bindT (insertSubmissionAttachments submissionID (sc_attachments command))
     (\<lambda>_. bindT (fetchUserDisplayName (sc_submitter command))
     (\<lambda>submitterName. bindT (recordEventDraftInTx (invalidState ''record submission event failed'') (sc_draft command))
     (\<lambda>_. bindT (queryT (invalidState ''read submission created_at failed'')
        (\<lambda>d. rowWhere (\<lambda>s. sb_id s = submissionID) (submissions d)))
     (\<lambda>row. case row of
        None \<Rightarrow> raiseT (invalidState ''read submission created_at failed'')
      | Some r \<Rightarrow> retT \<lparr>sm_id = submissionID, sm_task = sc_task command, sm_submitter = sc_submitter command,
          sm_display_name = submitterName, sm_state = state, sm_response = sc_response command,
          sm_attachments = sc_attachments command, sm_validation = outcome, sm_sensitive_fields = sensitiveFields,
          sm_review_note = '''', sm_created_at = wholeSeconds (sb_created_at r)\<rparr>))))))))))))"

datatype CreateSubmissionStoreResult = CreateSubmissionStoreAccepted Submission | CreateSubmissionStoreRejected DomainError

definition CreateSubmission ::
  "SubmissionID \<Rightarrow> SubmissionReceiptTokenID \<Rightarrow> string \<Rightarrow> SubmitCommand \<Rightarrow> SubmissionState \<Rightarrow> ValidationOutcome
    \<Rightarrow> StoredSensitiveField list \<Rightarrow> env \<Rightarrow> nat \<Rightarrow> db \<Rightarrow> CreateSubmissionStoreResult \<times> nat \<times> db" where
  "CreateSubmission submissionID receiptID receiptHash command state outcome sensitiveFields e n d =
     (case commitN (invalidState ''begin create submission transaction failed'')
             (invalidState ''commit create submission transaction failed'')
             (createSubmissionTx submissionID receiptID receiptHash command state outcome sensitiveFields) e n d of
        (Inl reason, n', d') \<Rightarrow> (CreateSubmissionStoreRejected reason, n', d')
      | (Inr value, n', d') \<Rightarrow> (CreateSubmissionStoreAccepted value, n', d'))"

section \<open>Reading\<close>

definition parseValidationOutcome :: "validation_error_row list \<Rightarrow> ValidationOutcome" where
  "parseValidationOutcome values =
     (if values = [] then ValidationPassed
      else ValidationFailed (map (\<lambda>v. \<lparr>er_path = ve_path v, er_message = ve_message v\<rparr>) values))"

definition parseSensitiveFields :: "sensitive_field_row list \<Rightarrow> StoredSensitiveField list" where
  "parseSensitiveFields values = map (\<lambda>v. \<lparr>sf_path = sv_path v, sf_category = sv_category v,
     sf_retention = sv_retention v, sf_redaction = sv_redaction v, sf_state = sv_state v,
     sf_redacted_at = sv_redacted_at v\<rparr>) values"

fun parseStoredAttachments :: "attachment_row list \<Rightarrow> Attachment list result" where
  "parseStoredAttachments [] = Inr []"
| "parseStoredAttachments (row # rows) =
     (case NewStoredAttachment (at_filename row) (at_content_type row) (at_content row) of
        Inl reason \<Rightarrow> Inl reason
      | Inr value \<Rightarrow> (case parseStoredAttachments rows of Inl reason \<Rightarrow> Inl reason | Inr values \<Rightarrow> Inr (value # values)))"

text \<open>What one row of \<open>submissionSelectSQL\<close> carries.\<close>

record selected_submission =
  ss_row :: submission_row
  ss_name :: string
  ss_errors :: "validation_error_row list"
  ss_sensitive :: "sensitive_field_row list"
  ss_attachments :: "attachment_row list"

definition selectSubmission :: "db \<Rightarrow> submission_row \<Rightarrow> user_row \<Rightarrow> selected_submission" where
  "selectSubmission d r u =
     \<lparr>ss_row = r, ss_name = userDisplayNameSQL (us_display_name u) (us_email u),
      ss_errors = sort_key ve_index (filter (\<lambda>x. ve_submission x = sb_id r) (submission_validation_errors d)),
      ss_sensitive = sort_key sv_index (filter (\<lambda>x. sv_submission x = sb_id r) (submission_sensitive_fields d)),
      ss_attachments = sort_key at_index (filter (\<lambda>x. at_owner x = sb_id r) (submission_attachments d))\<rparr>"

definition selectSubmissions :: "submission_row list \<Rightarrow> db \<Rightarrow> selected_submission list" where
  "selectSubmissions rows d =
     concat (map (\<lambda>r. map (selectSubmission d r) (filter (\<lambda>u. us_id u = sb_user r) (users d))) rows)"

definition parseSubmissionRow :: "selected_submission \<Rightarrow> (DomainError, Submission) dbtx" where
  "parseSubmissionRow x =
     bindT (parseT ParseSubmissionID (sb_id (ss_row x)))
     (\<lambda>submissionID. bindT (parseT ParseTaskID (sb_task (ss_row x)))
     (\<lambda>taskID. bindT (parseT ParseUserID (sb_user (ss_row x)))
     (\<lambda>submitterID. case NewResponseSource (sb_response (ss_row x)) of Inl reason \<Rightarrow> raiseT reason | Inr source \<Rightarrow>
      (case NewStoredReviewNote (case sb_note (ss_row x) of None \<Rightarrow> '''' | Some note \<Rightarrow> note) of
         Inl reason \<Rightarrow> raiseT reason | Inr note \<Rightarrow>
      (case parseStoredAttachments (ss_attachments x) of Inl reason \<Rightarrow> raiseT reason | Inr attachments \<Rightarrow>
      (case NewDisplayName (ss_name x) of Inl reason \<Rightarrow> raiseT reason | Inr submitterName \<Rightarrow>
       retT \<lparr>sm_id = submissionID, sm_task = taskID, sm_submitter = submitterID, sm_display_name = submitterName,
         sm_state = sb_state (ss_row x), sm_response = source, sm_attachments = attachments,
         sm_validation = parseValidationOutcome (ss_errors x), sm_sensitive_fields = parseSensitiveFields (ss_sensitive x),
         sm_review_note = note, sm_created_at = wholeSeconds (sb_created_at (ss_row x))\<rparr>))))))"

definition scanSubmissionRows :: "string \<Rightarrow> (db \<Rightarrow> selected_submission list) \<Rightarrow> (DomainError, Submission list) dbtx" where
  "scanSubmissionRows failure rows =
     scanT (invalidState failure) (invalidState ''scan submission failed'') (invalidState ''read submissions failed'')
       rows parseSubmissionRow"

definition submissionsOfReceipt :: "string \<Rightarrow> db \<Rightarrow> submission_row list" where
  "submissionsOfReceipt hash d =
     concat (map (\<lambda>s. map (\<lambda>_. s) (filter (\<lambda>t. rt_submission t = sb_id s \<and> rt_hash t = hash) (submission_receipt_tokens d)))
       (submissions d))"

definition FindByReceiptToken :: "string \<Rightarrow> env \<Rightarrow> nat \<Rightarrow> db \<Rightarrow> Submission result \<times> nat" where
  "FindByReceiptToken hash = readN (tryT
     (bindT (scanSubmissionRows ''find submission receipt failed'' (\<lambda>d. selectSubmissions (submissionsOfReceipt hash d) d))
     (\<lambda>values. case values of
        [v] \<Rightarrow> retT v | _ \<Rightarrow> raiseT (invalidState ''submission receipt was not found''))))"

definition FindSubmission :: "SubmissionID \<Rightarrow> env \<Rightarrow> nat \<Rightarrow> db \<Rightarrow> Submission result \<times> nat" where
  "FindSubmission submissionID = readN (tryT
     (bindT (scanSubmissionRows ''find submission failed''
        (\<lambda>d. selectSubmissions (filter (\<lambda>s. sb_id s = submissionID) (submissions d)) d))
     (\<lambda>values. case values of
        [v] \<Rightarrow> retT v | _ \<Rightarrow> raiseT (NewDomainError ErrorCodeNotFound ''submission was not found''))))"

definition listSubmissions ::
  "string \<Rightarrow> string \<Rightarrow> (submission_row \<Rightarrow> bool) \<Rightarrow> Page \<Rightarrow> env \<Rightarrow> nat \<Rightarrow> db \<Rightarrow> (Submission list \<times> nat) result \<times> nat" where
  "listSubmissions countFailure listFailure p page = readN (tryT
     (bindT (queryT (invalidState countFailure) (\<lambda>d. length (filter p (submissions d))))
     (\<lambda>total. bindT (scanSubmissionRows listFailure
        (\<lambda>d. sqlPage page (selectSubmissions (sort_key sb_created_at (filter p (submissions d))) d)))
     (\<lambda>values. retT (values, total)))))"

definition ListForSubmitter :: "UserID \<Rightarrow> Page \<Rightarrow> env \<Rightarrow> nat \<Rightarrow> db \<Rightarrow> (Submission list \<times> nat) result \<times> nat" where
  "ListForSubmitter submitterID =
     listSubmissions ''count submitter submissions failed'' ''list submitter submissions failed'' (\<lambda>s. sb_user s = submitterID)"

definition ListForTask :: "TaskID \<Rightarrow> Page \<Rightarrow> env \<Rightarrow> nat \<Rightarrow> db \<Rightarrow> (Submission list \<times> nat) result \<times> nat" where
  "ListForTask taskID =
     listSubmissions ''count submissions failed'' ''list submissions failed'' (\<lambda>s. sb_task s = taskID)"

section \<open>Creating a submission keeps the invariants\<close>

lemma wp_consumeSubmissionBudget [wp_rules]:
  assumes "\<And>d'. books d' = books d \<Longrightarrow> Q () d'" "\<And>r. E r id"
  shows "wp e (consumeSubmissionBudget c k) Q E d"
  unfolding consumeSubmissionBudget_def
  by (auto intro!: wp_rules assms split: dayCounterChargeResult.split)

lemma reads_fetchUserDisplayName [reads_rules]: "reads e (fetchUserDisplayName u)"
  unfolding fetchUserDisplayName_def by (auto intro!: readsI wp_rules)

text \<open>The writes besides the submission row itself.\<close>

inductive filedWith :: "db \<Rightarrow> db \<Rightarrow> bool" where
  token: "insertReceiptToken r d = Some d' \<Longrightarrow> filedWith d d'"
| problem: "insertValidationError v d = Some d' \<Longrightarrow> filedWith d d'"
| sensitive: "insertSensitiveField f d = Some d' \<Longrightarrow> filedWith d d'"
| attachment: "insertSubmissionAttachment a d = Some d' \<Longrightarrow> filedWith d d'"
| reservation: "updateReservations p ReservationStateSubmitted d = Some d' \<Longrightarrow> filedWith d d'"

inductive_cases filedWith_E: "filedWith d d'"

context tx_invariant
begin

lemma keeps_chargeSubmission [safe_rules]: "Q () \<Longrightarrow> keeps I R e Q (chargeSubmission b)"
  unfolding chargeSubmission_def
  by (cases b) (auto intro!: safe_rules keepsI wp_orRefuse wp_rules step_books simp: quietly_def)

lemma keeps_fetch [safe_rules]: "(\<And>a. Q a) \<Longrightarrow> keeps I R e Q (fetchUserDisplayName u)"
  by (rule keeps_reads [OF reads_fetchUserDisplayName])

text \<open>What the statements of the transaction have to keep.\<close>

lemma keeps_createSubmissionTx:
  assumes insert: "\<And>d d' now response. \<lbrakk>I d; insertSubmission (submissionColumns i c st now response) d = Some d'\<rbrakk> \<Longrightarrow> R d d'"
    and filed: "\<And>d d'. \<lbrakk>I d; filedWith d d'\<rbrakk> \<Longrightarrow> R d d'"
  shows "keeps I R e (\<lambda>_. True) (createSubmissionTx i ri h c st out sf)"
  unfolding createSubmissionTx_def insertValidationErrors_def insertSensitiveFields_def insertSubmissionAttachments_def
  by (intro safe_rules keeps_exec) (auto intro: insert filed filedWith.intros split: option.splits)

lemma method_CreateSubmission:
  assumes run: "CreateSubmission i ri h c st out sf e n d = (r, n', d')" and ok: "I d"
    and tx: "keeps I R e (\<lambda>_. True) (createSubmissionTx i ri h c st out sf)"
  shows "R d d' \<and> ((\<exists>reason. r = CreateSubmissionStoreRejected reason) \<longrightarrow> books d' = books d)"
  using run keeps_commit [OF _ ok tx]
  by (fastforce simp: CreateSubmission_def split: prod.splits sum.splits)

end

text \<open>The statements touch no table that the money and custody invariants read.\<close>

lemma filedWith_same:
  assumes "filedWith d d'"
  shows "tasks d' = tasks d" "task_funds d' = task_funds d" "collectibles d' = collectibles d"
    "task_fund_collectibles d' = task_fund_collectibles d" "sameCredits d d'" "submissions d' = submissions d"
  using assms
  by (auto elim!: filedWith_E simp: insert_defs updateReservations_def sameCredits_def Let_def split: if_splits)

lemma insertSubmission_same:
  assumes "insertSubmission s d = Some d'"
  shows "d' = d\<lparr>submissions := submissions d @ [s]\<rparr>" "sb_id s \<notin> sb_id ` set (submissions d)"
    "single_accepted (submissions d @ [s])" "sb_user s \<in> us_id ` set (users d)"
  using assms by (auto simp: insertSubmission_def Let_def split: if_splits)

lemma conserves_submission:
  assumes "db_ok d" "insertSubmission s d = Some d'"
  shows "conserves d d'"
  using assms(1) insertSubmission_same(1,3) [OF assms(2)]
  by (auto simp: conserves_def db_ok_def funds_ok_def ledger_ok_def solvent_iff spendableOf_def totalCredits_def issued_def)

lemma safe_createSubmissionTx: "safe e (\<lambda>_. True) (createSubmissionTx i ri h c st out sf)"
  by (rule credit.keeps_createSubmissionTx) (auto intro: conserves_submission conserves_same filedWith_same(5))

lemma guarded_createSubmissionTx: "guarded e (\<lambda>_. True) (createSubmissionTx i ri h c st out sf)"
proof (rule custody.keeps_createSubmissionTx)
  show "custody_ok d'" if "custody_ok d" "insertSubmission s d = Some d'" for d d' s
    using that(1) ready_same(1) [of d' d] insertSubmission_same(1) [OF that(2)] by simp
  show "custody_ok d'" if "custody_ok d" "filedWith d d'" for d d'
    using that(1) ready_same(1) [OF filedWith_same(1-4) [OF that(2)]] by simp
qed

end
