(* ===== verification/Platform.thy ===== *)
theory Platform
  imports SubmissionStore
begin

text \<open>
  The stores as one machine: every modelled mutation is a command, a run is any
  interleaving of commands, each with its own pattern of database failures.  The
  invariants of the component theories hold in every state a run reaches.
\<close>

section \<open>Commands\<close>

datatype StoreCommand =
    CmdFundTask FundStoreCommand
  | CmdFundTaskFromOrganization OrganizationFundStoreCommand
  | CmdAcceptSubmission AcceptStoreCommand
  | CmdRequestChanges RequestChangesStoreCommand
  | CmdRejectSubmission RejectStoreCommand
  | CmdRefundTask RefundStoreCommand
  | CmdGrantCredits GrantStoreCommand
  | CmdPeerTransfer PeerTransferStoreCommand
  | CmdFundCollectibleReward CollectibleID UserID TaskID
  | CmdRefundCollectibleReward TaskID UserID
  | CmdGiftCollectible CollectibleID UserID UserID Draft
  | CmdAwardOrganizationCollectible CollectibleID OrganizationID UserID Draft
  | CmdChangeTaskState TaskID TaskState Plan
  | CmdCreateTask TaskSeriesID TaskID CreateCommand
  | CmdCreateSubmission SubmissionID SubmissionReceiptTokenID string SubmitCommand SubmissionState ValidationOutcome
      "StoredSensitiveField list"
  | CmdCreateReservation TaskReservationID ReservationCommand
  | CmdChangeReservationState TaskID TaskReservationID ReservationState Plan
  | CmdCheckSubmissionEligibility TaskID UserID
  | CmdExpireDueTasks
  | CmdExpireDueReservations
  | CmdEvictStaleWorkDayCounters

fun execute :: "StoreCommand \<Rightarrow> env \<Rightarrow> nat \<Rightarrow> db \<Rightarrow> db" where
  "execute (CmdFundTask c) e n d = snd (FundTask c e n d)"
| "execute (CmdFundTaskFromOrganization c) e n d = snd (FundTaskFromOrganization c e n d)"
| "execute (CmdAcceptSubmission c) e n d = snd (AcceptSubmission c e n d)"
| "execute (CmdRequestChanges c) e n d = snd (RequestChanges c e n d)"
| "execute (CmdRejectSubmission c) e n d = snd (RejectSubmission c e n d)"
| "execute (CmdRefundTask c) e n d = snd (RefundTask c e n d)"
| "execute (CmdGrantCredits c) e n d = snd (GrantCredits c e n d)"
| "execute (CmdPeerTransfer c) e n d = snd (PeerTransfer c e n d)"
| "execute (CmdFundCollectibleReward c u t) e n d = snd (FundCollectibleReward c u t e n d)"
| "execute (CmdRefundCollectibleReward t u) e n d = snd (RefundCollectibleReward t u e n d)"
| "execute (CmdGiftCollectible c u v dr) e n d = snd (GiftCollectible c u v dr e n d)"
| "execute (CmdAwardOrganizationCollectible c i u dr) e n d = snd (AwardOrganizationCollectible c i u dr e n d)"
| "execute (CmdChangeTaskState t st plan) e n d = snd (ChangeTaskState t st plan e n d)"
| "execute (CmdCreateTask s t c) e n d = snd (CreateTask s t c e n d)"
| "execute (CmdCreateSubmission i ri h c st out sf) e n d = snd (snd (CreateSubmission i ri h c st out sf e n d))"
| "execute (CmdCreateReservation i c) e n d = snd (CreateReservation i c e n d)"
| "execute (CmdChangeReservationState t i st plan) e n d = snd (ChangeReservationState t i st plan e n d)"
| "execute (CmdCheckSubmissionEligibility t u) e n d = snd (snd (CheckSubmissionEligibility t u e n d))"
| "execute CmdExpireDueTasks e n d = snd (ExpireDueTasks e n d)"
| "execute CmdExpireDueReservations e n d = snd (ExpireDueReservations e n d)"
| "execute CmdEvictStaleWorkDayCounters e n d = snd (EvictStaleWorkDayCounters e n d)"

text \<open>
  The credit selection of an acceptance is made by the front ends from the amount of the
  request; MCP has the same function as HTTP.  It pays in full or in part.
\<close>

definition acceptCreditSelection :: "int \<Rightarrow> string + CreditReviewSelection" where
  "acceptCreditSelection amount =
     (if amount < 0 then Inl ''payout amount cannot be negative''
      else if amount = 0 then Inr FullCreditReviewSelection
      else case NewCreditAmount amount of
        Inl reason \<Rightarrow> Inl (Description reason)
      | Inr credit \<Rightarrow> Inr (PartialCreditReviewSelection credit))"

lemma acceptance_pays: "acceptCreditSelection amount = Inr selection \<Longrightarrow> selection \<noteq> NoCreditReviewSelection"
  by (auto simp: acceptCreditSelection_def split: if_splits sum.splits)

text \<open>
  The commands that reach the store: amounts come from \<open>NewCreditAmount\<close> and are positive,
  task states are the ones the transitions produce, collectibles are promised only with a
  task that declares such a reward, and a submission starts in the state of its validation;
  the services see to that.  That an acceptance pays the reward in full or in part is up to
  the front ends: \<open>ledger.Service\<close> and the store take the empty selection too, and would then
  close a bundle task with its credits still held.
\<close>

fun issuable :: "StoreCommand \<Rightarrow> bool" where
  "issuable (CmdAcceptSubmission c) \<longleftrightarrow> valid_tip (ac_tip c) \<and> ac_credit c \<noteq> NoCreditReviewSelection"
| "issuable (CmdRejectSubmission c) \<longleftrightarrow> valid_tip (jc_tip c)"
| "issuable (CmdGrantCredits c) \<longleftrightarrow> 0 < gc_amount c"
| "issuable (CmdPeerTransfer c) \<longleftrightarrow> 0 < pc_amount c"
| "issuable (CmdChangeTaskState t st plan) \<longleftrightarrow> st \<in> {StateDraft, StateOpen, StateCancelled}"
| "issuable (CmdCreateTask s t c) \<longleftrightarrow> promises c"
| "issuable (CmdCreateSubmission i ri h c st out sf) \<longleftrightarrow> st = StateForValidation out"
| "issuable _ \<longleftrightarrow> True"

text \<open>Stored task ids are canonical UUIDs, which the parser returns unchanged.\<close>

definition canonical :: "env \<Rightarrow> db \<Rightarrow> bool" where
  "canonical e d \<longleftrightarrow> (\<forall>r \<in> set (tasks d). uuid_parse e (tk_id r) = Inr (tk_id r))"

section \<open>Every command keeps the invariants\<close>

definition accounted :: "int \<Rightarrow> db \<Rightarrow> bool" where
  "accounted offset d \<longleftrightarrow> db_ok d \<and> totalCredits d = issued d + offset"

lemma accounted_conserves: "\<lbrakk>accounted k d; conserves d d'\<rbrakk> \<Longrightarrow> accounted k d'"
  by (simp add: accounted_def conserves_def)

lemma evict_books: "books (snd (EvictStaleWorkDayCounters e n d)) = books d"
  by (simp add: EvictStaleWorkDayCounters_def books_def)

lemma safe_kind [safe_rules]:
  "\<lbrakk>safe e Q m1; safe e Q m2; safe e Q m3; safe e Q m4\<rbrakk> \<Longrightarrow> safe e Q (case k of RewardKindNone \<Rightarrow> m1
     | RewardKindCredit \<Rightarrow> m2 | RewardKindCollectible \<Rightarrow> m3 | RewardKindBundle \<Rightarrow> m4)"
  by (cases k) simp_all

lemmas safe_method = safe_run [THEN conjunct1]

lemma FundCollectibleReward_conserves:
  "\<lbrakk>FundCollectibleReward c u t e n d = (r, d'); db_ok d\<rbrakk> \<Longrightarrow> conserves d d'"
  unfolding FundCollectibleReward_def
  by (erule safe_method [where success = "\<lambda>r. \<exists>x. r = RewardFunded x"], assumption) (intro safe_rules | simp)+

lemma RefundCollectibleReward_conserves:
  "\<lbrakk>RefundCollectibleReward t u e n d = (r, d'); db_ok d\<rbrakk> \<Longrightarrow> conserves d d'"
  unfolding RefundCollectibleReward_def
  by (erule safe_method [where success = "\<lambda>r. \<exists>x. r = RewardRefunded x"], assumption) (intro safe_rules | simp)+

lemma GiftCollectible_conserves:
  "\<lbrakk>GiftCollectible c u v dr e n d = (r, d'); db_ok d\<rbrakk> \<Longrightarrow> conserves d d'"
  unfolding GiftCollectible_def
  by (erule safe_method [where success = "\<lambda>r. \<exists>x ds. r = CollectibleGifted x ds"], assumption) (intro safe_rules | simp)+

lemma AwardOrganizationCollectible_conserves:
  "\<lbrakk>AwardOrganizationCollectible c i v dr e n d = (r, d'); db_ok d\<rbrakk> \<Longrightarrow> conserves d d'"
  unfolding AwardOrganizationCollectible_def
  by (erule safe_method [where success = "\<lambda>r. \<exists>x ds. r = CollectibleGifted x ds"], assumption) (intro safe_rules | simp)+

lemma Eligibility_conserves: "db_ok d \<Longrightarrow> conserves d (snd (snd (CheckSubmissionEligibility t u e n d)))"
  by (metis task_store_conserves(4) prod.collapse)

lemma CreateTask_conserves: "db_ok d \<Longrightarrow> conserves d (snd (CreateTask s t c e n d))"
  by (rule credit.method_CreateTask [OF surjective_pairing _ safe_createTaskTx]) simp_all

lemma CreateSubmission_conserves: "db_ok d \<Longrightarrow> conserves d (snd (snd (CreateSubmission i ri h c st out sf e n d)))"
  by (metis credit.method_CreateSubmission [OF _ _ safe_createSubmissionTx] prod.collapse)

lemmas command_conserves =
  CreateTask_conserves CreateSubmission_conserves
  FundTask_safe [THEN conjunct1, OF surjective_pairing] FundTaskFromOrganization_safe [THEN conjunct1, OF surjective_pairing]
  AcceptSubmission_safe [THEN conjunct1, OF surjective_pairing] RequestChanges_safe [THEN conjunct1, OF surjective_pairing]
  RejectSubmission_safe [THEN conjunct1, OF surjective_pairing] RefundTask_safe [THEN conjunct1, OF surjective_pairing]
  PeerTransfer_safe [THEN conjunct1, OF surjective_pairing]
  FundCollectibleReward_conserves [OF surjective_pairing] RefundCollectibleReward_conserves [OF surjective_pairing]
  GiftCollectible_conserves [OF surjective_pairing] AwardOrganizationCollectible_conserves [OF surjective_pairing]
  task_store_conserves(1-3,5-6) [OF surjective_pairing]
  Eligibility_conserves

lemma command_accounted:
  assumes "accounted k d" "issuable c"
  shows "accounted k (execute c e n d)"
proof -
  have ok: "db_ok d" using assms(1) by (simp add: accounted_def)
  have same: "accounted k d'" if "books d' = books d" for d'
    using assms(1) accounted_conserves conserves_books [OF ok that] by blast
  have step: "accounted k d'" if "conserves d d'" for d'
    using assms(1) that by (rule accounted_conserves)
  show ?thesis
  proof (cases c)
    case (CmdGrantCredits g)
    have "grantPost g d (fst (GrantCredits g e n d)) (snd (GrantCredits g e n d))"
      using GrantCredits_post [OF surjective_pairing ok] assms(2) CmdGrantCredits by simp
    with assms(1) same show ?thesis
      by (auto simp: CmdGrantCredits grantPost_def accounted_def split: GrantResult.splits Execution.splits)
  next
    case CmdEvictStaleWorkDayCounters
    then show ?thesis by (simp add: same evict_books)
  qed (use assms(2) in \<open>auto intro!: step command_conserves ok\<close>)
qed

lemmas command_guards =
  guarded_FundTask [OF surjective_pairing] guarded_FundTaskFromOrganization [OF surjective_pairing]
  guarded_RequestChanges [OF surjective_pairing] guarded_RejectSubmission [OF surjective_pairing]
  guarded_RefundTask [OF surjective_pairing] guarded_GrantCredits [OF surjective_pairing]
  guarded_PeerTransfer [OF surjective_pairing] guarded_FundCollectibleReward [OF surjective_pairing]
  guarded_RefundCollectibleReward [OF surjective_pairing] guarded_GiftCollectible [OF surjective_pairing]
  guarded_AwardOrganizationCollectible [OF surjective_pairing]
  custody.method_CreateReservation [OF surjective_pairing _ guarded_releaseInTx [OF TrueI] guarded_createReservationTx [OF TrueI]]
  custody.method_ChangeReservationState [OF surjective_pairing _ guarded_releaseInTx [OF TrueI]
    guarded_changeReservationStateTx [OF TrueI]]
  custody.method_ExpireDueReservations [OF surjective_pairing _ guarded_releaseInTx [OF TrueI]]

lemma command_guarded:
  assumes "custody_ok d" "issuable c" "canonical e d"
  shows "custody_ok (execute c e n d)"
proof (cases c)
  case (CmdAcceptSubmission x)
  then show ?thesis using assms guarded_AcceptSubmission [OF surjective_pairing] by simp
next
  case (CmdChangeTaskState t st plan)
  then have "guarded e (\<lambda>_. True) (changeTaskStateTx t st plan)"
    using assms(2) by (intro guarded_changeTaskStateTx) simp_all
  with assms(1) show ?thesis
    unfolding CmdChangeTaskState by (simp add: custody.method_ChangeTaskState [OF surjective_pairing])
next
  case (CmdCheckSubmissionEligibility t u)
  obtain r n' d' where run: "CheckSubmissionEligibility t u e n d = (r, n', d')" by (metis prod_cases3)
  from custody.method_CheckSubmissionEligibility [OF run assms(1) guarded_releaseInTx [OF TrueI]]
  show ?thesis by (simp add: CmdCheckSubmissionEligibility run)
next
  case (CmdCreateTask s t x)
  with assms have "promises x" by simp
  then show ?thesis
    using custody.method_CreateTask [OF surjective_pairing assms(1) guarded_createTaskTx] by (simp add: CmdCreateTask)
next
  case (CmdCreateSubmission i ri h x st out sf)
  then show ?thesis
    by (metis custody.method_CreateSubmission [OF _ assms(1) guarded_createSubmissionTx] prod.collapse execute.simps)
next
  case CmdExpireDueTasks
  have "guarded e (\<lambda>_. True) (expireLockedTask raw t u)"
    if "raw \<in> tk_id ` set (tasks d)" "ParseTaskID e raw = Inr t" for raw t u
    using that assms(3) by (intro guarded_expireLockedTask) (auto simp: canonical_def ParseTaskID_def)
  then show ?thesis
    unfolding CmdExpireDueTasks execute.simps
    by (rule custody.method_ExpireDueTasks [OF surjective_pairing assms(1)])
next
  case CmdEvictStaleWorkDayCounters
  then show ?thesis using guarded_books [OF assms(1) evict_books] by simp
qed (use assms(1) in \<open>simp_all add: command_guards\<close>)

section \<open>Runs\<close>

inductive runs :: "db \<Rightarrow> db \<Rightarrow> bool" where
  start: "runs d d"
| step: "\<lbrakk>runs d d1; issuable c; canonical e d1\<rbrakk> \<Longrightarrow> runs d (execute c e n d1)"

inductive_cases runs_E: "runs d d'"

text \<open>What a predicate on the tables offers to the machine.\<close>

locale store_invariant =
  fixes inv :: "db \<Rightarrow> bool"
  assumes command_keeps: "\<lbrakk>inv d; issuable c; canonical e d\<rbrakk> \<Longrightarrow> inv (execute c e n d)"
begin

lemma runs_keep: "runs d d' \<Longrightarrow> inv d \<Longrightarrow> inv d'"
  by (induction rule: runs.induct) (auto intro: command_keeps)

end

interpretation accounting: store_invariant "accounted k" for k
  by unfold_locales (rule command_accounted)

interpretation escrow: store_invariant custody_ok
  by unfold_locales (rule command_guarded)

lemma allocated_nonneg: "db_ok d \<Longrightarrow> 0 \<le> sumOf tf_amount (filter p (task_funds d))"
  by (intro sumOf_nonneg) (auto simp: db_ok_def funds_ok_def intro: less_imp_le)


end
