(* ===== verification/Effects.thy ===== *)
theory Effects
  imports Platform
begin

text \<open>
  What the ledger's transactions do when they succeed: the exact rows they write,
  the guards that held, and how a repeated command replays.
\<close>

section \<open>Funding\<close>

lemma wp_lockUserAccount_row:
  "\<lbrakk>\<And>r p. rowWhere (\<lambda>r. ca_user r = Some u) (credit_accounts d) = Some r \<Longrightarrow> Q (ca_id r, p) d; \<And>r. E r id\<rbrakk>
    \<Longrightarrow> wp e (lockUserAccount u) Q E d"
  unfolding lockUserAccount_def by (intro wp_rules) simp_all

definition userAccount :: "db \<Rightarrow> UserID \<Rightarrow> CreditAccountID option" where
  "userAccount d u = map_option ca_id (rowWhere (\<lambda>r. ca_user r = Some u) (credit_accounts d))"

text \<open>The funded task was a draft of the funder, the account could pay, and the
  ledger and the fund table each got one row.\<close>

definition fundedEffect :: "FundStoreCommand \<Rightarrow> db \<Rightarrow> db \<Rightarrow> bool" where
  "fundedEffect c d d' \<longleftrightarrow> (case (userAccount d (fc_funder c), taskById (fc_task c) d) of
     (Some acc, Some r) \<Rightarrow>
       tk_created_by r = fc_funder c \<and> tk_state r = StateDraft \<and> fc_amount c \<le> spendableOf d acc \<and>
       (tk_reward_kind r \<in> {RewardKindCredit, RewardKindBundle} \<longrightarrow> tk_reward_amount r = Some (fc_amount c)) \<and>
       \<not> (\<exists>f \<in> set (task_funds d). tf_task f = fc_task c) \<and> 0 < fc_amount c \<and>
       entryForKey (fc_key c) acc d = None \<and> credit_accounts d' = credit_accounts d \<and>
       task_funds d' = task_funds d @ [\<lparr>tf_task = fc_task c, tf_account = acc, tf_amount = fc_amount c\<rparr>] \<and>
       ledger_entries d' = ledger_entries d @ [\<lparr>le_id = fc_entry c, le_account = acc, le_kind = EntryKindTaskFund,
         le_amount = - fc_amount c, le_task = Some (fc_task c), le_key = Some (fc_key c), le_note = None\<rparr>]
   | _ \<Rightarrow> False)"

lemma wp_requireFundable_effect:
  assumes "\<And>d'. \<lbrakk>tl_state row = StateDraft;
        tl_reward_kind row \<in> {RewardKindCredit, RewardKindBundle} \<longrightarrow> tl_reward_amount row = a;
        ledger_entries d' = ledger_entries d; task_funds d' = task_funds d; credit_accounts d' = credit_accounts d\<rbrakk>
      \<Longrightarrow> Q () d'" "\<And>r. E r id"
  shows "wp e (requireFundableTask t row a) Q E d"
  unfolding requireFundableTask_def
  by (intro wp_rules assms(2) assms(1))
     (auto simp: requireCreditRewardFunding_def updateTask_def split: RewardKind.splits if_splits)

lemma spendableOf_ledger: "ledger_entries d' = ledger_entries d \<Longrightarrow> spendableOf d' = spendableOf d"
  by (simp add: spendableOf_def fun_eq_iff)

lemma wp_completeFunding_effect:
  assumes "\<And>d' c f. \<lbrakk>\<not> (\<exists>f \<in> set (task_funds d). tf_task f = t); a \<le> spendableOf d (fst acc);
        0 < a; credit_accounts d' = credit_accounts d; task_funds d' = task_funds d @ [\<lparr>tf_task = t, tf_account = fst acc, tf_amount = a\<rparr>];
        ledger_entries d' = ledger_entries d @ [\<lparr>le_id = i, le_account = fst acc, le_kind = EntryKindTaskFund,
          le_amount = - a, le_task = Some t, le_key = Some k, le_note = None\<rparr>]\<rbrakk>
      \<Longrightarrow> Q (FundRejected c, TaskFunded f FirstExecution [dr]) d'"
    and "\<And>r. E (FundRejected r) id"
  shows "wp e (completeFunding acc t a i k msg dr) Q E d"
  unfolding completeFunding_def
proof (intro wp_rules assms(2), goal_cases)
  case (1 d1 d2 d3)
  then show ?case by (intro assms(1)) (simp_all add: insertFund_Some insertLedger_Some books_eqD(1-3) [OF 1(5)])
qed

lemma wp_findFund_row:
  "\<lbrakk>entryForKey key acc d = None \<Longrightarrow> Q () d; \<And>r. E (FundRejected r) id; \<And>f. E (TaskFunded f IdempotentReplay []) id\<rbrakk>
    \<Longrightarrow> wp e (findFundForKey key t acc) Q E d"
  unfolding findFundForKey_def by (intro wp_rules) simp_all

lemma FundTask_effect:
  assumes "FundTask c e n d = (TaskFunded f FirstExecution ds, d')"
  shows "fundedEffect c d d'"
proof -
  let ?P = "\<lambda>r d'. (\<exists>f ds. r = TaskFunded f FirstExecution ds) \<longrightarrow> fundedEffect c d d'"
  have "?P (TaskFunded f FirstExecution ds) d'"
  proof (rule runT_rule [OF assms [unfolded FundTask_def], where P = ?P], goal_cases)
    case 1
    show ?case
    proof (intro wp_bind wp_lift wp_lockUserAccount_row wp_findFund_row wp_lockTaskOwnedBy
        wp_requireFundable_effect wp_orRefuse wp_applySpendCharge wp_completeFunding_effect, goal_cases)
      case (1 acc p r d1 d2 d3 cerr f)
      from books_eqD(1-3) [OF 1(10)] 1(7-9) have same: "ledger_entries d2 = ledger_entries d"
          "task_funds d2 = task_funds d" "credit_accounts d2 = credit_accounts d"
        by simp_all
      from 1(1-6,11-) show ?case unfolding same spendableOf_ledger [OF same(1)]
        by (auto simp: fundedEffect_def userAccount_def taskLocked_of_def split: option.splits)
    qed auto
  qed simp
  then show ?thesis by simp
qed

text \<open>The recorded entry answers a retry with the same key, whatever else changed.\<close>

lemma entryForKey_new:
  assumes "entryForKey k acc d = None" "ledger_entries d' = ledger_entries d @ [row]" "le_key row = Some k" "le_account row = acc"
  shows "entryForKey k acc d' = Some row"
  using assms(1) unfolding assms(2) by (simp add: rowWhere_append assms(3,4))

lemma run_lockUserAccount:
  assumes "quiet e" "rowWhere (\<lambda>r. ca_user r = Some u) (credit_accounts d) = Some r"
  shows "lockUserAccount u e n d = (Cont (ca_id r, ca_id r), n + 2, d)"
  using assms by (simp add: lockUserAccount_def run_rules quiet_def ParseCreditAccountID_def)

lemma FundTask_replays:
  assumes "FundTask c e n d = (TaskFunded f FirstExecution ds, d')" "quiet e'"
  shows "FundTask c e' m d' = (TaskFunded \<lparr>fund_task = fc_task c, fund_account = the (userAccount d (fc_funder c)),
     fund_amount = fc_amount c\<rparr> IdempotentReplay [], d')"
proof -
  from FundTask_effect [OF assms(1)] obtain row r where
    acc: "rowWhere (\<lambda>r. ca_user r = Some (fc_funder c)) (credit_accounts d) = Some row" "credit_accounts d' = credit_accounts d"
    and entry: "entryForKey (fc_key c) (ca_id row) d = None" "0 < fc_amount c"
      "ledger_entries d' = ledger_entries d @ [\<lparr>le_id = fc_entry c, le_account = ca_id row, le_kind = EntryKindTaskFund,
         le_amount = - fc_amount c, le_task = Some (fc_task c), le_key = Some (fc_key c), le_note = None\<rparr>]"
    by (auto simp: fundedEffect_def userAccount_def split: option.splits)
  have "FundTask c e' m d' = (TaskFunded \<lparr>fund_task = fc_task c, fund_account = ca_id row,
     fund_amount = fc_amount c\<rparr> IdempotentReplay [], d')"
    using assms(2) entry(2) entryForKey_new [OF entry(1,3)] acc
    by (simp add: FundTask_def run_rules quiet_def run_lockUserAccount [OF assms(2)] findFundForKey_def buildFund_def
        ParseCreditAccountID_def NewCreditAmount_def)
  with acc show ?thesis by (simp add: userAccount_def)
qed

section \<open>Authority\<close>

definition memberMay :: "db \<Rightarrow> OrganizationID \<Rightarrow> UserID \<Rightarrow> Permission \<Rightarrow> bool" where
  "memberMay d i u perm \<longleftrightarrow> (\<exists>roles. map ParseRole (memberRoles d i u) = map Inr roles \<and>
     CheckPermission roles perm = PermissionGranted)"

lemma wp_mapT_parse:
  assumes "\<And>vs. map (p e) rs = map Inr vs \<Longrightarrow> Q vs s" "E err id" "\<And>r. E r id"
  shows "wp e (mapT rs (\<lambda>r. bindT (queryT err (\<lambda>_. r)) (parseT p))) Q E s"
  using assms(1)
proof (induction rs arbitrary: Q)
  case (Cons r rs)
  have "wp e (mapT rs (\<lambda>r. bindT (queryT err (\<lambda>_. r)) (parseT p))) (\<lambda>ys. wp e (retT (v # ys)) Q E) E s"
    if "p e r = Inr v" for v
    by (rule Cons.IH) (auto intro!: wp_ret Cons.prems simp: that)
  then show ?case by (auto intro!: wp_rules assms(2,3))
qed (simp add: wp_ret)

lemma wp_memberPermission:
  assumes "\<And>check. (check = PermissionGranted \<Longrightarrow> memberMay d i u perm) \<Longrightarrow> Q check d"
  shows "wp e (organizationMemberPermission i u perm) Q E d"
  unfolding organizationMemberPermission_def scanT_def
  by (intro wp_bind wp_try wp_query wp_mapT_parse) (auto intro!: wp_rules assms simp: memberMay_def)

text \<open>Who may review: the owner, a member with the review permission, or the owning organization's credential.\<close>

definition mayReview :: "db \<Rightarrow> TaskID \<Rightarrow> Reviewer \<Rightarrow> bool" where
  "mayReview d t reviewer \<longleftrightarrow> (\<exists>r. taskById t d = Some r \<and> (case reviewer of
     UserReviewer u \<Rightarrow> tk_created_by r = u \<or>
       (\<exists>i. tk_organization r = Some i \<and> memberMay d i u PermissionReviewSubmissions)
   | OrganizationReviewer i \<Rightarrow> tk_organization r = Some i))"

lemma wp_lockReview_auth:
  assumes "\<And>r. \<lbrakk>taskById t d = Some r; mayReview d t rv\<rbrakk> \<Longrightarrow> Q (taskLocked_of r) d" "\<And>r. E r id"
  shows "wp e (lockTaskForReview t rv act) Q E d"
  unfolding lockTaskForReview_def Let_def
proof (intro wp_rules assms(2), goal_cases)
  case (1 r)
  then show ?case
    by (cases rv; cases "tk_organization r")
       (auto intro!: wp_if wp_raise wp_ret wp_bind wp_memberPermission assms(2) assms(1) simp: mayReview_def)
qed

lemma wp_top: "wp e m (\<lambda>_ _. True) (\<lambda>_ _. True) s"
  by (simp add: wp_def split: prod.split outcome.split)

lemma review_authorized:
  assumes "runT b (bindT (liftT w (lockTaskForReview t rv act)) k) e n d = (r, d')"
    and "\<And>x. \<not> success (w x)" "\<not> success b" "success r"
  shows "mayReview d t rv"
proof -
  have "success r \<longrightarrow> mayReview d t rv"
    by (rule runT_rule [OF assms(1), where P = "\<lambda>r _. success r \<longrightarrow> mayReview d t rv"],
        intro wp_bind wp_lift wp_lockReview_auth, rule wp_mono [OF wp_top]) (auto simp: assms(2,3))
  with assms(4) show ?thesis by simp
qed


section \<open>Counters\<close>

lemma rowWhere_bump:
  "rowWhere (\<lambda>r. ct_key r = k' \<and> ct_day r = day') (updateWhere (\<lambda>r. ct_key r = k \<and> ct_day r = day)
       (ct_used_update (\<lambda>u. u + a)) rows) =
     map_option (\<lambda>r. if k = k' \<and> day = day' then ct_used_update (\<lambda>u. u + a) r else r)
       (rowWhere (\<lambda>r. ct_key r = k' \<and> ct_day r = day') rows)"
  by (induction rows) auto

lemma usedOf_bump:
  "usedOf (bumpCounter k day a d) k' day' = usedOf d k' day' + (if k = k' \<and> day = day' then a else 0)"
  by (auto simp: usedOf_def bumpCounter_def rowWhere_append rowWhere_bump split: option.split)

lemma bumpCounter_sel [simp]:
  "ledger_entries (bumpCounter key day a d) = ledger_entries d" "task_funds (bumpCounter key day a d) = task_funds d"
  using books_eqD(2,3) [OF books_bumpCounter] by blast+

lemma usedOf_books_writes:
  "insertLedger row d = Some d' \<Longrightarrow> usedOf d' = usedOf d"
  "insertEvent dr d = Some d' \<Longrightarrow> usedOf d' = usedOf d"
  by (auto simp: insertLedger_def insertEvent_def usedOf_def fun_eq_iff split: if_splits)

lemma wp_charge_exact:
  assumes "Q dayCounterChargeFailed d"
    and "usedOf d key day + amount \<le> cap \<Longrightarrow> Q dayCounterCharged (bumpCounter key day amount d)"
    and "\<And>d' u. Q (dayCounterExhausted u) d'"
  shows "wp e (chargeWorkDayCounter key day amount cap) Q E d"
  using assms by (auto simp: wp_def chargeWorkDayCounter_def Let_def)

lemma wp_velocity_exact:
  assumes "\<And>day. usedOf d (workDayKeyPeerSend @ acc) day + a \<le> DailyPeerTransferCeilingCredits \<Longrightarrow>
      Q () (bumpCounter (workDayKeyPeerSend @ acc) day a d)" "\<And>r. E r id"
  shows "wp e (applyPeerTransferVelocity acc a) Q E d"
  unfolding applyPeerTransferVelocity_def
  by (intro wp_bind wp_ask wp_charge_exact) (auto intro!: wp_rules assms)

lemma wp_spend_exact:
  assumes "charge = NoSpendCharge \<Longrightarrow> Q () d"
    and "\<And>cred cap a day. \<lbrakk>charge = ChargeSpendBudget cred cap a;
        usedOf d (workDayKeyAgentSpend @ cred) day + a \<le> cap\<rbrakk> \<Longrightarrow>
      Q () (bumpCounter (workDayKeyAgentSpend @ cred) day a d)" "\<And>r. E r id"
  shows "wp e (applySpendCharge charge) Q E d"
  unfolding applySpendCharge_def
  by (cases charge) (auto intro!: wp_bind wp_ask wp_charge_exact wp_lockCredential wp_rules assms)

lemma wp_record_exact:
  assumes "E err id" and "\<And>d'. \<lbrakk>books d' = books d; usedOf d' = usedOf d\<rbrakk> \<Longrightarrow> Q () d'"
  shows "wp e (recordEventDraftInTx err draft) Q E d"
  unfolding recordEventDraftInTx_def
proof (intro wp_bind wp_query wp_exec assms(1))
  fix d' assume "insertEvent draft d = Some d'"
  then have "books d' = books d \<and> usedOf d' = usedOf d" by (simp add: insertEvent_books usedOf_books_writes)
  then show "wp e (forT (dr_recipients draft) (\<lambda>u. queryT err (\<lambda>d. ()))) Q E d'"
    by (intro wp_for [where I = "\<lambda>t. books t = books d \<and> usedOf t = usedOf d"] wp_query assms) auto
qed


section \<open>Peer transfers\<close>

definition organizationAccount :: "db \<Rightarrow> OrganizationID \<Rightarrow> CreditAccountID option" where
  "organizationAccount d i = map_option ca_id (rowWhere (\<lambda>r. ca_organization r = Some i) (credit_accounts d))"

fun accountOf :: "db \<Rightarrow> transferAccountRef \<Rightarrow> CreditAccountID option" where
  "accountOf d (refUser u) = userAccount d u"
| "accountOf d (refOrganization i) = organizationAccount d i"

lemma wp_lockTransfer_exact:
  assumes "\<And>a p. accountOf d ref = Some a \<Longrightarrow> Q (a, p) d" "\<And>r. E r id"
  shows "wp e (lockTransferAccount ref) Q E d"
  using assms
  by (cases ref) (auto simp: lockUserAccount_def lockOrganizationAccount_def userAccount_def organizationAccount_def
      intro!: wp_rules)

lemma wp_lockBoth_exact:
  assumes "\<And>s t. \<lbrakk>accountOf d source = Some s; accountOf d target = Some t\<rbrakk> \<Longrightarrow> Q (s, t) d" "\<And>r. E r id"
  shows "wp e (lockBoth source target) Q E d"
  unfolding lockBoth_def by (intro wp_if wp_bind wp_lockTransfer_exact wp_ret) (auto intro: assms)

abbreviation sourceRef :: "PeerTransferStoreCommand \<Rightarrow> transferAccountRef" where
  "sourceRef c \<equiv> transferSourceRef (pc_source c) (pc_actor c)"

abbreviation targetRef :: "PeerTransferStoreCommand \<Rightarrow> transferAccountRef" where
  "targetRef c \<equiv> transferTargetRef (pc_target c)"

abbreviation transferRow :: "LedgerEntryID \<Rightarrow> CreditAccountID \<Rightarrow> int \<Rightarrow> string \<Rightarrow> PeerTransferStoreCommand \<Rightarrow> ledger_row" where
  "transferRow i acc a suffix c \<equiv> \<lparr>le_id = i, le_account = acc, le_kind = EntryKindPeerTransfer, le_amount = a,
     le_task = None, le_key = Some (pc_key c @ suffix),
     le_note = Some (case pc_note c of NoTransferNote \<Rightarrow> '''' | TransferNoteProvided note \<Rightarrow> note)\<rparr>"

definition billingOk :: "db \<Rightarrow> PeerTransferStoreCommand \<Rightarrow> bool" where
  "billingOk d c \<longleftrightarrow> (case pc_source c of TransferFromSelf \<Rightarrow> True
     | TransferFromOrganization i \<Rightarrow> memberMay d i (pc_actor c) PermissionManageBilling)"

definition sentEffect :: "PeerTransferStoreCommand \<Rightarrow> db \<Rightarrow> db \<Rightarrow> bool" where
  "sentEffect c d d' \<longleftrightarrow> (\<exists>s t day. accountOf d (sourceRef c) = Some s \<and> accountOf d (targetRef c) = Some t \<and>
     billingOk d c \<and> pc_amount c \<le> spendableOf d s \<and>
     ledger_entries d' = ledger_entries d @ [transferRow (pc_debit c) s (- pc_amount c) '':send-debit'' c,
        transferRow (pc_credit c) t (pc_amount c) '':send-credit'' c] \<and> rest d' = rest d \<and> task_funds d' = task_funds d \<and>
     usedOf d' (workDayKeyPeerSend @ s) day = usedOf d (workDayKeyPeerSend @ s) day + pc_amount c \<and>
     usedOf d' (workDayKeyPeerSend @ s) day \<le> DailyPeerTransferCeilingCredits)"

lemma wp_requireBilling_exact:
  assumes "billingOk d c \<Longrightarrow> Q () d" "\<And>r. E (SendRejected r) id"
  shows "wp e (requireBilling c) Q E d"
  using assms unfolding requireBilling_def
  by (cases "pc_source c") (auto intro!: wp_rules wp_memberPermission simp: billingOk_def)

lemma keys_differ [simp]: "workDayKeyAgentSpend @ x \<noteq> workDayKeyPeerSend @ y"
  by (simp add: workDayKeyAgentSpend_def workDayKeyPeerSend_def)

lemma two_entries:
  assumes "insertLedger a d = Some d1" "insertLedger b d1 = Some d2" "books d3 = books d2" "usedOf d3 = usedOf d2"
  shows "ledger_entries d3 = ledger_entries d @ [a, b]" "rest d3 = rest d" "task_funds d3 = task_funds d" "usedOf d3 = usedOf d"
proof -
  have d2: "d2 = d\<lparr>ledger_entries := ledger_entries d @ [a, b]\<rparr>"
    using assms(1,2) by (auto simp: insertLedger_Some)
  show "ledger_entries d3 = ledger_entries d @ [a, b]" "task_funds d3 = task_funds d"
    using books_eqD(2,3) [OF assms(3)] by (simp_all add: d2)
  show "rest d3 = rest d" using rest_books [OF assms(3)] by (simp add: d2)
  show "usedOf d3 = usedOf d" using assms(4) by (simp add: d2 usedOf_def fun_eq_iff)
qed


lemma wp_transferReceivers [wp_rules]:
  "\<lbrakk>\<And>us. Q us d; \<And>r. E r id\<rbrakk> \<Longrightarrow> wp e (transferReceivers g) Q E d"
  unfolding transferReceivers_def by (cases g) (auto intro!: wp_rules)

lemma wp_sendFresh_effect:
  assumes acc: "accountOf d (sourceRef c) = Some s" "accountOf d (targetRef c) = Some t" "billingOk d c"
    and post: "\<And>x v d'. sentEffect c d d' \<Longrightarrow> Q (SendRejected x, v) d'" and fail: "\<And>r g. E (SendRejected r) g"
  shows "wp e (sendFresh c s t rs) Q E d"
  unfolding sendFresh_def Let_def
proof (intro wp_bind wp_readSpendable wp_if wp_raise fail, rule wp_orRefuse [OF wp_velocity_exact], goal_cases)
  case (1 day)
  let ?key = "workDayKeyPeerSend @ s"
  let ?d1 = "bumpCounter ?key day (pc_amount c) d"
  show ?case
  proof (intro wp_bind wp_orRefuse [OF wp_spend_exact] wp_exec wp_record_exact wp_ret fail post, goal_cases)
    case (1 d2 d3 d4)
    note two = two_entries [OF 1(2,3,4,5)]
    show ?case unfolding sentEffect_def
      by (rule exI [of _ s], rule exI [of _ t], rule exI [of _ day])
         (use \<open>\<not> _ < _\<close> acc two \<open>_ \<le> DailyPeerTransferCeilingCredits\<close> in \<open>simp add: usedOf_bump rest_books [of ?d1 d]\<close>)
  next
    case (2 cred cap a day' d2 d3 d4)
    note two = two_entries [OF 2(3,4,5,6)]
    let ?d2 = "bumpCounter (workDayKeyAgentSpend @ cred) day' a ?d1"
    show ?case unfolding sentEffect_def
      by (rule exI [of _ s], rule exI [of _ t], rule exI [of _ day])
         (use \<open>\<not> _ < _\<close> acc two \<open>_ \<le> DailyPeerTransferCeilingCredits\<close> in \<open>simp add: usedOf_bump rest_books [of ?d2 d]\<close>)
  qed (auto simp: fail)
qed (auto simp: fail)

lemma PeerTransfer_effect:
  assumes "PeerTransfer c e n d = (CreditsSent i a rs FirstExecution ds, d')"
  shows "sentEffect c d d'"
proof -
  let ?P = "\<lambda>r d'. (\<exists>i a rs ds. r = CreditsSent i a rs FirstExecution ds) \<longrightarrow> sentEffect c d d'"
  from assms have run: "runT (SendRejected (invalidState ''begin peer transfer transaction failed''))
      (transferTx c (sourceRef c) (targetRef c)) e n d = (CreditsSent i a rs FirstExecution ds, d')"
    by (simp add: PeerTransfer_def Let_def split: if_splits)
  have "?P (CreditsSent i a rs FirstExecution ds) d'"
  proof (rule runT_rule [OF run, where P = ?P], goal_cases)
    case 1
    show ?case unfolding transferTx_def
      by (intro wp_bind wp_requireBilling_exact wp_lift wp_lockBoth_exact wp_case_prod wp_transferReceivers wp_query
          wp_case_option wp_if wp_raise wp_parse wp_ret wp_sendFresh_effect) auto
  qed simp
  then show ?thesis by simp
qed

section \<open>Reviews are authorized\<close>

lemma AcceptSubmission_authorized:
  "\<lbrakk>AcceptSubmission c e n d = (r, d'); accepted r\<rbrakk> \<Longrightarrow> mayReview d (ac_task c) (ac_reviewer c)"
  unfolding AcceptSubmission_def by (erule review_authorized [where success = accepted]) simp_all

lemma RequestChanges_authorized:
  "\<lbrakk>RequestChanges c e n d = (r, d'); changesRequested r\<rbrakk> \<Longrightarrow> mayReview d (qc_task c) (qc_reviewer c)"
  unfolding RequestChanges_def by (erule review_authorized [where success = changesRequested]) simp_all

lemma RejectSubmission_authorized:
  "\<lbrakk>RejectSubmission c e n d = (r, d'); rejected r\<rbrakk> \<Longrightarrow> mayReview d (jc_task c) (jc_reviewer c)"
  unfolding RejectSubmission_def by (erule review_authorized [where success = rejected]) simp_all

end
