(* ===== verification/Verdicts.thy ===== *)
theory Verdicts
  imports Effects
begin

text \<open>
  What happens to submissions: a verdict is given once and stays.  Views of the
  tables that a transaction leaves alone are tracked with the transaction
  contract, and the verdict relation is kept by every command of the platform.
\<close>

section \<open>Views a transaction leaves alone\<close>

text \<open>A view does not see counters and events; keeping it is a step relation.\<close>

locale table_view =
  fixes view :: "db \<Rightarrow> 'v"
  assumes view_books: "books d' = books d \<Longrightarrow> view d' = view d"

sublocale table_view \<subseteq> tx_invariant "\<lambda>_. True" "\<lambda>d d'. view d' = view d"
  by unfold_locales (auto intro: view_books)

text \<open>The work of a task: the task rows, the submissions to them, and what is filed with those.\<close>

definition records ::
  "db \<Rightarrow> receipt_row list \<times> validation_error_row list \<times> sensitive_field_row list \<times> attachment_row list \<times> user_row list" where
  "records d = (submission_receipt_tokens d, submission_validation_errors d, submission_sensitive_fields d,
     submission_attachments d, users d)"

lemma books_records: "books d' = books d \<Longrightarrow> records d' = records d"
proof -
  have "records (books d) = records d" for d by (simp add: records_def books_def)
  then show "books d' = books d \<Longrightarrow> records d' = records d" by metis
qed

definition work :: "db \<Rightarrow> task_row list \<times> submission_row list \<times>
    (receipt_row list \<times> validation_error_row list \<times> sensitive_field_row list \<times> attachment_row list \<times> user_row list)" where
  "work d = (tasks d, submissions d, records d)"

lemma work_eq: "work d' = work d \<longleftrightarrow> tasks d' = tasks d \<and> submissions d' = submissions d \<and> records d' = records d"
  by (simp add: work_def)

interpretation work: table_view work
proof
  show "work d' = work d" if "books d' = books d" for d d'
    using books_eqD(5,6) [OF that] books_records [OF that] by (simp add: work_def)
qed

abbreviation leaves :: "env \<Rightarrow> ('a \<Rightarrow> bool) \<Rightarrow> ('r, 'a) dbtx \<Rightarrow> bool" where
  "leaves \<equiv> keeps (\<lambda>_. True) (\<lambda>d d'. work d' = work d)"

lemma leaves_writes [safe_rules]:
  assumes "Q ()"
  shows "leaves e Q (execT err (insertLedger row))" "leaves e Q (execT err (deleteFund t))"
    "leaves e Q (execT err (setFundAmount t v))" "leaves e Q (execT err (updateCollectible c f))"
    "leaves e Q (execT err (deleteHeld t))" "leaves e Q (execT err (updateReservations p st))"
    "leaves e Q (execT err (insertBan b))"
  by (rule work.keeps_exec; auto simp: assms work_def records_def statement_defs Let_def split: if_splits)+

lemma leaves_lockWorkerAccount [safe_rules]: "(\<And>a. Q a) \<Longrightarrow> leaves e Q (lockWorkerAccount w)"
  unfolding lockWorkerAccount_def by (intro safe_rules)

lemma leaves_payouts [safe_rules]:
  assumes "\<And>a. Q a"
  shows "leaves e Q (payReviewFund rc)" "leaves e Q (payOutCollectible t w)"
  unfolding payReviewFund_def settleRemaining_def payOutCollectible_def resolveCollectiblePayout_def
  by (intro safe_rules assms)+

lemma leaves_tips [safe_rules]:
  assumes "\<And>a. Q a"
  shows "leaves e Q (payCreditTip t rv w de ce k sel)" "leaves e Q (payCollectibleTip rv w csel)"
proof -
  show "leaves e Q (payCreditTip t rv w de ce k sel)"
    unfolding payCreditTip_def by (cases sel; cases rv) (simp_all, (intro safe_rules assms; simp)+)
  show "leaves e Q (payCollectibleTip rv w csel)"
    unfolding payCollectibleTip_def by (cases csel; cases rv) (simp_all, (intro safe_rules assms; simp)+)
qed

lemma leaves_settlements [safe_rules]:
  assumes "Q ()"
  shows "leaves e Q (releaseReservationsOnCancel t)" "leaves e Q (refundHeldCollectibleReward t)"
    "leaves e Q (refundTaskCreditFunding t key)" "leaves e Q (refundExpiredTaskFunding t)"
  unfolding releaseReservationsOnCancel_def refundHeldCollectibleReward_def refundTaskCreditFunding_def
    refundExpiredTaskFunding_def
  by (intro safe_rules assms)+

lemma wp_leaves:
  assumes "leaves e P m" "\<And>a d1. \<lbrakk>work d1 = work d; P a\<rbrakk> \<Longrightarrow> Q a d1" "\<And>r g. quietly g \<Longrightarrow> E r g"
  shows "wp e m Q E d"
  by (rule wp_mono [OF assms(1) [unfolded keeps_def, rule_format]]) (use assms(2,3) in auto)

section \<open>Verdicts are final\<close>

text \<open>
  A submission row keeps its identity, and its state changes only from submitted
  to one of the review outcomes.
\<close>

definition reviewed :: "submission_row \<Rightarrow> submission_row \<Rightarrow> bool" where
  "reviewed s s' \<longleftrightarrow> sb_id s' = sb_id s \<and> sb_task s' = sb_task s \<and> sb_user s' = sb_user s \<and>
     (s' = s \<or> sb_state s = SubmissionStateSubmitted \<and> sb_state s' \<in>
        {SubmissionStateAccepted, SubmissionStateChangesRequested, SubmissionStateRejected, SubmissionStateSuperseded})"

text \<open>What is filed is filed with a submission, under a receipt of its own, by a user of one row.\<close>

definition attached_ok :: "db \<Rightarrow> bool" where
  "attached_ok d \<longleftrightarrow> rt_submission ` set (submission_receipt_tokens d) \<subseteq> sb_id ` set (submissions d) \<and>
     ve_submission ` set (submission_validation_errors d) \<subseteq> sb_id ` set (submissions d) \<and>
     sv_submission ` set (submission_sensitive_fields d) \<subseteq> sb_id ` set (submissions d) \<and>
     at_owner ` set (submission_attachments d) \<subseteq> sb_id ` set (submissions d) \<and>
     distinct (map rt_hash (submission_receipt_tokens d)) \<and> distinct (map us_id (users d))"

lemma attached_cong:
  assumes "map sb_id (submissions d') = map sb_id (submissions d)" "records d' = records d"
  shows "attached_ok d' = attached_ok d"
proof -
  have "sb_id ` set (submissions d') = sb_id ` set (submissions d)" using assms(1) by (metis list.set_map)
  with assms(2) show ?thesis by (simp add: attached_ok_def records_def)
qed

definition verdicts :: "db \<Rightarrow> db \<Rightarrow> bool" where
  "verdicts d d' \<longleftrightarrow> distinct (map sb_id (submissions d')) \<and>
     (\<forall>s \<in> set (submissions d). \<exists>s' \<in> set (submissions d'). reviewed s s') \<and> (attached_ok d \<longrightarrow> attached_ok d')"

abbreviation ids_ok :: "db \<Rightarrow> bool" where
  "ids_ok d \<equiv> distinct (map sb_id (submissions d))"

lemma reviewed_refl: "reviewed s s"
  by (simp add: reviewed_def)

lemma reviewed_trans: "\<lbrakk>reviewed s s'; reviewed s' s''\<rbrakk> \<Longrightarrow> reviewed s s''"
  by (auto simp: reviewed_def)

lemma verdicts_same: "\<lbrakk>ids_ok d; submissions d' = submissions d; records d' = records d\<rbrakk> \<Longrightarrow> verdicts d d'"
  using attached_cong [of d' d] by (auto simp: verdicts_def intro: reviewed_refl)

interpretation verdict: tx_invariant ids_ok verdicts
proof
  show "\<lbrakk>verdicts d d'; verdicts d' d''\<rbrakk> \<Longrightarrow> verdicts d d''" for d d' d''
    unfolding verdicts_def by (meson reviewed_trans)
  show "verdicts d d'" if "ids_ok d" "books d' = books d" for d d'
    using that(1) books_eqD(6) [OF that(2)] books_records [OF that(2)] by (rule verdicts_same)
qed (simp_all add: verdicts_same, simp add: verdicts_def)

abbreviation judges :: "env \<Rightarrow> ('a \<Rightarrow> bool) \<Rightarrow> ('r, 'a) dbtx \<Rightarrow> bool" where
  "judges \<equiv> keeps ids_ok verdicts"

lemma work_submissions: "work d' = work d \<Longrightarrow> submissions d' = submissions d \<and> records d' = records d"
  by (simp add: work_def)

lemma leaves_judges: "leaves e Q m \<Longrightarrow> judges e Q m"
  unfolding keeps_def by (blast intro: wp_mono verdicts_same dest: work_submissions)

lemmas judges_payments [safe_rules] = leaves_payouts [THEN leaves_judges] leaves_tips [THEN leaves_judges]

lemma judges_writes [safe_rules]:
  assumes "Q ()"
  shows "judges e Q (execT err (insertLedger row))" "judges e Q (execT err (deleteFund t))"
    "judges e Q (execT err (insertFund fr))" "judges e Q (execT err (updateTask t h))"
    "judges e Q (execT err (setFundAmount t v))" "judges e Q (execT err (updateCollectible c f))"
    "judges e Q (execT err (deleteHeld t))" "judges e Q (execU vi err (insertHeld t c))"
    "judges e Q (execT err (updateReservations p st))"
    "judges e Q (execT err (insertBan b))" "judges e Q (execT err (insertReservation rr))"
  by ((rule verdict.keeps_exec verdict.keeps_execU, rule verdicts_same);
      auto simp: assms statement_defs insertHeld_def records_def Let_def split: if_splits)+

lemma judges_counts [safe_rules]:
  assumes "\<And>k. Q k"
  shows "judges e Q (countT err cnt (updateReservations p st))" "judges e Q (setTaskState err' t pr ts)"
  unfolding setTaskState_def
  by ((rule verdict.keeps_count, rule verdicts_same); auto simp: assms updateReservations_def records_def Let_def split: if_splits)+

lemma verdicts_update:
  assumes ok: "ids_ok d" and upd: "updateSubmissions p f d = Some d'"
    and f: "\<And>s. \<lbrakk>s \<in> set (submissions d); p s\<rbrakk> \<Longrightarrow> reviewed s (f s)" and ids: "\<And>s. sb_id (f s) = sb_id s"
  shows "verdicts d d'"
proof -
  have d': "submissions d' = updateWhere p f (submissions d)"
    using upd by (auto simp: updateSubmissions_def Let_def split: if_splits)
  have "reviewed s (if p s then f s else s)" if "s \<in> set (submissions d)" for s
    using that f reviewed_refl by simp
  then have "\<forall>s \<in> set (submissions d). \<exists>s' \<in> set (submissions d'). reviewed s s'"
    unfolding d' set_updateWhere by (blast intro: imageI)
  moreover have "map sb_id (submissions d') = map sb_id (submissions d)"
    unfolding d' using ids by simp
  moreover have "records d' = records d"
    using upd by (auto simp: updateSubmissions_def records_def Let_def split: if_splits)
  ultimately show ?thesis using ok attached_cong [of d' d] by (simp add: verdicts_def)
qed

lemma verdicts_one:
  assumes ok: "ids_ok d" and row: "submissionById i t d = Some row" "sb_state row = SubmissionStateSubmitted"
    and upd: "updateSubmissions (\<lambda>s. sb_id s = i) f d = Some d'"
    and f: "reviewed row (f row)" "\<And>s. sb_id (f s) = sb_id s"
  shows "verdicts d d'"
proof (rule verdicts_update [OF ok upd])
  fix s assume "s \<in> set (submissions d)" "sb_id s = i"
  moreover have "row \<in> set (submissions d)" "sb_id row = i" using row(1) by (auto dest: rowWhere_SomeD)
  ultimately have "s = row" using ok by (auto simp: distinct_map inj_on_def)
  with f show "reviewed s (f s)" by simp
qed (rule f)

lemma wp_judged:
  assumes "wp e m (\<lambda>_ d'. verdicts d d') (\<lambda>_. quietly) d1" "\<And>a. judges e Q (k a)"
  shows "wp e (bindT m k) (\<lambda>a d'. verdicts d d' \<and> Q a) (\<lambda>_. quietly) d1"
  by (rule wp_bind, rule wp_mono [OF assms(1)]) (use verdict.keeps_wp [OF assms(2)] in auto)

lemma judges_supersede [safe_rules]: "(\<And>a. Q a) \<Longrightarrow> judges e Q (supersedeCompetingSubmissions t s ac)"
  unfolding supersedeCompetingSubmissions_def
  by (intro safe_rules verdict.keeps_exec, erule (1) verdicts_update) (auto simp: reviewed_def competing_def)

lemma wp_read_row:
  "\<lbrakk>\<And>r. submissionById i t d = Some r \<Longrightarrow> Q r d; \<And>x. E (rej x) id\<rbrakk> \<Longrightarrow> wp e (readSubmission rej i t) Q E d"
  unfolding readSubmission_def by (intro wp_rules) simp_all

lemma judges_AcceptSubmission:
  assumes "AcceptSubmission c e n d = (r, d')" "ids_ok d"
  shows "verdicts d d'"
proof (rule verdict.keeps_run [OF assms(1) [unfolded AcceptSubmission_def] assms(2), where success = accepted, THEN conjunct1],
    goal_cases)
  case 1
  show ?case
  proof (rule keepsI, intro wp_bind [of _ "liftT _ _"] wp_lift wp_lockTaskForReview wp_bind [of _ "readSubmission _ _ _"]
      wp_read_row wp_if wp_raise quietly_id, goal_cases)
    case (2 d l row)
    then show ?case
      by (intro wp_judged, unfold acceptAndPay_def, intro wp_judged [where Q = "\<lambda>_. True", simplified] wp_execU quietly_id)
        (auto intro!: verdicts_one [OF 2(1)] safe_rules simp: reviewed_def payOutEscrow_def)
  next
    case 1
    then show ?case by (intro verdict.keeps_wp verdict.step_refl) (intro safe_rules)
  qed
qed simp

lemma judges_RequestChanges:
  assumes "RequestChanges c e n d = (r, d')" "ids_ok d"
  shows "verdicts d d'"
proof (rule verdict.keeps_run [OF assms(1) [unfolded RequestChanges_def parseReviewWorker_def] assms(2), where success = changesRequested, THEN conjunct1],
    goal_cases)
  case 1
  show ?case
  proof (rule keepsI, intro wp_bind [of _ "liftT _ _"] wp_lift wp_lockTaskForReview wp_bind [of _ "readSubmission _ _ _"]
      wp_read_row wp_parse wp_if wp_raise quietly_id, goal_cases)
    case (1 d l row w)
    then show ?case
      by (intro wp_judged wp_exec quietly_id) (auto intro!: verdicts_one [OF 1(1)] safe_rules simp: reviewed_def)
  qed
qed simp

lemma judges_ban [safe_rules]: "Q () \<Longrightarrow> judges e Q (banImplementor c w)"
  unfolding banImplementor_def by (cases "jc_ban c") (auto intro!: safe_rules)

text \<open>A rejection pays before it judges; the payments leave the submission as it was read.\<close>

lemma judges_RejectSubmission:
  assumes "RejectSubmission c e n d = (r, d')" "ids_ok d"
  shows "verdicts d d'"
proof (rule verdict.keeps_run [OF assms(1) [unfolded RejectSubmission_def parseReviewWorker_def] assms(2),
      where success = rejected, THEN conjunct1], goal_cases)
  case 1
  show ?case
  proof (rule keepsI, intro wp_bind [of _ "liftT _ (lockTaskForReview _ _ _)"] wp_bind [of _ "liftT _ (parseT _ _)"] wp_lift
      wp_lockTaskForReview wp_bind [of _ "readSubmission _ _ _"] wp_read_row wp_parse wp_if wp_raise quietly_id, goal_cases)
    case (1 d l row w)
    show ?case
    proof (rule wp_bind, rule wp_leaves [where P = "\<lambda>_. True"], intro safe_rules, rule wp_bind, rule wp_leaves [where P = "\<lambda>_. True"], intro safe_rules,
        rule wp_bind, rule wp_leaves [where P = "\<lambda>_. True"], intro safe_rules, goal_cases)
      case (1 a1 d1 a2 d2 a3 d3)
      then have same: "submissions d3 = submissions d" "records d3 = records d" by (simp_all add: work_def)
      with \<open>ids_ok d\<close> have ok: "ids_ok d3" by simp
      have row: "submissionById (jc_submission c) (jc_task c) d3 = Some row"
        using \<open>submissionById _ _ d = Some row\<close> by (simp add: same)
      have "wp e (execT err (updateSubmissions (\<lambda>s. sb_id s = jc_submission c) f)) (\<lambda>_ d'. verdicts d d') (\<lambda>_. quietly) d3"
        if "reviewed row (f row)" "\<And>s. sb_id (f s) = sb_id s" for err f
        by (intro wp_exec quietly_id verdict.step_trans [OF verdicts_same [OF \<open>ids_ok d\<close> same]])
           (use that \<open>\<not> sb_state row \<noteq> _\<close> in \<open>simp add: verdicts_one [OF ok row]\<close>)
      then show ?case by (rule wp_judged) (use \<open>\<not> sb_state row \<noteq> _\<close> in \<open>(intro safe_rules | simp add: reviewed_def)+\<close>)
    qed assumption+
  qed
qed simp

section \<open>Every command\<close>

lemma judges_fundable [safe_rules]: "Q () \<Longrightarrow> judges e Q (requireFundableTask t row a)"
  unfolding requireFundableTask_def by (intro safe_rules) simp_all

lemma judges_completeFunding [safe_rules]:
  "judges e (\<lambda>(c, v). \<not> funded c \<and> funded v) (completeFunding acc t a i k msg dr)"
  unfolding completeFunding_def by (intro safe_rules | simp)+

lemmas judges_settlements [safe_rules] = leaves_settlements [THEN leaves_judges]

lemma judges_bodies [safe_rules]:
  assumes "\<And>a. Q a" "P ()"
  shows "judges e Q releaseExpiredReservationsInTx" "judges e Q (changeTaskStateTx t st plan)"
    "judges e P (createReservationTx i c)" "judges e Q (changeReservationStateTx t i rs plan)"
  unfolding releaseExpiredReservationsInTx_def changeTaskStateTx_def settleCancel_def settleFundedTaskOnCancel_def
    createReservationTx_def changeReservationStateTx_def
  by (intro safe_rules assms)+

lemma judges_expire [safe_rules]: "(\<And>ds. Q ds) \<Longrightarrow> judges e Q (expireLockedTask raw t u)"
  unfolding expireLockedTask_def refundExpiredTaskFunding_def by (intro safe_rules)

lemma judges_hold [safe_rules]: "Q () \<Longrightarrow> judges e Q (holdCollectibleForTask t c)"
  unfolding holdCollectibleForTask_def by (intro safe_rules)

lemma judges_kind [safe_rules]:
  "\<lbrakk>judges e Q m1; judges e Q m2; judges e Q m3; judges e Q m4\<rbrakk> \<Longrightarrow> judges e Q (case k of RewardKindNone \<Rightarrow> m1
     | RewardKindCredit \<Rightarrow> m2 | RewardKindCollectible \<Rightarrow> m3 | RewardKindBundle \<Rightarrow> m4)"
  by (cases k) simp_all

lemmas judges_run = verdict.keeps_run [THEN conjunct1]

lemma judges_ledger_methods:
  "\<lbrakk>FundTask fc e n d = (fr, d'); ids_ok d\<rbrakk> \<Longrightarrow> verdicts d d'"
  "\<lbrakk>FundTaskFromOrganization oc e n d = (fr, d'); ids_ok d\<rbrakk> \<Longrightarrow> verdicts d d'"
  "\<lbrakk>RefundTask uc e n d = (ur, d'); ids_ok d\<rbrakk> \<Longrightarrow> verdicts d d'"
  "\<lbrakk>GrantCredits gc e n d = (gr, d'); ids_ok d\<rbrakk> \<Longrightarrow> verdicts d d'"
  unfolding FundTask_def FundTaskFromOrganization_def RefundTask_def refundFund_def GrantCredits_def grantEntry_def
  subgoal by (erule judges_run [where success = funded], assumption) (intro safe_rules | simp)+
  subgoal by (erule judges_run [where success = funded], assumption) (intro safe_rules | simp)+
  subgoal by (erule judges_run [where success = refunded], assumption) (intro safe_rules | simp)+
  subgoal by (erule judges_run [where success = granted], assumption)
    (intro safe_rules verdict.keeps_reads [OF reads_lockGrantAccount] | simp)+
  done

lemma judges_PeerTransfer:
  assumes "PeerTransfer c e n d = (r, d')" "ids_ok d"
  shows "verdicts d d'"
proof (cases "refKey (sourceRef c) = refKey (targetRef c)")
  case True
  with assms show ?thesis by (auto simp: PeerTransfer_def verdicts_same)
next
  case False
  with assms(1) have run: "runT (SendRejected (invalidState ''begin peer transfer transaction failed''))
      (transferTx c (sourceRef c) (targetRef c)) e n d = (r, d')"
    by (simp add: PeerTransfer_def)
  show ?thesis
    by (rule judges_run [OF run assms(2), where success = sent])
       (unfold transferTx_def sendFresh_def, (intro safe_rules | simp)+)
qed

lemma judges_collectible_methods:
  "\<lbrakk>FundCollectibleReward c u t e n d = (fr, d'); ids_ok d\<rbrakk> \<Longrightarrow> verdicts d d'"
  "\<lbrakk>RefundCollectibleReward t u e n d = (rr, d'); ids_ok d\<rbrakk> \<Longrightarrow> verdicts d d'"
  "\<lbrakk>GiftCollectible c u v dr e n d = (gr, d'); ids_ok d\<rbrakk> \<Longrightarrow> verdicts d d'"
  "\<lbrakk>AwardOrganizationCollectible c i v dr e n d = (gr, d'); ids_ok d\<rbrakk> \<Longrightarrow> verdicts d d'"
  unfolding FundCollectibleReward_def RefundCollectibleReward_def GiftCollectible_def AwardOrganizationCollectible_def
  subgoal by (erule judges_run [where success = "\<lambda>r. \<exists>x. r = RewardFunded x"], assumption) (intro safe_rules | simp)+
  subgoal by (erule judges_run [where success = "\<lambda>r. \<exists>x. r = RewardRefunded x"], assumption) (intro safe_rules | simp)+
  subgoal by (erule judges_run [where success = "\<lambda>r. \<exists>x ds. r = CollectibleGifted x ds"], assumption) (intro safe_rules | simp)+
  subgoal by (erule judges_run [where success = "\<lambda>r. \<exists>x ds. r = CollectibleGifted x ds"], assumption) (intro safe_rules | simp)+
  done

lemma judges_eligibility: "ids_ok d \<Longrightarrow> verdicts d (snd (snd (CheckSubmissionEligibility t u e n d)))"
  by (metis verdict.method_CheckSubmissionEligibility [OF _ _ judges_bodies(1) [OF TrueI TrueI]] prod.collapse)

lemma judges_createTaskTx: "judges e (\<lambda>_. True) (createTaskTx s t c)"
proof -
  have "judges e (\<lambda>_. True) (execT err (insertTask row))" "judges e (\<lambda>_. True) (execT err (insertSeries srow))"
    "judges e (\<lambda>_. True) (execT err (insertTaskAttachment arow))" for err row srow arow
    by ((rule verdict.keeps_exec, rule verdicts_same); auto simp: insert_defs records_def split: if_splits)+
  then show ?thesis
    unfolding createTaskTx_def insertSeriesForPlacement_def insertTaskAttachments_def escrowForNewTask_def
    by (intro safe_rules)
qed

lemma verdicts_insert:
  assumes "ids_ok d" "insertSubmission s d = Some d'"
  shows "verdicts d d'"
  using assms(1) insertSubmission_same(1,2) [OF assms(2)]
  by (auto simp: verdicts_def attached_ok_def intro: reviewed_refl)

lemma verdicts_filed:
  assumes "ids_ok d" "filedWith d d'"
  shows "verdicts d d'"
proof -
  have "attached_ok d'" if "attached_ok d"
    using assms(2) that
    by cases (simp_all add: insert_defs updateReservations_def attached_ok_def Let_def split: if_splits, clarsimp+)
  then show ?thesis
    using assms(1) filedWith_same(6) [OF assms(2)] by (auto simp: verdicts_def intro: reviewed_refl)
qed

lemma judges_createSubmissionTx: "judges e (\<lambda>_. True) (createSubmissionTx i ri h c st out sf)"
  by (rule verdict.keeps_createSubmissionTx) (auto intro: verdicts_insert verdicts_filed)

lemma judges_CreateSubmission: "ids_ok d \<Longrightarrow> verdicts d (snd (snd (CreateSubmission i ri h c st out sf e n d)))"
  by (metis verdict.method_CreateSubmission [OF _ _ judges_createSubmissionTx] prod.collapse)

lemmas command_judges =
  verdict.method_CreateTask [OF surjective_pairing _ judges_createTaskTx] judges_CreateSubmission
  judges_AcceptSubmission [OF surjective_pairing] judges_RequestChanges [OF surjective_pairing]
  judges_RejectSubmission [OF surjective_pairing] judges_ledger_methods [OF surjective_pairing]
  judges_PeerTransfer [OF surjective_pairing] judges_collectible_methods [OF surjective_pairing]
  verdict.method_ChangeTaskState [OF surjective_pairing _ judges_bodies(2) [OF TrueI TrueI]]
  verdict.method_CreateReservation [OF surjective_pairing _ judges_bodies(1) [OF TrueI TrueI] judges_bodies(3) [OF TrueI TrueI]]
  verdict.method_ChangeReservationState [OF surjective_pairing _ judges_bodies(1) [OF TrueI TrueI] judges_bodies(4) [OF TrueI TrueI]]
  verdict.method_ExpireDueReservations [OF surjective_pairing _ judges_bodies(1) [OF TrueI TrueI]]
  verdict.method_ExpireDueTasks [OF surjective_pairing _ judges_expire [OF TrueI]]
  judges_eligibility verdict.step_books [OF _ evict_books]

lemma command_verdicts: "ids_ok d \<Longrightarrow> verdicts d (execute c e n d)"
  by (cases c) (simp_all add: command_judges)

interpretation judgement: store_invariant "verdicts d0" for d0
proof
  show "verdicts d0 (execute c e n d)" if "verdicts d0 d" for d c e n
    by (rule verdict.step_trans [OF that command_verdicts]) (use that in \<open>simp add: verdicts_def\<close>)
qed

lemma runs_verdicts: "\<lbrakk>runs d d'; ids_ok d\<rbrakk> \<Longrightarrow> verdicts d d'"
  by (erule judgement.runs_keep, rule verdicts_same) simp_all

end
