(* ===== verification/Outcomes.thy ===== *)
theory Outcomes
  imports Verdicts
begin

text \<open>
  What the transactions that end a task leave behind: the state they reach, that
  nothing is held for the task any more, and that the expiry sweep misses no due
  task.
\<close>

section \<open>State changes\<close>

definition inState :: "TaskState \<Rightarrow> TaskID \<Rightarrow> db \<Rightarrow> bool" where
  "inState st t d \<longleftrightarrow> (\<exists>r \<in> set (tasks d). tk_id r = t \<and> tk_state r = st)"

definition released :: "TaskID \<Rightarrow> db \<Rightarrow> bool" where
  "released t d \<longleftrightarrow> (\<forall>v \<in> set (task_reservations d). \<not> held_reservation t v)"

text \<open>The declared reward of a task is in escrow.\<close>

definition backs :: "TaskID \<Rightarrow> db \<Rightarrow> task_row \<Rightarrow> bool" where
  "backs t d r \<longleftrightarrow>
     (credit_reward r \<longrightarrow> (case rowWhere (\<lambda>f. tf_task f = t) (task_funds d) of None \<Rightarrow> False
        | Some f \<Rightarrow> tf_amount f = (case tk_reward_amount r of None \<Rightarrow> 0 | Some a \<Rightarrow> a))) \<and>
     (collectible_reward r \<longrightarrow> t \<in> holdingTasks d)"

definition rewardBacked :: "TaskID \<Rightarrow> db \<Rightarrow> bool" where
  "rewardBacked t d \<longleftrightarrow> (case taskById t d of None \<Rightarrow> False | Some r \<Rightarrow> backs t d r)"

lemma held_count: "(filter (\<lambda>(t', c). t' = t) (task_fund_collectibles d) = []) = (t \<notin> holdingTasks d)"
  by (auto simp: holdingTasks_def filter_empty_conv image_iff)

lemma wp_openable:
  assumes "rewardBacked t d \<Longrightarrow> Q () d" "\<And>r. E r id"
  shows "wp e (requireOpenableReward t) Q E d"
  unfolding requireOpenableReward_def Let_def
  by (intro wp_rules assms)
     (simp_all add: held_count rewardBacked_def backs_def credit_reward_def collectible_reward_def)

lemma wp_released:
  assumes "\<And>d'. released t d' \<Longrightarrow> Q () d'" "\<And>r. E r id"
  shows "wp e (releaseReservationsOnCancel t) Q E d"
  unfolding releaseReservationsOnCancel_def
proof (intro wp_rules assms)
  fix d' assume *: "updateReservations (held_reservation t) ReservationStateCancelledByRequester d = Some d'"
  let ?f = "rv_state_update (\<lambda>_. ReservationStateCancelledByRequester)"
  from * have "task_reservations d' = updateWhere (held_reservation t) ?f (task_reservations d)"
    by (auto simp: updateReservations_def Let_def split: if_splits)
  moreover have "\<not> held_reservation t (?f v)" for v by (simp add: held_reservation_def)
  ultimately show "released t d'" by (auto simp: released_def set_updateWhere split: if_splits)
qed

lemma row_setState:
  "rowWhere (\<lambda>r. tk_id r = t) (updateWhere p (tk_state_update (\<lambda>_. st)) rows) =
      map_option (\<lambda>r. if p r then r\<lparr>tk_state := st\<rparr> else r) (rowWhere (\<lambda>r. tk_id r = t) rows)"
  by (induction rows) auto

lemma rewardBacked_state:
  assumes "rewardBacked t d"
  shows "rewardBacked t (d\<lparr>tasks := updateWhere p (tk_state_update (\<lambda>_. st)) (tasks d)\<rparr>)"
proof -
  have "backs t (d\<lparr>tasks := rows\<rparr>) (r\<lparr>tk_state := st'\<rparr>) = backs t d r" for rows r st'
    unfolding backs_def credit_reward_def collectible_reward_def holdingTasks_def by (simp cong: option.case_cong)
  moreover have "backs t (d\<lparr>tasks := rows\<rparr>) r = backs t d r" for rows r
    by (simp add: backs_def holdingTasks_def)
  ultimately show ?thesis using assms by (auto simp: rewardBacked_def row_setState split: option.splits)
qed

definition changed :: "TaskState \<Rightarrow> TaskID \<Rightarrow> db \<Rightarrow> bool" where
  "changed st t d \<longleftrightarrow> inState st t d \<and> (st = StateCancelled \<longrightarrow> released t d) \<and> (st = StateOpen \<longrightarrow> rewardBacked t d)"

lemma changed_books:
  assumes "changed st t d" "books d' = books d"
  shows "changed st t d'"
  using assms(1) unfolding changed_def inState_def released_def rewardBacked_def backs_def holdingTasks_def
    books_eqD(3,4,5,7) [OF assms(2)] .

lemma changed_setState:
  assumes "length (filter (\<lambda>r. tk_id r = t \<and> tk_state r = p) (tasks d)) = Suc 0"
    and "st = StateCancelled \<longrightarrow> released t d" "st = StateOpen \<longrightarrow> rewardBacked t d"
  shows "changed st t (d\<lparr>tasks := updateWhere (\<lambda>r. tk_id r = t \<and> tk_state r = p) (tk_state_update (\<lambda>_. st)) (tasks d)\<rparr>)"
proof -
  let ?d = "d\<lparr>tasks := updateWhere (\<lambda>r. tk_id r = t \<and> tk_state r = p) (tk_state_update (\<lambda>_. st)) (tasks d)\<rparr>"
  from assms(1) have "filter (\<lambda>r. tk_id r = t \<and> tk_state r = p) (tasks d) \<noteq> []" by auto
  then obtain r where r: "r \<in> set (tasks d)" "tk_id r = t" "tk_state r = p" by (auto simp: filter_empty_conv)
  then have "r\<lparr>tk_state := st\<rparr> \<in> set (tasks ?d)" by (auto simp: set_updateWhere image_iff intro!: bexI [of _ r])
  with r(2) have "inState st t ?d" unfolding inState_def by (intro bexI [of _ "r\<lparr>tk_state := st\<rparr>"]) simp_all
  with assms(2,3) rewardBacked_state show ?thesis by (simp add: changed_def released_def)
qed

lemma wp_any: "(\<And>r g. E r g) \<Longrightarrow> (\<And>a d'. Q a d') \<Longrightarrow> wp e m Q E d"
  by (rule wp_mono [OF wp_top])

lemma wp_changeTaskState:
  assumes "\<And>ds d'. changed st t d' \<Longrightarrow> Q ds d'" "\<And>r g. E r g"
  shows "wp e (changeTaskStateTx t st plan) Q E d"
proof -
  let ?tail = "\<lambda>p u hs. bindT (setTaskState (invalidState ''change task state failed'') t p st)
        (\<lambda>commandTag. if commandTag \<noteq> 1 then raiseT (conflict ''task state was not changed'')
          else case plan of NoEvent \<Rightarrow> retT []
             | Record draft \<Rightarrow> bindT (parseReviewWorker u)
                 (\<lambda>creatorID. let merged = WithRecipients draft (creatorID # hs)
                   in bindT (recordEventDraftInTx (invalidState ''record task state event failed'') merged)
                       (\<lambda>_. retT [merged])))"
  have tail: "wp e (?tail p u hs) Q E d1"
    if "st = StateCancelled \<longrightarrow> released t d1" "st = StateOpen \<longrightarrow> rewardBacked t d1" for p u hs d1
    unfolding setTaskState_def parseReviewWorker_def
    by (cases plan) (auto intro!: wp_rules assms intro: changed_setState [OF _ that] changed_books [OF changed_setState [OF _ that]])
  have settle: "wp e (bindT (if st = StateCancelled then settleCancel t else retT []) (?tail p u)) Q E d1"
    if "st = StateOpen \<longrightarrow> rewardBacked t d1" for p u d1
  proof (rule wp_bind, rule wp_if)
    assume st: "st = StateCancelled"
    have "wp e (settleCancel t) (\<lambda>_ d'. released t d') E d1"
      unfolding settleCancel_def
      by (rule wp_bind, rule wp_any, rule assms(2), intro wp_bind wp_lockedReservationHolders wp_released wp_ret assms(2))
    then show "wp e (settleCancel t) (\<lambda>hs s'. wp e (?tail p u hs) Q E s') E d1"
      by (rule wp_mono) (rule tail, simp_all add: st assms(2))
  next
    assume "st \<noteq> StateCancelled"
    with that tail show "wp e (retT []) (\<lambda>hs s'. wp e (?tail p u hs) Q E s') E d1" by (intro wp_ret) simp
  qed
  show ?thesis
    unfolding changeTaskStateTx_def
  proof (rule wp_bind, intro wp_query wp_case_option wp_raise assms(2), rule wp_bind, rule wp_if)
    show "wp e (requireOpenableReward t) (\<lambda>_. wp e (bindT (if st = StateCancelled then settleCancel t else retT [])
        (?tail (tk_state r) (tk_created_by r))) Q E) E d" for r
      by (intro wp_openable settle assms(2)) simp
    show "wp e (retT ()) (\<lambda>_. wp e (bindT (if st = StateCancelled then settleCancel t else retT [])
        (?tail (tk_state r) (tk_created_by r))) Q E) E d" if "st \<noteq> StateOpen" for r
      by (intro wp_ret settle) (simp add: that)
  qed
qed

lemma commitN_rule:
  assumes "commitN b c body e n d = (Inr v, n', d')" "wp e body P (\<lambda>_ _. True) d"
  shows "P v d'"
proof -
  have "case (Inr v :: 'a result) of Inl _ \<Rightarrow> True | Inr v \<Rightarrow> P v d'"
    by (rule runT_rule [OF runN_runT [OF assms(1) [unfolded commitN_def]]], intro wp_bind wp_lift,
        rule wp_mono [OF assms(2)]) (auto intro: wp_ret)
  then show ?thesis by simp
qed

text \<open>A change the store accepts is in the tables, and cancelling or opening did its work.\<close>

lemma ChangeTaskState_changed:
  assumes run: "ChangeTaskState t st plan e n d = (ChangeTaskStateStoreAccepted r ds, d')"
  shows "changed st t d' \<and> tk_id r = t \<and> tk_state r = st \<and> r \<in> set (tasks d')"
proof -
  obtain n1 where com: "commitN (invalidState ''begin change task state transaction failed'')
        (invalidState ''commit change task state transaction failed'') (changeTaskStateTx t st plan) e n d = (Inr ds, n1, d')"
    and found: "fst (FindTask t e n1 d') = FindTaskStoreAccepted r"
    using run by (auto simp: ChangeTaskState_def split: prod.splits sum.splits FindTaskStoreResult.splits)
  have ch: "changed st t d'" by (rule commitN_rule [OF com, where P = "\<lambda>_. changed st t"]) (rule wp_changeTaskState, simp_all)
  obtain n2 where "FindTask t e n1 d' = (FindTaskStoreAccepted r, n2)"
    using found by (metis prod.collapse)
  then have "case FindTaskStoreAccepted r of FindTaskStoreAccepted r \<Rightarrow> filter (\<lambda>r. tk_id r = t) (tasks d') = [r] | _ \<Rightarrow> True"
    unfolding FindTask_def by (rule readN_rule) (auto intro!: wp_rules split: list.split)
  then have only: "filter (\<lambda>r. tk_id r = t) (tasks d') = [r]" by simp
  then have "set (filter (\<lambda>r. tk_id r = t) (tasks d')) = {r}" by simp
  with ch show ?thesis by (auto simp: changed_def inState_def)
qed

text \<open>
  Without failures the store opens a task without a reward from any state, a cancelled one too.
\<close>

lemma find_only: "filter p xs = [r] \<Longrightarrow> rowWhere p xs = Some r"
  by (induction xs) (auto split: if_splits)

lemma set_only:
  assumes "filter (\<lambda>r. tk_id r = t) rows = [r]"
  shows "filter (\<lambda>r. tk_id r = t) (updateWhere (\<lambda>r. tk_id r = t \<and> tk_state r = p) (tk_state_update (\<lambda>_. st)) rows) =
      [if tk_state r = p then r\<lparr>tk_state := st\<rparr> else r]"
    "length (filter (\<lambda>r. tk_id r = t \<and> tk_state r = p) rows) = (if tk_state r = p then 1 else 0)"
proof -
  have comm: "filter (\<lambda>r. tk_id r = t) (updateWhere (\<lambda>r. tk_id r = t \<and> tk_state r = p) (tk_state_update (\<lambda>_. st)) xs) =
      updateWhere (\<lambda>r. tk_id r = t \<and> tk_state r = p) (tk_state_update (\<lambda>_. st)) (filter (\<lambda>r. tk_id r = t) xs)" for xs
    by (induction xs) (auto simp: updateWhere_def)
  have "tk_id r = t" using filter_eq_ConsD [OF assms] by blast
  then show "filter (\<lambda>r. tk_id r = t) (updateWhere (\<lambda>r. tk_id r = t \<and> tk_state r = p) (tk_state_update (\<lambda>_. st)) rows) =
      [if tk_state r = p then r\<lparr>tk_state := st\<rparr> else r]"
    unfolding comm assms by (simp add: updateWhere_def)
  have "filter (\<lambda>r. tk_id r = t \<and> tk_state r = p) rows = filter (\<lambda>r. tk_state r = p) (filter (\<lambda>r. tk_id r = t) rows)"
    by (simp add: conj_commute)
  with assms show "length (filter (\<lambda>r. tk_id r = t \<and> tk_state r = p) rows) = (if tk_state r = p then 1 else 0)" by simp
qed

lemma run_record:
  assumes "fault e = (\<lambda>_. False)" "dr_id draft \<notin> (\<lambda>r. dr_id (ev_draft r)) ` set (domain_events d)" "distinct (dr_recipients draft)"
  shows "\<exists>n' d'. recordEventDraftInTx err draft e n d = (Cont (), n', d') \<and> tasks d' = tasks d"
proof -
  have sent: "\<exists>n'. forT us (\<lambda>u. queryT err (\<lambda>d. ())) e n d = (Cont (), n', d)" for us :: "UserID list" and n and d :: db
    by (induction us arbitrary: n) (simp_all add: run_rules assms(1))
  obtain d1 where ins: "insertEvent draft d = Some d1" and same: "tasks d1 = tasks d"
    using assms(2,3) by (simp add: insertEvent_def)
  obtain n' where "forT (dr_recipients draft) (\<lambda>u. queryT err (\<lambda>d. ())) e (Suc (Suc n)) d1 = (Cont (), n', d1)"
    using sent by blast
  then show ?thesis by (simp add: recordEventDraftInTx_def run_rules assms(1) ins same)
qed

lemma ChangeTaskState_opens:
  assumes quiet: "quiet e" and r: "filter (\<lambda>r. tk_id r = t) (tasks d) = [r]" "tk_reward_kind r = RewardKindNone"
    and plan: "\<And>draft. plan = Record draft \<Longrightarrow> dr_id draft \<notin> (\<lambda>x. dr_id (ev_draft x)) ` set (domain_events d)"
  shows "\<exists>ds d'. ChangeTaskState t StateOpen plan e n d = (ChangeTaskStateStoreAccepted (r\<lparr>tk_state := StateOpen\<rparr>) ds, d') \<and>
     filter (\<lambda>r. tk_id r = t) (tasks d') = [r\<lparr>tk_state := StateOpen\<rparr>]"
proof -
  have faults: "fault e = (\<lambda>_. False)" and ids: "\<And>x. uuid_parse e x = Inr x" using quiet by (simp_all add: quiet_def)
  note row = find_only [OF r(1)]
  let ?d = "d\<lparr>tasks := updateWhere (\<lambda>x. tk_id x = t \<and> tk_state x = tk_state r) (tk_state_update (\<lambda>_. StateOpen)) (tasks d)\<rparr>"
  have only: "filter (\<lambda>x. tk_id x = t) (tasks ?d) = [r\<lparr>tk_state := StateOpen\<rparr>]" using set_only(1) [OF r(1)] by simp
  have "\<exists>ds n' d'. changeTaskStateTx t StateOpen plan e (Suc n) d = (Cont ds, n', d') \<and> tasks d' = tasks ?d"
  proof (cases plan)
    case NoEvent
    then show ?thesis
      by (simp add: changeTaskStateTx_def requireOpenableReward_def setTaskState_def run_rules faults row r(2) set_only(2) [OF r(1)] Let_def)
  next
    case (Record draft)
    have "distinct (dr_recipients (WithRecipients draft us))" for us by (simp add: WithRecipients_def NewRecipients_distinct)
    then have rec: "\<exists>n' d'. recordEventDraftInTx err (WithRecipients draft us) e k ?d = (Cont (), n', d') \<and> tasks d' = tasks ?d" for err us k
      using plan [OF Record] by (intro run_record [OF faults]) (simp_all add: WithRecipients_def)
    obtain n' d' where "recordEventDraftInTx (invalidState ''record task state event failed'') (WithRecipients draft [tk_created_by r]) e
        (Suc (Suc (Suc (Suc (Suc n))))) ?d = (Cont (), n', d')" "tasks d' = tasks ?d"
      using rec [of "invalidState ''record task state event failed''" "[tk_created_by r]" "Suc (Suc (Suc (Suc (Suc n))))"] by (elim exE conjE)
    then show ?thesis
      by (simp add: Record changeTaskStateTx_def requireOpenableReward_def setTaskState_def run_rules faults row r(2) set_only(2) [OF r(1)] Let_def
          parseReviewWorker_def ParseUserID_def ids run_parse)
  qed
  then obtain ds n' d' where tx: "changeTaskStateTx t StateOpen plan e (Suc n) d = (Cont ds, n', d')" and same: "tasks d' = tasks ?d" by blast
  show ?thesis
    using only by (simp add: ChangeTaskState_def commitN_def runN_def run_rules faults tx FindTask_def readN_def same)
qed

section \<open>Ended tasks hold nothing\<close>

lemma ended_holds_nothing:
  assumes ok: "custody_ok d" and r: "r \<in> set (tasks d)" "tk_id r = t" "\<not> live r"
  shows "t \<notin> fundedTasks d \<and> t \<notin> holdingTasks d"
proof -
  have "t \<notin> liveTasks P d" for P
  proof
    assume "t \<in> liveTasks P d"
    then obtain x where "x \<in> set (tasks d)" "tk_id x = t" "live x" by (auto simp: liveTasks_def)
    moreover have "distinct (map tk_id (tasks d))" using ok by (simp add: custody_ok_def custodyX_def)
    ultimately have "x = r" using r by (auto simp: distinct_map inj_on_def)
    with \<open>live x\<close> r(3) show False by simp
  qed
  with ok show ?thesis by (auto simp: custody_ok_def custodyX_def)
qed

lemma cancelled_holds_nothing:
  assumes run: "ChangeTaskState t StateCancelled plan e n d = (ChangeTaskStateStoreAccepted r ds, d')" and ok: "custody_ok d"
  shows "t \<notin> fundedTasks d' \<and> t \<notin> holdingTasks d' \<and> released t d' \<and> tk_state r = StateCancelled"
proof -
  have "custody_ok d'"
    by (rule custody.method_ChangeTaskState [OF run ok]) (rule guarded_changeTaskStateTx; simp)
  with ChangeTaskState_changed [OF run] ended_holds_nothing [of d' r t] show ?thesis
    by (simp add: changed_def live_def)
qed

section \<open>The expiry sweep\<close>

abbreviation expireRow :: "string \<Rightarrow> task_row list \<Rightarrow> task_row list" where
  "expireRow raw \<equiv> updateWhere (\<lambda>r. tk_id r = raw \<and> tk_state r = StateOpen) (tk_state_update (\<lambda>_. StateExpired))"

lemma one_open:
  assumes "distinct (map tk_id rows)" "r \<in> set rows" "tk_id r = raw" "tk_state r = StateOpen"
  shows "length (filter (\<lambda>r. tk_id r = raw \<and> tk_state r = StateOpen) rows) = Suc 0"
proof -
  have "filter (\<lambda>r. tk_id r = raw \<and> tk_state r = StateOpen) rows = [r]"
    using assms by (induction rows) (auto simp: filter_empty_conv image_iff)
  then show ?thesis by simp
qed

lemma wp_expireLocked:
  assumes "distinct (map tk_id (tasks d))" "r \<in> set (tasks d)" "tk_id r = raw" "tk_state r = StateOpen"
  shows "wp e (expireLockedTask raw t u) (\<lambda>_ d'. tasks d' = expireRow raw (tasks d)) 
     (\<lambda>x g. (\<exists>y. x = expireOneTaskRejected y) \<and> quietly g) d"
  unfolding expireLockedTask_def
proof (rule wp_bind, rule wp_lift, rule wp_leaves [where P = "\<lambda>_. True"], intro safe_rules, rule wp_bind, rule wp_lift, rule wp_leaves [where P = "\<lambda>_. True"],
    intro safe_rules, rule wp_bind, rule wp_lift, rule wp_leaves [where P = "\<lambda>_. True"], intro safe_rules, goal_cases)
  case (1 a1 d1 a2 d2 a3 d3)
  then have same: "tasks d3 = tasks d" by (simp add: work_def)
  show ?case
    unfolding setTaskState_def
    by (intro wp_rules) (use one_open [OF assms] in \<open>auto simp: same dest: books_eqD(5)\<close>)
qed simp_all

lemma quietly_tasks: "quietly g \<Longrightarrow> tasks (g d) = tasks d"
  unfolding quietly_def by (metis books_sel(5))

text \<open>One task: expired, or skipped because it is no longer due and open, or left as it was.\<close>

definition expireOutcome :: "env \<Rightarrow> string \<Rightarrow> task_row list \<Rightarrow> expireOneTaskResult \<Rightarrow> task_row list \<Rightarrow> bool" where
  "expireOutcome e raw rows res rows' \<longleftrightarrow> (case res of
     expireOneTaskExpired _ \<Rightarrow> rows' = expireRow raw rows
   | expireOneTaskSkipped \<Rightarrow> rows' = rows \<and>
       (\<exists>m. \<forall>r \<in> set rows. tk_id r = raw \<and> due (clock e m) r \<longrightarrow> tk_state r \<noteq> StateOpen)
   | expireOneTaskRejected _ \<Rightarrow> rows' = rows)"

lemma due_unique:
  assumes "distinct (map tk_id rows)" "rowWhere (\<lambda>r. tk_id r = raw \<and> due now r) rows = Some r" "tk_state r \<noteq> StateOpen"
  shows "\<forall>x \<in> set rows. tk_id x = raw \<and> due now x \<longrightarrow> tk_state x \<noteq> StateOpen"
  using assms by (auto simp: distinct_map inj_on_def dest!: rowWhere_SomeD)

lemma expireOneTask_outcome:
  assumes ids: "distinct (map tk_id (tasks d))" and run: "expireOneTask raw e n d = (res, n', d')"
  shows "expireOutcome e raw (tasks d) res (tasks d')"
proof (cases "ParseTaskID e raw")
  case Inl
  with run show ?thesis by (auto simp: expireOneTask_def expireOutcome_def)
next
  case (Inr t)
  let ?P = "\<lambda>res d'. expireOutcome e raw (tasks d) res (tasks d')"
  show ?thesis
  proof (rule runT_rule [OF runN_runT [OF run [unfolded expireOneTask_def Inr sum.case]], where P = ?P], goal_cases)
    case 1
    show ?case
    proof (intro wp_bind [of _ "askT _"] wp_bind [of _ "queryT _ _"] wp_ask wp_query wp_case_option wp_if wp_raise
        wp_bind [of _ "liftT _ _"] wp_lift wp_parse, goal_cases)
      case (4 m r u)
      then have r: "r \<in> set (tasks d)" "tk_id r = raw" "tk_state r = StateOpen" by (auto dest: rowWhere_SomeD)
      show ?case
        by (rule wp_bind, rule wp_mono [OF wp_expireLocked [OF ids r]])
           (auto intro!: wp_ret simp: expireOutcome_def quietly_tasks)
    qed (auto simp: expireOutcome_def rowWhere_None dest: due_unique [OF ids])
  qed (simp add: expireOutcome_def)
qed

lemma due_mono: "\<lbrakk>due now r; now \<le> now'\<rbrakk> \<Longrightarrow> due now' r"
  by (auto simp: due_def split: option.splits)

text \<open>Tasks the loop leaves open are tasks it was not given, or not due.\<close>

definition pending :: "env \<Rightarrow> int \<Rightarrow> TaskID set \<Rightarrow> task_row list \<Rightarrow> bool" where
  "pending e now ids rows \<longleftrightarrow> (\<forall>r \<in> set rows. tk_state r = StateOpen \<and> due now r \<longrightarrow> tk_id r \<in> ids)"

lemma pending_step:
  assumes "pending e now (insert raw ids) rows" "expireOutcome e raw rows res rows'" "\<forall>m. now \<le> clock e m"
    "\<nexists>y. res = expireOneTaskRejected y"
  shows "pending e now ids rows'"
  using assms(1,2,4) due_mono [OF _ assms(3) [rule_format]]
  by (fastforce simp: pending_def expireOutcome_def set_updateWhere split: expireOneTaskResult.splits if_splits)

lemma ids_expireOutcome: "expireOutcome e raw rows res rows' \<Longrightarrow> map tk_id rows' = map tk_id rows"
  by (auto simp: expireOutcome_def split: expireOneTaskResult.splits)

lemma expireLoop_complete:
  assumes "expireLoop ids recorded e n d = (ExpireDueTasksCompleted ds, d')" "distinct (map tk_id (tasks d))"
    "pending e now (set ids) (tasks d)" "\<forall>m. now \<le> clock e m"
  shows "pending e now {} (tasks d')"
  using assms
proof (induction ids arbitrary: recorded n d)
  case (Cons raw ids)
  obtain res n1 d1 where one: "expireOneTask raw e n d = (res, n1, d1)" by (metis prod_cases3)
  note out = expireOneTask_outcome [OF Cons.prems(2) one]
  from Cons.prems(1) have loop: "\<nexists>y. res = expireOneTaskRejected y"
      "\<exists>recorded. expireLoop ids recorded e n1 d1 = (ExpireDueTasksCompleted ds, d')"
    by (auto simp: one split: expireOneTaskResult.splits)
  show ?case
    using Cons.IH loop(2) pending_step [OF _ out Cons.prems(4) loop(1)] Cons.prems(2-4) ids_expireOutcome [OF out] by auto
qed simp

lemma ExpireDueTasks_complete:
  assumes run: "ExpireDueTasks e n d = (ExpireDueTasksCompleted ds, d')"
    and ids: "distinct (map tk_id (tasks d))" and clock: "\<forall>m. now \<le> clock e m"
  shows "\<forall>r \<in> set (tasks d'). tk_state r = StateOpen \<longrightarrow> \<not> due now r"
proof -
  obtain rawIDs n1 where scan: "readN (bindT (askT (\<lambda>e n. clock e n))
        (\<lambda>now. bindT (scanT (Inl (invalidState ''list due tasks failed'')) (Inl (invalidState ''scan due task failed''))
                 (Inl (invalidState ''read due tasks failed'')) (dueTasks now) retT)
        (\<lambda>ids. retT (Inr ids)))) e n d = (Inr rawIDs, n1)"
    and loop: "expireLoop rawIDs [] e n1 d = (ExpireDueTasksCompleted ds, d')"
    using run by (auto simp: ExpireDueTasks_def split: prod.splits sum.splits)
  have "case (Inr rawIDs :: string list result) of Inl _ \<Rightarrow> True | Inr ids \<Rightarrow> \<exists>m. ids = dueTasks (clock e m) d"
    by (rule readN_rule [OF scan], unfold scanT_def, intro wp_bind wp_ask wp_query wp_mapT_ret wp_ret) auto
  then obtain m where "rawIDs = dueTasks (clock e m) d" by auto
  then have "pending e now (set rawIDs) (tasks d)"
    using due_mono [OF _ clock [rule_format]] by (auto simp: pending_def dueTasks_def)
  from expireLoop_complete [OF loop ids this clock] show ?thesis by (auto simp: pending_def)
qed

section \<open>Early returns\<close>

text \<open>Every early return of a body satisfies a predicate on results.\<close>

named_theorems early_rules "early returns of composed bodies"

definition early :: "('r \<Rightarrow> bool) \<Rightarrow> env \<Rightarrow> ('r, 'a) dbtx \<Rightarrow> bool" where
  "early P e m \<longleftrightarrow> (\<forall>d. wp e m (\<lambda>_ _. True) (\<lambda>r _. P r) d)"

lemma early_statements [early_rules]:
  "early P e (retT a)" "P r \<Longrightarrow> early P e (raiseT r)" "P r \<Longrightarrow> early P e (queryT r f)" "P r \<Longrightarrow> early P e (execT r g)"
  "\<lbrakk>P r; P r'\<rbrakk> \<Longrightarrow> early P e (execU r r' g)"
  by (auto simp: early_def intro!: wp_rules)

lemma early_lift [early_rules]: "(\<And>x. P (w x)) \<Longrightarrow> early P e (liftT w m)"
  by (auto simp: early_def intro!: wp_lift wp_any)

lemma early_bind [early_rules]: "\<lbrakk>early P e m; \<And>a. early P e (k a)\<rbrakk> \<Longrightarrow> early P e (bindT m k)"
  by (auto simp: early_def intro!: wp_bind elim!: wp_mono)

lemma early_branches [early_rules]:
  "\<lbrakk>early P e m; early P e m'\<rbrakk> \<Longrightarrow> early P e (if b then m else m')" "early P e (h v) \<Longrightarrow> early P e (let x = v in h x)"
  by simp_all

lemma early_record [early_rules]: "P r \<Longrightarrow> early P e (recordAll r drs)"
  by (auto simp: early_def recordAll_def intro!: wp_for [where I = "\<lambda>_. True"] wp_rules)

lemma early_charge [early_rules]: "(\<And>x. P (rej x)) \<Longrightarrow> early P e (orRefuse (applySpendCharge c) rej)"
  unfolding early_def by (intro allI wp_orRefuse) (auto intro: wp_any)

lemma wp_early:
  assumes "early P e m" "wp e m Q (\<lambda>_. quietly) d" "\<And>r g. P r \<Longrightarrow> E r g"
  shows "wp e m Q E d"
  using wp_conj [OF assms(2) assms(1) [unfolded early_def, rule_format]] by (rule wp_mono) (use assms(3) in auto)

section \<open>Acceptance\<close>

definition acceptedEffect :: "AcceptStoreCommand \<Rightarrow> db \<Rightarrow> db \<Rightarrow> bool" where
  "acceptedEffect c d d' \<longleftrightarrow> inState StateOpen (ac_task c) d \<and> inState StateClosed (ac_task c) d' \<and>
     (case submissionById (ac_submission c) (ac_task c) d of None \<Rightarrow> False | Some s \<Rightarrow> sb_state s = SubmissionStateSubmitted) \<and>
     (\<exists>s \<in> set (submissions d'). sb_id s = ac_submission c \<and> sb_task s = ac_task c \<and>
        sb_state s = SubmissionStateAccepted \<and> sb_accepted_key s = Some (ac_key c)) \<and>
     (\<forall>s \<in> set (submissions d'). sb_task s = ac_task c \<and> sb_id s \<noteq> ac_submission c \<longrightarrow> sb_state s \<noteq> SubmissionStateSubmitted)"

abbreviation superseded :: "TaskID \<Rightarrow> SubmissionID \<Rightarrow> submission_row list \<Rightarrow> submission_row list" where
  "superseded t s \<equiv> updateWhere (competing t s) (\<lambda>r. r\<lparr>sb_state := SubmissionStateSuperseded\<rparr>)"

lemma wp_supersede_exact:
  assumes "\<And>ds d'. \<lbrakk>tasks d' = tasks d; submissions d' = superseded t s (submissions d)\<rbrakk> \<Longrightarrow> Q ds d'" "\<And>r g. quietly g \<Longrightarrow> E r g"
  shows "wp e (supersedeCompetingSubmissions t s ac) Q E d"
  unfolding supersedeCompetingSubmissions_def
proof (intro wp_bind [of _ "queryT _ _"] wp_bind [of _ "execT _ _"] wp_query wp_exec assms(2) quietly_id, goal_cases)
  case (1 d1)
  then have "tasks d1 = tasks d" "submissions d1 = superseded t s (submissions d)"
    by (auto simp: updateSubmissions_def Let_def split: if_splits)
  then show ?case
    by (intro wp_leaves [where P = "\<lambda>_. True"] assms) (intro safe_rules | simp add: work_eq)+
qed

definition acceptedRow :: "AcceptStoreCommand \<Rightarrow> submission_row \<Rightarrow> submission_row" where
  "acceptedRow c r = r\<lparr>sb_state := SubmissionStateAccepted, sb_accepted_key := Some (ac_key c)\<rparr>"

definition acceptedWork :: "AcceptStoreCommand \<Rightarrow> db \<Rightarrow> task_row list \<times> submission_row list" where
  "acceptedWork c d = (updateWhere (\<lambda>r. tk_id r = ac_task c) (\<lambda>r. r\<lparr>tk_state := StateClosed\<rparr>) (tasks d),
     updateWhere (\<lambda>r. sb_id r = ac_submission c) (acceptedRow c) (submissions d))"

lemma wp_acceptAndPay_exact:
  assumes "\<And>a d'. \<lbrakk>tasks d' = fst (acceptedWork c d); submissions d' = snd (acceptedWork c d)\<rbrakk> \<Longrightarrow> Q a d'" "\<And>r g. quietly g \<Longrightarrow> E r g"
  shows "wp e (acceptAndPay c k w) Q E d"
  unfolding acceptAndPay_def payOutEscrow_def
proof (intro wp_bind [of _ "execT _ _"] wp_bind [of _ "execU _ _ _"] wp_execU wp_exec assms(2) quietly_id, goal_cases)
  case (1 d1 d2)
  then have "tasks d2 = fst (acceptedWork c d)" "submissions d2 = snd (acceptedWork c d)"
    by (auto simp: updateSubmissions_def updateTask_def acceptedWork_def acceptedRow_def [abs_def] Let_def split: if_splits)
  then show ?case
    by (intro wp_leaves [where P = "\<lambda>_. True"] assms) (intro safe_rules | simp add: work_eq)+
qed

lemma early_acceptAndPay [early_rules]: "early (\<lambda>r. \<not> accepted r) e (acceptAndPay c k w)"
  unfolding acceptAndPay_def by (intro early_rules) simp_all

lemma acceptedEffect_work:
  assumes r: "taskById (ac_task c) d = Some r" "tk_state r = StateOpen"
    and row: "submissionById (ac_submission c) (ac_task c) d = Some row" "sb_state row = SubmissionStateSubmitted"
    and d': "tasks d' = fst (acceptedWork c d)" "submissions d' = superseded (ac_task c) (ac_submission c) (snd (acceptedWork c d))"
  shows "acceptedEffect c d d'"
proof -
  have mem: "r \<in> set (tasks d)" "tk_id r = ac_task c" "row \<in> set (submissions d)" "sb_id row = ac_submission c" "sb_task row = ac_task c"
    using r(1) row(1) by (auto dest: rowWhere_SomeD)
  have "r\<lparr>tk_state := StateClosed\<rparr> \<in> set (tasks d')"
    using mem(1,2) unfolding d' by (auto simp: acceptedWork_def set_updateWhere image_iff intro!: bexI [of _ r])
  moreover have "acceptedRow c row \<in> set (submissions d')"
    using mem(3,4) unfolding d' acceptedWork_def
    by (auto simp: set_updateWhere image_iff competing_def acceptedRow_def intro!: bexI [of _ row])
  moreover have "sb_state s \<noteq> SubmissionStateSubmitted" if "s \<in> set (submissions d')" "sb_task s = ac_task c" "sb_id s \<noteq> ac_submission c" for s
    using that unfolding d' set_updateWhere by (auto simp: competing_def split: if_splits)
  ultimately show ?thesis
    using mem r(2) row unfolding acceptedEffect_def inState_def
    by (auto simp: acceptedRow_def intro: bexI [of _ "r\<lparr>tk_state := StateClosed\<rparr>"] bexI [of _ "acceptedRow c row"])
qed

lemma AcceptSubmission_effect:
  assumes "AcceptSubmission c e n d = (SubmissionAccepted t s w p tip FirstExecution ds, d')"
  shows "acceptedEffect c d d'"
proof -
  let ?P = "\<lambda>r d'. (\<exists>t s w p tip ds. r = SubmissionAccepted t s w p tip FirstExecution ds) \<longrightarrow> acceptedEffect c d d'"
  have "?P (SubmissionAccepted t s w p tip FirstExecution ds) d'"
  proof (rule runT_rule [OF assms [unfolded AcceptSubmission_def], where P = ?P], goal_cases)
    case 1
    show ?case
    proof (intro wp_bind [of _ "liftT _ (lockTaskForReview _ _ _)"] wp_lift wp_lockReview_auth
        wp_bind [of _ "readSubmission _ _ _"] wp_read_row wp_if wp_raise, goal_cases)
      case (5 r row)
      show ?case
      proof (rule wp_early [where P = "\<lambda>r. \<not> accepted r"], goal_cases)
        case 2
        show ?case
          by (rule wp_bind, rule wp_acceptAndPay_exact, intro wp_case_prod, rule wp_bind, rule wp_lift, rule wp_leaves [where P = "\<lambda>_. True"],
              (intro safe_rules)[1], rule wp_bind, rule wp_lift, rule wp_supersede_exact, rule wp_let,
              rule wp_leaves [where P = "\<lambda>(c, v). \<not> accepted c"],
              (intro safe_rules | simp)+)
             (use 5 in \<open>auto intro!: acceptedEffect_work simp: work_eq taskLocked_of_def\<close>)
      qed (intro early_rules | auto)+
    next
      case (2 r row)
      show ?case
        unfolding idempotentAccept_def parseReviewWorker_def by (intro wp_rules) auto
    qed auto
  qed simp
  then show ?thesis by simp
qed

section \<open>Refunds\<close>

text \<open>The requester may refund, and the whole allocation went back to the account it came from.\<close>

definition mayRefund :: "db \<Rightarrow> TaskID \<Rightarrow> UserID \<Rightarrow> bool" where
  "mayRefund d t u \<longleftrightarrow> (case taskById t d of None \<Rightarrow> False | Some r \<Rightarrow> live r \<and> (tk_created_by r = u \<or>
     (\<exists>v \<in> set (task_reservations d). rv_task v = t \<and> rv_assignee v = AssigneeScopeUser \<and> rv_user v = Some u \<and>
        rv_state v = ReservationStateActive)))"

definition refundedEffect :: "RefundStoreCommand \<Rightarrow> db \<Rightarrow> db \<Rightarrow> bool" where
  "refundedEffect c d d' \<longleftrightarrow> mayRefund d (uc_task c) (uc_requester c) \<and>
     (case rowWhere (\<lambda>f. tf_task f = uc_task c) (task_funds d) of None \<Rightarrow> False | Some f \<Rightarrow>
        ledger_entries d' = ledger_entries d @ [\<lparr>le_id = uc_entry c, le_account = tf_account f, le_kind = EntryKindTaskRefund,
           le_amount = tf_amount f, le_task = Some (uc_task c), le_key = Some (uc_key c), le_note = None\<rparr>] \<and>
        task_funds d' = deleteWhere (\<lambda>f. tf_task f = uc_task c) (task_funds d))"

lemma wp_refundable_auth:
  "\<lbrakk>mayRefund d t u \<Longrightarrow> Q () d; \<And>r. E r id\<rbrakk> \<Longrightarrow> wp e (lockTaskRefundable t u) Q E d"
  unfolding lockTaskRefundable_def by (intro wp_rules) (auto simp: mayRefund_def live_def)

lemma RefundTask_effect:
  assumes "RefundTask c e n d = (TaskRefunded f FirstExecution ds, d')"
  shows "refundedEffect c d d'"
proof -
  let ?P = "\<lambda>r d'. (\<exists>f ds. r = TaskRefunded f FirstExecution ds) \<longrightarrow> refundedEffect c d d'"
  have "?P (TaskRefunded f FirstExecution ds) d'"
  proof (rule runT_rule [OF assms [unfolded RefundTask_def], where P = ?P], goal_cases)
    case 1
    show ?case
    proof (intro wp_bind [of _ "liftT _ (lockTaskRefundable _ _)"] wp_lift wp_refundable_auth wp_bind [of _ "queryT _ _"]
        wp_query wp_case_option, goal_cases)
      case 3
      show ?case unfolding replayOrRejectRefund_def by (intro wp_rules) auto
    next
      case (4 f)
      have refunded: "refundedEffect c d d6"
        if "insertLedger \<lparr>le_id = uc_entry c, le_account = tf_account f, le_kind = EntryKindTaskRefund,
             le_amount = tf_amount f, le_task = Some (uc_task c), le_key = Some (uc_key c), le_note = None\<rparr> d = Some d1"
          "deleteFund (uc_task c) d1 = Some d2" "sameCredits d2 d3" "updateTask (uc_task c) g d3 = Some d4"
          "sameCredits d4 d5" "books d6 = books d5" for d1 d2 d3 d4 d5 d6 g
        using that(1-5) 4 books_eqD(2,3) [OF that(6)]
        by (auto simp: refundedEffect_def insertLedger_Some deleteFund_def sameCredits_def updateTask_def)
      show ?case
        unfolding refundFund_def Let_def
        by (intro wp_rules) (auto intro: refunded)
    qed auto
  qed simp
  then show ?thesis by simp
qed

section \<open>Who may submit\<close>

definition eligible :: "TaskID \<Rightarrow> UserID \<Rightarrow> db \<Rightarrow> bool" where
  "eligible t u d \<longleftrightarrow> (case taskById t d of None \<Rightarrow> False | Some r \<Rightarrow>
     \<not> seriesBlocked t d \<and> \<not> userBanned t u d \<and> (tk_participation r = ParticipationPolicyOpen \<or> activeForSubmitter t u d))"

lemma eligibility_sound:
  assumes "CheckSubmissionEligibility t u e n d = (SubmissionEligible, n', d')"
  shows "eligible t u d'"
proof -
  obtain n1 where "readN (eligibilityQueries t u) e n1 d' = (SubmissionEligible, n')"
    using assms by (auto simp: CheckSubmissionEligibility_def split: prod.splits if_splits)
  then have "SubmissionEligible = SubmissionEligible \<longrightarrow> eligible t u d'"
    unfolding eligibilityQueries_def taskSeriesBlocksExecution_def Let_def
    by (rule readN_rule [where P = "\<lambda>r. r = SubmissionEligible \<longrightarrow> eligible t u d'"])
       (intro wp_rules, auto simp: eligible_def)
  then show ?thesis by simp
qed

lemma eligibility_exact:
  assumes "quiet e"
  shows "fst (readN (eligibilityQueries t u) e n d) = SubmissionEligible \<longleftrightarrow> eligible t u d"
  using assms
  by (simp add: readN_def eligibilityQueries_def taskSeriesBlocksExecution_def Let_def quiet_def run_rules eligible_def
      split: option.split)

section \<open>Reservations\<close>

text \<open>The reservation the store inserts, and the guards that held.\<close>

fun heldBy :: "Assignee \<Rightarrow> reservation_row \<Rightarrow> bool" where
  "heldBy (UserAssignee u) v \<longleftrightarrow> rv_assignee v = AssigneeScopeUser \<and> rv_user v = Some u \<and> rv_team v = None \<and> rv_organization v = None"
| "heldBy (TeamAssignee t) v \<longleftrightarrow> rv_assignee v = AssigneeScopeTeam \<and> rv_user v = None \<and> rv_team v = Some t \<and> rv_organization v = None"
| "heldBy (OrganizationTeamAssignee i t) v \<longleftrightarrow>
     rv_assignee v = AssigneeScopeOrganizationTeam \<and> rv_user v = None \<and> rv_team v = Some t \<and> rv_organization v = Some i"

definition reservationMade :: "TaskReservationID \<Rightarrow> ReservationCommand \<Rightarrow> env \<Rightarrow> db \<Rightarrow> bool" where
  "reservationMade i c e d \<longleftrightarrow> (case taskById (rc_task c) d of None \<Rightarrow> False | Some r \<Rightarrow>
     tk_state r = StateOpen \<and> tk_participation r = ParticipationPolicyReservationRequired \<and>
     \<not> seriesBlocked (rc_task c) d \<and> \<not> bannedAssignee (rc_task c) (assigneeSQLColumns (rc_assignee c)) d \<and>
     (\<exists>v \<in> set (task_reservations d). rv_id v = i \<and> rv_task v = rc_task c \<and> rv_state v = ReservationStateActive \<and>
        heldBy (rc_assignee c) v \<and> rv_requested_by v = rc_requested_by c \<and> rv_credential v = originCredential (rc_origin c) \<and>
        (\<exists>m. rv_expires_at v = clock e m + hours (tk_ttl_hours r))))"

lemma heldBy_iff: "heldBy a v \<longleftrightarrow> rv_assignee v = as_kind (assigneeSQLColumns a) \<and> rv_user v = as_user (assigneeSQLColumns a) \<and>
    rv_team v = as_team (assigneeSQLColumns a) \<and> rv_organization v = as_organization (assigneeSQLColumns a)"
  by (cases a) simp_all

lemma wp_chargeReservation_books:
  assumes "\<And>d'. books d' = books d \<Longrightarrow> Q () d'" "\<And>r g. E r g"
  shows "wp e (chargeReservation origin) Q E d"
  using assms by (cases origin) (auto intro!: wp_rules wp_orRefuse)

lemma wp_createReservation:
  assumes "\<And>d'. reservationMade i c e d' \<Longrightarrow> Q () d'" "\<And>r g. E r g"
  shows "wp e (createReservationTx i c) Q E d"
  unfolding createReservationTx_def taskSeriesBlocksExecution_def Let_def
proof (intro wp_bind wp_query wp_case_option wp_raise wp_if wp_ret wp_case_sum assms(2) wp_chargeReservation_books wp_ask
    wp_exec wp_record, goal_cases)
  case (1 r st d1 m d2 d3)
  have "reservationMade i c e d2"
    using 1 books_eqD(5,7,8,12) [OF 1(7)]
    by (cases "tk_participation r")
       (auto simp: reservationMade_def heldBy_iff insertReservation_def seriesBlocked_def bannedAssignee_def Let_def split: if_splits)
  then have "reservationMade i c e d3"
    unfolding reservationMade_def seriesBlocked_def bannedAssignee_def books_eqD(5,7,8,12) [OF 1(9)] .
  then show ?case by (rule assms(1))
qed

lemma CreateReservation_made:
  assumes "CreateReservation i c e n d = (CreateReservationStoreAccepted v, d')"
  shows "reservationMade i c e d'"
proof -
  obtain n1 d1 n2 where "commitN (invalidState ''begin create reservation transaction failed'')
      (invalidState ''commit create reservation transaction failed'') (createReservationTx i c) e n1 d1 = (Inr (), n2, d')"
    using assms by (auto simp: CreateReservation_def split: prod.splits if_splits sum.splits)
  then show ?thesis
    by (rule commitN_rule [where P = "\<lambda>_. reservationMade i c e"]) (rule wp_createReservation, simp_all)
qed

section \<open>Balances\<close>

text \<open>A sum over the rows of several keys is the sum of the sums per key.\<close>

lemma sumOf_by_key:
  assumes "finite A" "k ` set rows \<subseteq> A"
  shows "sumOf h (filter (\<lambda>r. p (k r)) rows) = (\<Sum>a \<in> {a \<in> A. p a}. sumOf h (filter (\<lambda>r. k r = a) rows))"
  using assms(2)
proof (induction rows)
  case (Cons x xs)
  have "(\<Sum>a \<in> {a \<in> A. p a}. sumOf h (filter (\<lambda>r. k r = a) (x # xs))) =
      (\<Sum>a \<in> {a \<in> A. p a}. (if k x = a then h x else 0) + sumOf h (filter (\<lambda>r. k r = a) xs))"
    by (rule sum.cong) simp_all
  also have "\<dots> = (\<Sum>a \<in> {a \<in> A. p a}. if k x = a then h x else 0) + sumOf h (filter (\<lambda>r. p (k r)) xs)"
    using Cons by (simp add: sum.distrib)
  also have "(\<Sum>a \<in> {a \<in> A. p a}. if k x = a then h x else 0) = (if p (k x) then h x else 0)"
    using assms(1) Cons.prems by (simp add: sum.delta)
  finally show ?case by simp
qed simp

lemma spendable_nonneg:
  assumes "db_ok d"
  shows "0 \<le> sumOf le_amount (filter (\<lambda>r. p (le_account r)) (ledger_entries d))"
proof -
  have "0 \<le> spendableOf d a" for a using assms by (simp add: db_ok_def solvent_iff)
  then show ?thesis
    using sumOf_by_key [of "le_account ` set (ledger_entries d)" le_account "ledger_entries d" le_amount p]
    by (simp add: spendableOf_def sum_nonneg)
qed

lemma readBalance_nonneg:
  "\<lbrakk>db_ok d; readBalance f p e n d = Inr b\<rbrakk> \<Longrightarrow> 0 \<le> spendable b \<and> 0 \<le> allocated b"
  by (auto simp: readBalance_def Let_def allocated_nonneg spendable_nonneg split: if_splits)

end
