(* ===== verification/Filing.thy ===== *)
theory Filing
  imports Outcomes
begin

text \<open>
  What creating a submission writes, table by table, and that a receipt finds exactly
  that submission again.
\<close>

section \<open>The tables after a submission\<close>

definition filed ::
  "SubmissionID \<Rightarrow> SubmissionReceiptTokenID \<Rightarrow> string \<Rightarrow> SubmitCommand \<Rightarrow> SubmissionState \<Rightarrow> ValidationOutcome
    \<Rightarrow> StoredSensitiveField list \<Rightarrow> int \<Rightarrow> string \<Rightarrow> db \<Rightarrow> db" where
  "filed i ri h c st out sf now response d = d\<lparr>
     submissions := submissions d @ [submissionColumns i c st now response],
     task_reservations := (if st \<noteq> SubmissionStateInvalid
       then updateWhere (ownActiveReservation c) (rv_state_update (\<lambda>_. ReservationStateSubmitted)) (task_reservations d)
       else task_reservations d),
     submission_receipt_tokens := submission_receipt_tokens d @ [\<lparr>rt_id = ri, rt_submission = i, rt_hash = h\<rparr>],
     submission_validation_errors := submission_validation_errors d @ validationErrorRows i out,
     submission_sensitive_fields := submission_sensitive_fields d @ sensitiveFieldRows i sf,
     submission_attachments := submission_attachments d @ attachmentRows i (sc_attachments c)\<rparr>"

lemma books_filed: "books (filed i ri h c st out sf now response d) = filed i ri h c st out sf now response (books d)"
  by (simp add: books_def filed_def)

lemma wp_for_append:
  assumes ins: "\<And>r d d'. ins r d = Some d' \<Longrightarrow> d' = app [r] d"
    and app: "\<And>xs ys d. app xs (app ys d) = app (ys @ xs) d" "\<And>d. app [] d = d"
    and Q: "Q () (app rows d)" and E: "E err id"
  shows "wp e (forT rows (\<lambda>r. execT err (ins r))) Q E d"
  using Q
proof (induction rows arbitrary: d)
  case Nil
  then show ?case by (simp add: app wp_ret)
next
  case (Cons r rows)
  then show ?case by (auto intro!: wp_bind wp_exec Cons.IH E simp: app dest!: ins)
qed

lemma wp_attach:
  assumes "E (invalidState ''insert submission validation error failed'') id"
    "E (invalidState ''insert submission sensitive field failed'') id"
    "E (invalidState ''insert submission attachment failed'') id"
  shows "Q () (d\<lparr>submission_validation_errors := submission_validation_errors d @ validationErrorRows i out\<rparr>) \<Longrightarrow>
      wp e (insertValidationErrors i out) Q E d"
    "Q () (d\<lparr>submission_sensitive_fields := submission_sensitive_fields d @ sensitiveFieldRows i sf\<rparr>) \<Longrightarrow>
      wp e (insertSensitiveFields i sf) Q E d"
    "Q () (d\<lparr>submission_attachments := submission_attachments d @ attachmentRows i as\<rparr>) \<Longrightarrow>
      wp e (insertSubmissionAttachments i as) Q E d"
  unfolding insertValidationErrors_def insertSensitiveFields_def insertSubmissionAttachments_def
  subgoal by (rule wp_for_append [where app = "\<lambda>rs d. d\<lparr>submission_validation_errors := submission_validation_errors d @ rs\<rparr>"])
      (auto simp: insertValidationError_def assms split: if_splits)
  subgoal by (rule wp_for_append [where app = "\<lambda>rs d. d\<lparr>submission_sensitive_fields := submission_sensitive_fields d @ rs\<rparr>"])
      (auto simp: insertSensitiveField_def assms split: if_splits)
  subgoal by (rule wp_for_append [where app = "\<lambda>rs d. d\<lparr>submission_attachments := submission_attachments d @ rs\<rparr>"])
      (auto simp: insertSubmissionAttachment_def assms split: if_splits)
  done

text \<open>
  The charge of a submission: nothing, or one task on the credential's counter of the day, which
  stays within the limit.
\<close>

definition charged :: "env \<Rightarrow> WorkBudgetCharge \<Rightarrow> db \<Rightarrow> db \<Rightarrow> bool" where
  "charged e b d d' \<longleftrightarrow> (case b of
     NoWorkBudgetCharge \<Rightarrow> usedOf d' = usedOf d
   | ChargeDailyTaskBudget credential dailyTaskLimit \<Rightarrow> \<exists>m. let key = workDayKeyAgentTasks @ credential; day = utcDay (clock e m) in
       usedOf d' key day \<le> dailyTaskLimit \<and>
       (\<forall>k x. usedOf d' k x = usedOf d k x + (if k = key \<and> x = day then 1 else 0)))"

lemma wp_chargeSubmission_charged:
  assumes "\<And>d'. \<lbrakk>books d' = books d; charged e b d d'\<rbrakk> \<Longrightarrow> Q () d'" "\<And>r g. E r g"
  shows "wp e (chargeSubmission b) Q E d"
proof (cases b)
  case (ChargeDailyTaskBudget credential dailyTaskLimit)
  let ?key = "workDayKeyAgentTasks @ credential"
  have "Q () (bumpCounter ?key (utcDay (clock e m)) 1 d)" if "usedOf d ?key (utcDay (clock e m)) + 1 \<le> dailyTaskLimit" for m
    using that unfolding ChargeDailyTaskBudget
    by (intro assms(1)) (auto simp: ChargeDailyTaskBudget charged_def usedOf_bump Let_def intro!: exI [of _ m])
  then have "wp e (consumeSubmissionBudget credential dailyTaskLimit) Q (\<lambda>_ _. True) d"
    unfolding consumeSubmissionBudget_def
    by (intro wp_bind wp_ask wp_lockCredential wp_charge_exact) (auto intro!: wp_rules)
  then show ?thesis
    using assms(2) by (auto simp: chargeSubmission_def ChargeDailyTaskBudget intro!: wp_orRefuse)
next
  case NoWorkBudgetCharge
  then show ?thesis using assms(1) [of d] by (simp add: chargeSubmission_def charged_def wp_ret)
qed

definition nameOf :: "UserID \<Rightarrow> db \<Rightarrow> string result option" where
  "nameOf u d = map_option (\<lambda>r. NewDisplayName (userDisplayNameSQL (us_display_name r) (us_email r)))
     (rowWhere (\<lambda>r. us_id r = u) (users d))"

lemma wp_fetchUserDisplayName:
  assumes "\<And>name. nameOf u d = Some (Inr name) \<Longrightarrow> Q name d" "\<And>r. E r id"
  shows "wp e (fetchUserDisplayName u) Q E d"
  unfolding fetchUserDisplayName_def
  by (intro wp_rules assms) (auto simp: nameOf_def)

lemma books_filing [simp]:
  "users (books d) = users d" "submission_receipt_tokens (books d) = submission_receipt_tokens d"
  "submission_validation_errors (books d) = submission_validation_errors d"
  "submission_sensitive_fields (books d) = submission_sensitive_fields d"
  "submission_attachments (books d) = submission_attachments d"
  by (simp_all add: books_def)

definition filedSubmission ::
  "SubmissionID \<Rightarrow> SubmitCommand \<Rightarrow> SubmissionState \<Rightarrow> ValidationOutcome \<Rightarrow> StoredSensitiveField list \<Rightarrow> int \<Rightarrow> string \<Rightarrow> Submission" where
  "filedSubmission i c st out sf now name =
     \<lparr>sm_id = i, sm_task = sc_task c, sm_submitter = sc_submitter c, sm_display_name = name, sm_state = st,
      sm_response = sc_response c, sm_attachments = sc_attachments c, sm_validation = out, sm_sensitive_fields = sf,
      sm_review_note = '''', sm_created_at = wholeSeconds now\<rparr>"

lemma rowWhere_appended: "x \<notin> f ` set rows \<Longrightarrow> f r = x \<Longrightarrow> rowWhere (\<lambda>r. f r = x) (rows @ [r]) = Some r"
  by (induction rows) auto

lemma filed_finish:
  assumes d1: "books d1 = books d" and d5: "books d5 = books (filed i ri h c st out sf now response d1)"
    and i: "i \<notin> sb_id ` set (submissions d1)" and r: "rowWhere (\<lambda>s. sb_id s = i) (submissions d5) = Some r"
  shows "books d5 = filed i ri h c st out sf now response (books d) \<and> sb_created_at r = now"
proof -
  have eq: "books d5 = filed i ri h c st out sf now response (books d)" using d5 d1 by (simp add: books_filed)
  have "submissions d5 = submissions (books d5)" by simp
  also have "\<dots> = submissions d1 @ [submissionColumns i c st now response]"
    using books_eqD(6) [OF d1] by (simp add: eq) (simp add: filed_def)
  finally have "r = submissionColumns i c st now response"
    using r rowWhere_appended [OF i, of "submissionColumns i c st now response"] by (simp add: submissionColumns_def)
  with eq show ?thesis by (simp add: submissionColumns_def)
qed

lemma wp_reserve:
  assumes "Q () (d\<lparr>task_reservations := if b
       then updateWhere p (rv_state_update (\<lambda>_. ReservationStateSubmitted)) (task_reservations d) else task_reservations d\<rparr>)" "E err id"
  shows "wp e (if b then execT err (updateReservations p ReservationStateSubmitted) else retT ()) Q E d"
  using assms by (auto intro!: wp_rules simp: updateReservations_def Let_def split: if_splits)

lemma wp_createSubmission_exact:
  "wp e (createSubmissionTx i ri h c st out sf)
     (\<lambda>v d'. \<exists>m response name. jsonb_text e (sc_response c) = Some response \<and> nameOf (sc_submitter c) d = Some (Inr name) \<and>
        i \<notin> sb_id ` set (submissions d) \<and> h \<notin> rt_hash ` set (submission_receipt_tokens d) \<and>
        books d' = filed i ri h c st out sf (clock e m) response (books d) \<and> charged e (sc_budget c) d d' \<and>
        v = filedSubmission i c st out sf (clock e m) name)
     (\<lambda>_ _. True) d"
  unfolding createSubmissionTx_def
proof (intro wp_bind wp_ask wp_chargeSubmission_charged wp_exec wp_reserve wp_ret wp_attach wp_fetchUserDisplayName wp_record_exact wp_query
    wp_case_option wp_raise TrueI, goal_cases)
  case prems: (1 m d1 m' d2 d4 name d5 r)
  then obtain response where json: "jsonb_text e (sc_response c) = Some response"
    and ins: "insertSubmission (submissionColumns i c st (clock e m) response) d1 = Some d2" by (auto split: option.splits)
  have fresh: "i \<notin> sb_id ` set (submissions d1)" using insertSubmission_same(2) [OF ins] by (simp add: submissionColumns_def)
  have token: "h \<notin> rt_hash ` set (submission_receipt_tokens d2)"
    and d4: "d4 = d2\<lparr>task_reservations := (if st \<noteq> SubmissionStateInvalid
         then updateWhere (ownActiveReservation c) (rv_state_update (\<lambda>_. ReservationStateSubmitted)) (task_reservations d2)
         else task_reservations d2),
      submission_receipt_tokens := submission_receipt_tokens d2 @ [\<lparr>rt_id = ri, rt_submission = i, rt_hash = h\<rparr>]\<rparr>"
    using prems(4) by (auto simp: insertReceiptToken_def split: if_splits)
  have "books d5 = books (filed i ri h c st out sf (clock e m) response d1)"
    unfolding prems(6) d4 by (simp add: insertSubmission_same(1) [OF ins] filed_def)
  from filed_finish [OF prems(1) this fresh prems(8)]
  have "books d5 = filed i ri h c st out sf (clock e m) response (books d)" "sb_created_at r = clock e m" by simp_all
  moreover have "users d4 = users d1" "submission_receipt_tokens d2 = submission_receipt_tokens d1"
    by (simp_all add: d4 insertSubmission_same(1) [OF ins])
  moreover have "users d1 = users d" "submission_receipt_tokens d1 = submission_receipt_tokens d" "submissions d1 = submissions d"
    using prems(1) by (metis books_filing books_eqD(6))+
  moreover have used: "usedOf d5 = usedOf d1"
    unfolding prems(7) by (simp add: d4 insertSubmission_same(1) [OF ins] usedOf_def fun_eq_iff)
  from prems(2) have charged: "charged e (sc_budget c) d d5" unfolding charged_def used .
  ultimately show ?case
    using json fresh token prems(5) charged by (auto simp: filedSubmission_def nameOf_def)
qed

lemma CreateSubmission_filed:
  assumes "CreateSubmission i ri h c st out sf e n d = (CreateSubmissionStoreAccepted v, n', d')"
  obtains m response name where "jsonb_text e (sc_response c) = Some response" "nameOf (sc_submitter c) d = Some (Inr name)"
    "i \<notin> sb_id ` set (submissions d)" "h \<notin> rt_hash ` set (submission_receipt_tokens d)"
    "books d' = filed i ri h c st out sf (clock e m) response (books d)" "charged e (sc_budget c) d d'"
    "v = filedSubmission i c st out sf (clock e m) name"
proof -
  have "commitN (invalidState ''begin create submission transaction failed'')
      (invalidState ''commit create submission transaction failed'') (createSubmissionTx i ri h c st out sf) e n d = (Inr v, n', d')"
    using assms by (auto simp: CreateSubmission_def split: prod.splits sum.splits)
  from commitN_rule [OF this wp_createSubmission_exact] that show ?thesis by blast
qed

section \<open>A receipt finds its submission\<close>

definition fileable :: "SubmitCommand \<Rightarrow> ValidationOutcome \<Rightarrow> StoredSensitiveField list \<Rightarrow> bool" where
  "fileable c out sf \<longleftrightarrow> out \<noteq> ValidationFailed [] \<and> (\<forall>x \<in> set sf. sf_state x = ''active'' \<and> sf_redacted_at x = '''') \<and>
     (\<forall>a \<in> set (sc_attachments c). valid_attachment a)"

text \<open>Rows numbered in order are read in that order, and carry what was numbered.\<close>

lemma sort_enumerated:
  assumes "\<And>k x. g (h (k, x)) = k"
  shows "sort_key g (map h (enumerate n xs)) = map h (enumerate n xs)"
proof (rule sort_key_id_if_sorted)
  have "map g (map h (enumerate n xs)) = map fst (enumerate n xs)"
    by (induction xs arbitrary: n) (simp_all add: assms)
  then show "sorted (map g (map h (enumerate n xs)))" by (simp only: map_fst_enumerate sorted_upt)
qed

lemma read_enumerated: "(\<And>k x. x \<in> set xs \<Longrightarrow> f (h (k, x)) = x) \<Longrightarrow> map f (map h (enumerate n xs)) = xs"
  by (induction xs arbitrary: n) simp_all

lemma filter_enumerated: "(\<And>k x. g (h (k, x)) = i) \<Longrightarrow> filter (\<lambda>r. g r = i) (map h (enumerate n xs)) = map h (enumerate n xs)"
  by (induction xs arbitrary: n) simp_all

lemma stored_errors:
  "sort_key ve_index (validationErrorRows i out) = validationErrorRows i out"
  "filter (\<lambda>x. ve_submission x = i) (validationErrorRows i out) = validationErrorRows i out"
  by (cases out; simp add: validationErrorRows_def sort_enumerated filter_enumerated)+

lemma parse_stored_errors:
  assumes "out \<noteq> ValidationFailed []"
  shows "parseValidationOutcome (validationErrorRows i out) = out"
proof (cases out)
  case (ValidationFailed errors)
  have "map (\<lambda>v. \<lparr>er_path = ve_path v, er_message = ve_message v\<rparr>) (validationErrorRows i out) = errors"
    unfolding validationErrorRows_def ValidationFailed ValidationOutcome.case by (rule read_enumerated) simp
  with assms ValidationFailed show ?thesis by (auto simp: parseValidationOutcome_def)
qed (simp add: validationErrorRows_def parseValidationOutcome_def)

lemma stored_sensitive:
  "sort_key sv_index (sensitiveFieldRows i sf) = sensitiveFieldRows i sf"
  "filter (\<lambda>x. sv_submission x = i) (sensitiveFieldRows i sf) = sensitiveFieldRows i sf"
  by (simp_all add: sensitiveFieldRows_def sort_enumerated filter_enumerated)

lemma parse_stored_sensitive:
  "\<forall>x \<in> set sf. sf_state x = ''active'' \<and> sf_redacted_at x = '''' \<Longrightarrow> parseSensitiveFields (sensitiveFieldRows i sf) = sf"
  unfolding parseSensitiveFields_def sensitiveFieldRows_def by (rule read_enumerated) simp

lemma stored_attachments:
  "sort_key at_index (attachmentRows i as) = attachmentRows i as"
  "filter (\<lambda>x. at_owner x = i) (attachmentRows i as) = attachmentRows i as"
  by (simp_all add: attachmentRows_def sort_enumerated filter_enumerated)

lemma parse_stored_attachments:
  assumes "\<forall>a \<in> set as. valid_attachment a"
  shows "parseStoredAttachments (attachmentRows i as) = Inr as"
proof -
  have "parseStoredAttachments (map (\<lambda>(index, value). \<lparr>at_owner = i, at_index = index, at_filename = att_name value,
      at_content_type = att_content_type value, at_content = att_content value\<rparr>) (enumerate n as)) = Inr as" for n
    using assms by (induction as arbitrary: n) (simp_all add: attachment_roundtrip)
  then show ?thesis by (simp add: attachmentRows_def)
qed

lemma filter_unowned: "i \<notin> A \<Longrightarrow> f ` set rows \<subseteq> A \<Longrightarrow> filter (\<lambda>r. f r = i) rows = []"
  by (auto simp: filter_empty_conv)

lemma selectSubmission_filed:
  assumes ok: "attached_ok d" and i: "i \<notin> sb_id ` set (submissions d)"
    and d': "books d' = filed i ri h c st out sf now response (books d)"
  shows "selectSubmission d' (submissionColumns i c st now response) u =
    \<lparr>ss_row = submissionColumns i c st now response, ss_name = userDisplayNameSQL (us_display_name u) (us_email u),
     ss_errors = validationErrorRows i out, ss_sensitive = sensitiveFieldRows i sf,
     ss_attachments = attachmentRows i (sc_attachments c)\<rparr>"
proof -
  have "submission_validation_errors d' = submission_validation_errors d @ validationErrorRows i out"
    "submission_sensitive_fields d' = submission_sensitive_fields d @ sensitiveFieldRows i sf"
    "submission_attachments d' = submission_attachments d @ attachmentRows i (sc_attachments c)"
    using arg_cong [OF d', of submission_validation_errors] arg_cong [OF d', of submission_sensitive_fields]
      arg_cong [OF d', of submission_attachments] by (simp_all add: filed_def)
  moreover have "filter (\<lambda>r. ve_submission r = i) (submission_validation_errors d) = []"
    "filter (\<lambda>r. sv_submission r = i) (submission_sensitive_fields d) = []"
    "filter (\<lambda>r. at_owner r = i) (submission_attachments d) = []"
    using ok by (auto intro!: filter_unowned [OF i] simp: attached_ok_def)
  ultimately show ?thesis
    by (simp add: selectSubmission_def submissionColumns_def stored_errors stored_sensitive stored_attachments)
qed

lemma receipt_selects:
  assumes ok: "attached_ok d" "ids_ok d" and i: "i \<notin> sb_id ` set (submissions d)" and h: "h \<notin> rt_hash ` set (submission_receipt_tokens d)"
    and d': "books d' = filed i ri h c st out sf now response (books d)"
  shows "submissionsOfReceipt h d' = [submissionColumns i c st now response]"
proof -
  let ?tok = "\<lparr>rt_id = ri, rt_submission = i, rt_hash = h\<rparr>"
  have tabs: "submissions d' = submissions d @ [submissionColumns i c st now response]"
    "submission_receipt_tokens d' = submission_receipt_tokens d @ [?tok]"
    using arg_cong [OF d', of submissions] arg_cong [OF d', of submission_receipt_tokens] by (simp_all add: filed_def)
  have "filter (\<lambda>t. rt_submission t = j \<and> rt_hash t = h) (submission_receipt_tokens d') = (if j = i then [?tok] else [])" for j
    using h by (auto simp: tabs filter_empty_conv)
  moreover have "concat (map (\<lambda>s. map (\<lambda>_. s) (if sb_id s = i then [?tok] else [])) rows) = []"
    if "i \<notin> sb_id ` set rows" for rows
    using that by (induction rows) auto
  ultimately show ?thesis
    using i by (simp add: submissionsOfReceipt_def tabs(1)) (auto simp: submissionColumns_def)
qed


lemma filter_key: "\<lbrakk>distinct (map f rows); rowWhere (\<lambda>r. f r = k) rows = Some r\<rbrakk> \<Longrightarrow> filter (\<lambda>r. f r = k) rows = [r]"
proof (induction rows)
  case (Cons x rows)
  then show ?case by (auto simp: filter_empty_conv split: if_splits) (metis imageI)
qed simp

lemma run_scan_one:
  assumes "fault e = (\<lambda>_. False)" "rows s = [r]" "\<And>n. \<exists>n'. parse r e n s = (Cont v, n', s)"
  shows "\<exists>n'. scanT a b c rows parse e n s = (Cont [v], n', s)"
proof -
  obtain n' where "parse r e (Suc (Suc n)) s = (Cont v, n', s)" using assms(3) by blast
  with assms(1,2) show ?thesis by (simp add: scanT_def run_rules)
qed

lemma run_parseSubmissionRow:
  assumes "quiet e" "NewResponseSource (sb_response (ss_row x)) = Inr source" "sb_note (ss_row x) = None"
    "parseStoredAttachments (ss_attachments x) = Inr as" "NewDisplayName (ss_name x) = Inr name"
  shows "\<exists>n'. parseSubmissionRow x e n s = (Cont \<lparr>sm_id = sb_id (ss_row x), sm_task = sb_task (ss_row x),
     sm_submitter = sb_user (ss_row x), sm_display_name = name, sm_state = sb_state (ss_row x), sm_response = source,
     sm_attachments = as, sm_validation = parseValidationOutcome (ss_errors x),
     sm_sensitive_fields = parseSensitiveFields (ss_sensitive x), sm_review_note = [],
     sm_created_at = wholeSeconds (sb_created_at (ss_row x))\<rparr>, n', s)"
proof -
  have "parseT p raw e n s = (Cont raw, Suc n, s)" if "p = ParseSubmissionID \<or> p = ParseTaskID \<or> p = ParseUserID" for p raw n
    using assms(1) that by (intro run_parse) (auto simp: val_simps quiet_def)
  then show ?thesis
    using assms(2-5) by (simp add: parseSubmissionRow_def run_rules NewStoredReviewNote_def)
qed

lemma submissionColumns_sel:
  "sb_id (submissionColumns i c st now response) = i" "sb_task (submissionColumns i c st now response) = sc_task c"
  "sb_user (submissionColumns i c st now response) = sc_submitter c" "sb_state (submissionColumns i c st now response) = st"
  "sb_note (submissionColumns i c st now response) = None" "sb_response (submissionColumns i c st now response) = response"
  "sb_created_at (submissionColumns i c st now response) = now"
  by (simp_all add: submissionColumns_def)

lemma receipt_found:
  assumes run: "CreateSubmission i ri h c st out sf e n d = (CreateSubmissionStoreAccepted v, n', d')"
    and ok: "attached_ok d" "ids_ok d" and files: "fileable c out sf" and quiet: "quiet e"
    and json: "jsonb_text e (sc_response c) = Some response" "NewResponseSource response = Inr response"
  shows "fst (FindByReceiptToken h e k d') = Inr (v\<lparr>sm_response := response\<rparr>)"
proof -
  obtain m name where name: "nameOf (sc_submitter c) d = Some (Inr name)"
    and i: "i \<notin> sb_id ` set (submissions d)" and h: "h \<notin> rt_hash ` set (submission_receipt_tokens d)"
    and d': "books d' = filed i ri h c st out sf (clock e m) response (books d)"
    and v: "v = filedSubmission i c st out sf (clock e m) name"
    using CreateSubmission_filed [OF run] json(1) by (metis option.inject)
  obtain u where u: "rowWhere (\<lambda>r. us_id r = sc_submitter c) (users d) = Some u"
    and n: "NewDisplayName (userDisplayNameSQL (us_display_name u) (us_email u)) = Inr name"
    using name by (auto simp: nameOf_def)
  have "users d' = users d" using arg_cong [OF d', of users] by (simp add: filed_def)
  then have "filter (\<lambda>r. us_id r = sc_submitter c) (users d') = [u]"
    using u ok(1) by (simp add: filter_key attached_ok_def)
  then have rows: "selectSubmissions (submissionsOfReceipt h d') d' = [selectSubmission d' (submissionColumns i c st (clock e m) response) u]"
    unfolding receipt_selects [OF ok i h d'] selectSubmissions_def by (simp add: submissionColumns_def)
  have parse: "\<exists>n'. parseSubmissionRow (selectSubmission d' (submissionColumns i c st (clock e m) response) u) e n0 d' =
      (Cont (v\<lparr>sm_response := response\<rparr>), n', d')" for n0
    using run_parseSubmissionRow [OF quiet, of "selectSubmission d' (submissionColumns i c st (clock e m) response) u"
        response "sc_attachments c" name n0 d'] files json(2) n
    by (simp add: selectSubmission_filed [OF ok(1) i d'] fileable_def v filedSubmission_def submissionColumns_sel
        parse_stored_attachments parse_stored_errors parse_stored_sensitive)
  from quiet have "fault e = (\<lambda>_. False)" by (simp add: quiet_def)
  from run_scan_one [where rows = "\<lambda>d. selectSubmissions (submissionsOfReceipt h d) d" and parse = parseSubmissionRow, OF this rows parse]
  obtain n'' where "scanSubmissionRows ''find submission receipt failed''
      (\<lambda>d. selectSubmissions (submissionsOfReceipt h d) d) e k d' = (Cont [v\<lparr>sm_response := response\<rparr>], n'', d')"
    unfolding scanSubmissionRows_def by blast
  then show ?thesis by (simp add: FindByReceiptToken_def readN_def run_rules)
qed

end
