(* ===== verification/SchemaParser.thy ===== *)
theory SchemaParser
  imports Schema
begin

text \<open>
  \<open>internal/schema/parser.go\<close>: reading a schema from its JSON document.  Decoding one
  level of the document into the transfer structs is \<open>json.Unmarshal\<close>, the argument
  \<open>unmarshal\<close> (it returns no value where the library returns an error); the walk over the
  levels, its checks and its depth bound are the code's.
\<close>

section \<open>Transfer structs\<close>

type_synonym RawMessage = string

record sensitivityDTO =
  dtoCategory :: string
  dtoRetention :: string
  dtoRedaction :: string

record fieldDTO =
  dtoName :: string
  dtoPresence :: string
  dtoSchema :: RawMessage
  dtoFieldSensitivity :: sensitivityDTO

record schemaDTO =
  dtoKind :: string
  dtoFields :: "fieldDTO list"
  dtoItem :: RawMessage
  dtoValues :: "string list"
  dtoValue :: string
  dtoVariants :: "RawMessage list"
  dtoSensitivity :: sensitivityDTO

definition maxNestingDepth :: nat where "maxNestingDepth = 64"

section \<open>Parsing\<close>

definition parseSensitivity :: "sensitivityDTO \<Rightarrow> Sensitivity result" where
  "parseSensitivity dto =
     (if dtoCategory dto = '''' \<and> dtoRetention dto = '''' \<and> dtoRedaction dto = '''' then Inr NotSensitive
      else case ParseSensitivityCategory (dtoCategory dto) of
        Inl reason \<Rightarrow> Inl reason
      | Inr category \<Rightarrow> (case ParseRetentionPolicy (dtoRetention dto) of
          Inl reason \<Rightarrow> Inl reason
        | Inr retention \<Rightarrow> (case ParseRedactionPolicy (dtoRedaction dto) of
            Inl reason \<Rightarrow> Inl reason
          | Inr redaction \<Rightarrow> Inr (Sensitive category retention redaction))))"

definition parseStringSchema :: "schemaDTO \<Rightarrow> Schema result" where
  "parseStringSchema dto = (case parseSensitivity (dtoSensitivity dto) of
     Inl reason \<Rightarrow> Inl reason | Inr sens \<Rightarrow> Inr (StringSchema sens))"

definition parseEnumSchema :: "schemaDTO \<Rightarrow> Schema result" where
  "parseEnumSchema dto =
     (if length (dtoValues dto) = 0 then Inl (NewDomainError ErrorCodeInvalidArgument ''enum schema requires values'')
      else Inr (EnumSchema (dtoValues dto)))"

text \<open>The depth bound is what makes the walk end, whatever the decoder returns.\<close>

definition descent :: "nat \<Rightarrow> nat" where
  "descent depth = (if depth > maxNestingDepth then 0 else 2 * (Suc maxNestingDepth - depth))"

definition parse_rank :: "((RawMessage \<Rightarrow> schemaDTO option) \<times> RawMessage \<times> nat) + ((RawMessage \<Rightarrow> schemaDTO option) \<times> fieldDTO list \<times> nat)
    + ((RawMessage \<Rightarrow> schemaDTO option) \<times> RawMessage list \<times> nat) \<Rightarrow> nat \<times> nat" where
  "parse_rank = (\<lambda>call. case call of
     Inl (unmarshal, raw, depth) \<Rightarrow> (descent depth, 0)
   | Inr (Inl (unmarshal, dtos, depth)) \<Rightarrow> (Suc (descent (Suc depth)), length dtos)
   | Inr (Inr (unmarshal, raws, depth)) \<Rightarrow> (Suc (descent (Suc depth)), length raws))"

text \<open>
  The loops of \<open>parseObjectSchema\<close> and \<open>parseUnionSchema\<close> are \<open>parseFields\<close> and
  \<open>parseVariants\<close>.
\<close>

function parseSchemaRaw :: "(RawMessage \<Rightarrow> schemaDTO option) \<Rightarrow> RawMessage \<Rightarrow> nat \<Rightarrow> Schema result"
  and parseFields :: "(RawMessage \<Rightarrow> schemaDTO option) \<Rightarrow> fieldDTO list \<Rightarrow> nat \<Rightarrow> ObjectField list result"
  and parseVariants :: "(RawMessage \<Rightarrow> schemaDTO option) \<Rightarrow> RawMessage list \<Rightarrow> nat \<Rightarrow> Schema list result" where
  "parseSchemaRaw unmarshal raw depth =
     (if depth > maxNestingDepth
      then Inl (NewDomainError ErrorCodeInvalidArgument ''schema nesting is too deep'')
      else case unmarshal raw of
        None \<Rightarrow> Inl (NewDomainError ErrorCodeInvalidArgument ''schema JSON is invalid'')
      | Some dto \<Rightarrow>
          if dtoKind dto = ''object'' then
            (case parseFields unmarshal (dtoFields dto) depth of
               Inl reason \<Rightarrow> Inl reason | Inr fs \<Rightarrow> Inr (ObjectSchema fs))
          else if dtoKind dto = ''array'' then
            (case parseSchemaRaw unmarshal (dtoItem dto) (Suc depth) of
               Inl reason \<Rightarrow> Inl reason | Inr item \<Rightarrow> Inr (ArraySchema item))
          else if dtoKind dto = ''string'' then parseStringSchema dto
          else if dtoKind dto = ''integer'' then Inr IntegerSchema
          else if dtoKind dto = ''decimal_string'' then Inr DecimalStringSchema
          else if dtoKind dto = ''enum'' then parseEnumSchema dto
          else if dtoKind dto = ''literal'' then Inr (LiteralSchema (dtoValue dto))
          else if dtoKind dto = ''union'' then
            (if length (dtoVariants dto) = 0
             then Inl (NewDomainError ErrorCodeInvalidArgument ''union schema requires variants'')
             else case parseVariants unmarshal (dtoVariants dto) depth of
               Inl reason \<Rightarrow> Inl reason | Inr variants \<Rightarrow> Inr (UnionSchema variants))
          else if dtoKind dto = ''freeform'' then Inr FreeformSchema
          else Inl (NewDomainError ErrorCodeInvalidEnum ''schema kind is unsupported''))"
| "parseFields unmarshal [] depth = Inr []"
| "parseFields unmarshal (field # rest) depth =
     (case NewFieldName (dtoName field) of
        Inl reason \<Rightarrow> Inl reason
      | Inr name \<Rightarrow> (case ParseFieldPresence (dtoPresence field) of
          Inl reason \<Rightarrow> Inl reason
        | Inr presence \<Rightarrow> (case parseSchemaRaw unmarshal (dtoSchema field) (Suc depth) of
            Inl reason \<Rightarrow> Inl reason
          | Inr s \<Rightarrow> (case parseSensitivity (dtoFieldSensitivity field) of
              Inl reason \<Rightarrow> Inl reason
            | Inr sens \<Rightarrow> (case parseFields unmarshal rest depth of
                Inl reason \<Rightarrow> Inl reason
              | Inr fs \<Rightarrow> Inr (ObjectField name presence s sens # fs))))))"
| "parseVariants unmarshal [] depth = Inr []"
| "parseVariants unmarshal (raw # rest) depth =
     (case parseSchemaRaw unmarshal raw (Suc depth) of
        Inl reason \<Rightarrow> Inl reason
      | Inr variant \<Rightarrow> (case parseVariants unmarshal rest depth of
          Inl reason \<Rightarrow> Inl reason | Inr variants \<Rightarrow> Inr (variant # variants)))"
  by pat_completeness auto

termination
  by (relation "inv_image (less_than <*lex*> less_than) parse_rank")
     (auto simp: parse_rank_def descent_def maxNestingDepth_def)

definition ParseSchemaJSON :: "(RawMessage \<Rightarrow> schemaDTO option) \<Rightarrow> RawMessage \<Rightarrow> Schema result" where
  "ParseSchemaJSON unmarshal raw = parseSchemaRaw unmarshal raw 0"

section \<open>What a parsed schema satisfies\<close>

primrec schema_depth :: "Schema \<Rightarrow> nat" and field_depth :: "ObjectField \<Rightarrow> nat" where
  "schema_depth (ObjectSchema fs) = Max (set (0 # map (Suc \<circ> field_depth) fs))"
| "schema_depth (ArraySchema item) = Suc (schema_depth item)"
| "schema_depth (StringSchema sens) = 0"
| "schema_depth IntegerSchema = 0"
| "schema_depth DecimalStringSchema = 0"
| "schema_depth (EnumSchema allowed) = 0"
| "schema_depth (LiteralSchema lit) = 0"
| "schema_depth (UnionSchema variants) = Max (set (0 # map (Suc \<circ> schema_depth) variants))"
| "schema_depth FreeformSchema = 0"
| "field_depth (ObjectField name presence s sens) = schema_depth s"

primrec schema_ok :: "Schema \<Rightarrow> bool" and field_ok :: "ObjectField \<Rightarrow> bool" where
  "schema_ok (ObjectSchema fs) \<longleftrightarrow> list_all id (map field_ok fs)"
| "schema_ok (ArraySchema item) \<longleftrightarrow> schema_ok item"
| "schema_ok (StringSchema sens) \<longleftrightarrow> True"
| "schema_ok IntegerSchema \<longleftrightarrow> True"
| "schema_ok DecimalStringSchema \<longleftrightarrow> True"
| "schema_ok (EnumSchema allowed) \<longleftrightarrow> allowed \<noteq> []"
| "schema_ok (LiteralSchema lit) \<longleftrightarrow> True"
| "schema_ok (UnionSchema variants) \<longleftrightarrow> variants \<noteq> [] \<and> list_all id (map schema_ok variants)"
| "schema_ok FreeformSchema \<longleftrightarrow> True"
| "field_ok (ObjectField name presence s sens) \<longleftrightarrow> name \<noteq> '''' \<and> schema_ok s"

declare parseSchemaRaw.simps [simp del]

lemmas parse_helpers = parseStringSchema_def parseEnumSchema_def NewFieldName_def Let_def

text \<open>A parsed schema has its children parsed one level deeper; every other schema is a leaf.\<close>

lemma parseSchemaRaw_cases:
  assumes "parseSchemaRaw unmarshal raw depth = Inr s"
  obtains (object) dto fs where "depth \<le> maxNestingDepth" "unmarshal raw = Some dto" "dtoKind dto = ''object''"
      "parseFields unmarshal (dtoFields dto) depth = Inr fs" "s = ObjectSchema fs"
  | (array) dto item where "depth \<le> maxNestingDepth" "unmarshal raw = Some dto" "dtoKind dto = ''array''"
      "parseSchemaRaw unmarshal (dtoItem dto) (Suc depth) = Inr item" "s = ArraySchema item"
  | (union) dto variants where "depth \<le> maxNestingDepth" "unmarshal raw = Some dto" "dtoKind dto = ''union''"
      "dtoVariants dto \<noteq> []" "parseVariants unmarshal (dtoVariants dto) depth = Inr variants" "s = UnionSchema variants"
  | (leaf) "depth \<le> maxNestingDepth" "schema_ok s" "schema_depth s = 0"
proof (cases "unmarshal raw")
  case None
  then show ?thesis using assms by (simp add: parseSchemaRaw.simps split: if_splits)
next
  case (Some dto)
  then show ?thesis
    using assms that by (simp add: parseSchemaRaw.simps parse_helpers split: if_splits sum.splits) auto
qed

lemma depth_of_children:
  "\<lbrakk>d \<le> m; list_all (\<lambda>x. d + Suc (g x) \<le> m) xs\<rbrakk> \<Longrightarrow> d + Max (set (0 # map (Suc \<circ> g) xs)) \<le> m"
  using Max_in [of "set (0 # map (Suc \<circ> g) xs)"] by (fastforce simp: list_all_iff)

lemma parse_well_formed:
  "parseSchemaRaw unmarshal raw depth = Inr s \<Longrightarrow> schema_ok s \<and> depth + schema_depth s \<le> maxNestingDepth"
  "depth \<le> maxNestingDepth \<Longrightarrow> parseFields unmarshal dtos depth = Inr fs
     \<Longrightarrow> list_all field_ok fs \<and> list_all (\<lambda>f. depth + Suc (field_depth f) \<le> maxNestingDepth) fs"
  "depth \<le> maxNestingDepth \<Longrightarrow> parseVariants unmarshal raws depth = Inr variants
     \<Longrightarrow> list_all schema_ok variants \<and> list_all (\<lambda>v. depth + Suc (schema_depth v) \<le> maxNestingDepth) variants
       \<and> length variants = length raws"
proof (induction unmarshal raw depth and unmarshal dtos depth and unmarshal raws depth arbitrary: s and fs and variants
    rule: parseSchemaRaw_parseFields_parseVariants.induct)
  case (1 unmarshal raw depth)
  from "1.prems" show ?case
  proof (cases rule: parseSchemaRaw_cases)
    case (object dto fs)
    then show ?thesis
      using "1.IH"(1) [OF _ object(2,3,1,4)] depth_of_children [of depth maxNestingDepth field_depth fs]
      by (simp add: list_all_length)
  next
    case (array dto item)
    then show ?thesis
      using "1.IH"(2) [OF _ array(2) _ array(3,4)] by simp
  next
    case (union dto variants)
    then show ?thesis
      using "1.IH"(3) [OF _ union(2) _ _ _ _ _ _ _ union(3) _ union(1,5)]
        depth_of_children [of depth maxNestingDepth schema_depth variants]
      by (auto simp: list_all_length)
  qed simp
next
  case (3 unmarshal field rest depth)
  then show ?case
    by (auto simp: parse_helpers split: sum.splits if_splits)
next
  case (5 unmarshal raw rest depth)
  then show ?case
    by (auto split: sum.splits)
qed auto

end
