(* ===== verification/JsonValues.thy ===== *)
theory JsonValues
  imports JsonText SchemaParser
begin

text \<open>
  \<open>internal/schema/value.go\<close> and \<open>encode.go\<close>: reading a response from its JSON text through the
  token interface of \<open>json.Decoder\<close>, and writing it back.
\<close>

section \<open>The token decoder\<close>

datatype TokenState =
    tokenTopValue
  | tokenArrayStart
  | tokenArrayValue
  | tokenArrayComma
  | tokenObjectStart
  | tokenObjectKey
  | tokenObjectColon
  | tokenObjectValue
  | tokenObjectComma

datatype JsonToken =
    Delim char
  | StringToken string
  | NumberToken string
  | BoolToken bool
  | NilToken

record decoder =
  dc_rest :: string
  dc_state :: TokenState
  dc_stack :: "TokenState list"

definition isSpace :: "char \<Rightarrow> bool" where
  "isSpace c \<longleftrightarrow> code c = 0x20 \<or> code c = 0x09 \<or> code c = 0x0D \<or> code c = 0x0A"

definition skip :: "decoder \<Rightarrow> decoder" where
  "skip dec = dec\<lparr>dc_rest := dropWhile isSpace (dc_rest dec)\<rparr>"

definition More :: "decoder \<Rightarrow> bool" where
  "More dec = (case dropWhile isSpace (dc_rest dec) of [] \<Rightarrow> False | c # _ \<Rightarrow> c \<noteq> CHR '']'' \<and> c \<noteq> CHR ''}'')"

definition tokenValueAllowed :: "TokenState \<Rightarrow> bool" where
  "tokenValueAllowed s \<longleftrightarrow> s \<in> {tokenTopValue, tokenArrayStart, tokenArrayValue, tokenObjectValue}"

fun tokenValueEnd :: "TokenState \<Rightarrow> TokenState" where
  "tokenValueEnd tokenArrayStart = tokenArrayComma"
| "tokenValueEnd tokenArrayValue = tokenArrayComma"
| "tokenValueEnd tokenObjectValue = tokenObjectComma"
| "tokenValueEnd s = s"

text \<open>A scalar at the head of the text: \<open>Decode\<close> with \<open>UseNumber\<close>.\<close>

definition literal :: "string \<Rightarrow> JsonToken \<Rightarrow> string \<Rightarrow> (JsonToken \<times> string) option" where
  "literal w tok s = (if take (length w) s = w then Some (tok, drop (length w) s) else None)"

definition decodeScalar :: "string \<Rightarrow> (JsonToken \<times> string) option" where
  "decodeScalar s = (case s of
     [] \<Rightarrow> None
   | c # cs \<Rightarrow>
       if c = quote then map_option (\<lambda>(v, rest). (StringToken v, rest)) (readString cs)
       else if c = CHR ''-'' \<or> is_digit c then map_option (\<lambda>(v, rest). (NumberToken v, rest)) (scanNumber s)
       else if c = CHR ''t'' then literal ''true'' (BoolToken True) s
       else if c = CHR ''f'' then literal ''false'' (BoolToken False) s
       else if c = CHR ''n'' then literal ''null'' NilToken s
       else None)"

text \<open>
  \<open>Decoder.Token\<close>; \<open>None\<close> is an error.  Commas and colons are consumed on the way to the next
  token.  A closing bracket is only read inside its opening, so the stack is not empty.
\<close>

function (sequential) Token :: "decoder \<Rightarrow> (JsonToken \<times> decoder) option" where
  "Token dec = (case dropWhile isSpace (dc_rest dec) of
     [] \<Rightarrow> None
   | c # cs \<Rightarrow>
       if c = CHR ''['' \<or> c = CHR ''{'' then
         (if \<not> tokenValueAllowed (dc_state dec) then None
          else Some (Delim c, \<lparr>dc_rest = cs, dc_state = (if c = CHR ''['' then tokenArrayStart else tokenObjectStart),
                              dc_stack = dc_state dec # dc_stack dec\<rparr>))
       else if c = CHR '']'' \<or> c = CHR ''}'' then
         (if dc_state dec \<notin> (if c = CHR '']'' then {tokenArrayStart, tokenArrayComma} else {tokenObjectStart, tokenObjectComma})
          then None
          else (case dc_stack dec of
                  [] \<Rightarrow> None
                | outer # stack \<Rightarrow> Some (Delim c, \<lparr>dc_rest = cs, dc_state = tokenValueEnd outer, dc_stack = stack\<rparr>)))
       else if c = CHR '':'' then
         (if dc_state dec \<noteq> tokenObjectColon then None
          else Token (dec\<lparr>dc_rest := cs, dc_state := tokenObjectValue\<rparr>))
       else if c = CHR '','' then
         (if dc_state dec = tokenArrayComma then Token (dec\<lparr>dc_rest := cs, dc_state := tokenArrayValue\<rparr>)
          else if dc_state dec = tokenObjectComma then Token (dec\<lparr>dc_rest := cs, dc_state := tokenObjectKey\<rparr>)
          else None)
       else if c = quote \<and> dc_state dec \<in> {tokenObjectStart, tokenObjectKey} then
         map_option (\<lambda>(v, rest). (StringToken v, dec\<lparr>dc_rest := rest, dc_state := tokenObjectColon\<rparr>)) (readString cs)
       else if \<not> tokenValueAllowed (dc_state dec) then None
       else map_option (\<lambda>(tok, rest). (tok, dec\<lparr>dc_rest := rest, dc_state := tokenValueEnd (dc_state dec)\<rparr>))
              (decodeScalar (c # cs)))"
  by auto
termination
proof (relation "measure (\<lambda>dec. length (dc_rest dec))")
  fix dec :: decoder and c cs
  assume "dropWhile isSpace (dc_rest dec) = c # cs"
  then have "length cs < length (dc_rest dec)"
    using length_dropWhile_le [of isSpace "dc_rest dec"] by simp
  then show "(dec\<lparr>dc_rest := cs, dc_state := tokenObjectValue\<rparr>, dec) \<in> measure (\<lambda>dec. length (dc_rest dec))"
    "(dec\<lparr>dc_rest := cs, dc_state := tokenArrayValue\<rparr>, dec) \<in> measure (\<lambda>dec. length (dc_rest dec))"
    "(dec\<lparr>dc_rest := cs, dc_state := tokenObjectKey\<rparr>, dec) \<in> measure (\<lambda>dec. length (dc_rest dec))"
    by simp_all
qed simp

declare Token.simps [simp del]

section \<open>Reading a response\<close>

definition maxArrayItems :: nat where "maxArrayItems = 4096"
definition maxObjectFields :: nat where "maxObjectFields = 1024"

abbreviation badResponse :: "string \<Rightarrow> DomainError" where
  "badResponse \<equiv> NewDomainError ErrorCodeInvalidArgument"

definition parseJSONNumber :: "string \<Rightarrow> Value result" where
  "parseJSONNumber number = (case parseInt number of
     Some i \<Rightarrow> Inr (IntegerValue i)
   | None \<Rightarrow> if ParseFloat_ok number then Inr (DecimalStringValue number) else Inl (badResponse ''number is invalid''))"

definition value_rank :: "(decoder \<times> nat) + (decoder \<times> nat \<times> (FieldName \<times> Value) list) + (decoder \<times> nat \<times> Value list) \<Rightarrow> nat \<times> nat" where
  "value_rank = (\<lambda>call. case call of
     Inl (dec, depth) \<Rightarrow> (descent depth, 0)
   | Inr (Inl (dec, depth, acc)) \<Rightarrow> (Suc (descent (Suc depth)), Suc maxObjectFields - length acc)
   | Inr (Inr (dec, depth, acc)) \<Rightarrow> (Suc (descent (Suc depth)), Suc maxArrayItems - length acc))"

text \<open>
  The depth bound and the width bounds are what makes the reading end.  The loops carry the
  fields and items read so far; the decoder is passed along as it is mutated.
\<close>

function parseDecoderValue :: "decoder \<Rightarrow> nat \<Rightarrow> (Value \<times> decoder) result"
  and parseObjectValue :: "decoder \<Rightarrow> nat \<Rightarrow> (FieldName \<times> Value) list \<Rightarrow> (Value \<times> decoder) result"
  and parseArrayValue :: "decoder \<Rightarrow> nat \<Rightarrow> Value list \<Rightarrow> (Value \<times> decoder) result" where
  "parseDecoderValue dec depth =
     (if depth > maxNestingDepth then Inl (badResponse ''response JSON nesting is too deep'')
      else case Token dec of
        None \<Rightarrow> Inl (badResponse ''response JSON is invalid'')
      | Some (tok, dec') \<Rightarrow> (case tok of
          Delim c \<Rightarrow>
            if c = CHR ''{'' then parseObjectValue dec' depth []
            else if c = CHR ''['' then parseArrayValue dec' depth []
            else Inl (badResponse ''response JSON delimiter is unsupported'')
        | StringToken s \<Rightarrow> Inr (StringValue s, dec')
        | NumberToken s \<Rightarrow> (case parseJSONNumber s of Inl reason \<Rightarrow> Inl reason | Inr v \<Rightarrow> Inr (v, dec'))
        | NilToken \<Rightarrow> Inr (NullValue, dec')
        | BoolToken b \<Rightarrow> Inl (badResponse ''response JSON token is unsupported'')))"
| "parseObjectValue dec depth acc =
     (if More dec then
        (if length acc \<ge> maxObjectFields then Inl (badResponse ''object has too many fields'')
         else case Token dec of
           Some (StringToken rawName, dec1) \<Rightarrow>
             (case NewFieldName rawName of
                Inl reason \<Rightarrow> Inl reason
              | Inr name \<Rightarrow> (case parseDecoderValue dec1 (Suc depth) of
                  Inl reason \<Rightarrow> Inl reason
                | Inr (v, dec2) \<Rightarrow> parseObjectValue dec2 depth (acc @ [(name, v)])))
         | _ \<Rightarrow> Inl (badResponse ''object field name is invalid''))
      else case Token dec of
        None \<Rightarrow> Inl (badResponse ''object end is invalid'')
      | Some (tok, dec') \<Rightarrow>
          if tok \<noteq> Delim (CHR ''}'') then Inl (badResponse ''object end is invalid'')
          else Inr (ObjectValue acc, dec'))"
| "parseArrayValue dec depth acc =
     (if More dec then
        (if length acc \<ge> maxArrayItems then Inl (badResponse ''array has too many items'')
         else case parseDecoderValue dec (Suc depth) of
           Inl reason \<Rightarrow> Inl reason
         | Inr (v, dec') \<Rightarrow> parseArrayValue dec' depth (acc @ [v]))
      else case Token dec of
        None \<Rightarrow> Inl (badResponse ''array end is invalid'')
      | Some (tok, dec') \<Rightarrow>
          if tok \<noteq> Delim (CHR '']'') then Inl (badResponse ''array end is invalid'')
          else Inr (ArrayValue acc, dec'))"
  by pat_completeness auto
termination
  by (relation "inv_image (less_than <*lex*> less_than) value_rank")
     (auto simp: value_rank_def descent_def maxNestingDepth_def)

definition NewDecoder :: "string \<Rightarrow> decoder" where
  "NewDecoder raw = \<lparr>dc_rest = raw, dc_state = tokenTopValue, dc_stack = []\<rparr>"

definition ParseValueJSON :: "string \<Rightarrow> Value result" where
  "ParseValueJSON raw = (case parseDecoderValue (NewDecoder raw) 0 of
     Inl reason \<Rightarrow> Inl reason
   | Inr (v, dec) \<Rightarrow> if More dec then Inl (badResponse ''response JSON has trailing values'') else Inr v)"

section \<open>Writing a response\<close>

text \<open>
  \<open>json.Marshal\<close> does not fail on a string, and every value is of one of the six kinds, so
  encoding is total.
\<close>

fun commas :: "string list \<Rightarrow> string" where
  "commas [] = []"
| "commas [x] = x"
| "commas (x # xs) = x @ CHR '','' # commas xs"

primrec writeValueJSON :: "Value \<Rightarrow> string" where
  "writeValueJSON NullValue = ''null''"
| "writeValueJSON (StringValue s) = marshalString s"
| "writeValueJSON (IntegerValue i) = formatInt i"
| "writeValueJSON (DecimalStringValue s) = s"
| "writeValueJSON (ObjectValue fs) =
     CHR ''{'' # commas (map (\<lambda>(n, s). marshalString n @ CHR '':'' # s) (map (map_prod id writeValueJSON) fs)) @ ''}''"
| "writeValueJSON (ArrayValue items) = CHR ''['' # commas (map writeValueJSON items) @ '']''"

definition EncodeValueJSON :: "Value \<Rightarrow> string" where
  "EncodeValueJSON v = writeValueJSON v"

end
