(* ===== verification/JsonRoundtrip.thy ===== *)
theory JsonRoundtrip
  imports JsonValues
begin

text \<open>
  Reading back a written response: which responses survive their JSON text, and that every
  response read from a text does.
\<close>

section \<open>Portable responses\<close>

fun value_depth :: "Value \<Rightarrow> nat" where
  "value_depth (ObjectValue fs) = Max (set (0 # map (\<lambda>p. Suc (value_depth (snd p))) fs))"
| "value_depth (ArrayValue items) = Max (set (0 # map (\<lambda>x. Suc (value_depth x)) items))"
| "value_depth _ = 0"

definition number_ok :: "string \<Rightarrow> bool" where
  "number_ok s \<longleftrightarrow> scanNumber s = Some (s, []) \<and> parseInt s = None \<and> ParseFloat_ok s"

definition name_ok :: "string \<Rightarrow> bool" where
  "name_ok n \<longleftrightarrow> utf8 n \<and> n \<noteq> [] \<and> TrimSpace n = n"

fun portable :: "Value \<Rightarrow> bool" where
  "portable NullValue \<longleftrightarrow> True"
| "portable (StringValue s) \<longleftrightarrow> utf8 s"
| "portable (IntegerValue i) \<longleftrightarrow> int64 i"
| "portable (DecimalStringValue s) \<longleftrightarrow> number_ok s"
| "portable (ObjectValue fs) \<longleftrightarrow> length fs \<le> maxObjectFields \<and> (\<forall>p \<in> set fs. name_ok (fst p) \<and> portable (snd p))"
| "portable (ArrayValue items) \<longleftrightarrow> length items \<le> maxArrayItems \<and> (\<forall>x \<in> set items. portable x)"

section \<open>Tokens of a written response\<close>

abbreviation at :: "string \<Rightarrow> TokenState \<Rightarrow> TokenState list \<Rightarrow> decoder" where
  "at r s st \<equiv> \<lparr>dc_rest = r, dc_state = s, dc_stack = st\<rparr>"

lemma Token_open:
  "tokenValueAllowed s \<Longrightarrow> Token (at (CHR ''['' # r) s st) = Some (Delim (CHR ''[''), at r tokenArrayStart (s # st))"
  "tokenValueAllowed s \<Longrightarrow> Token (at (CHR ''{'' # r) s st) = Some (Delim (CHR ''{''), at r tokenObjectStart (s # st))"
  by (simp_all add: Token.simps isSpace_def)

lemma Token_close:
  "s \<in> {tokenArrayStart, tokenArrayComma} \<Longrightarrow>
     Token (at (CHR '']'' # r) s (outer # st)) = Some (Delim (CHR '']''), at r (tokenValueEnd outer) st)"
  "s \<in> {tokenObjectStart, tokenObjectComma} \<Longrightarrow>
     Token (at (CHR ''}'' # r) s (outer # st)) = Some (Delim (CHR ''}''), at r (tokenValueEnd outer) st)"
  by (auto simp: Token.simps isSpace_def)

lemma Token_separators:
  "Token (at (CHR '','' # r) tokenArrayComma st) = Token (at r tokenArrayValue st)"
  "Token (at (CHR '','' # r) tokenObjectComma st) = Token (at r tokenObjectKey st)"
  "Token (at (CHR '':'' # r) tokenObjectColon st) = Token (at r tokenObjectValue st)"
  by (subst Token.simps, simp add: isSpace_def)+

lemma Token_key:
  "utf8 n \<Longrightarrow> s \<in> {tokenObjectStart, tokenObjectKey} \<Longrightarrow>
     Token (at (marshalString n @ r) s st) = Some (StringToken n, at r tokenObjectColon st)"
  by (auto simp: Token.simps isSpace_def marshalString_def readString_marshal simp del: readString.simps)

definition scalar_head :: "char \<Rightarrow> bool" where
  "scalar_head c \<longleftrightarrow> \<not> isSpace c \<and> c \<notin> {CHR ''['', CHR ''{'', CHR '']'', CHR ''}'', CHR '':'', CHR '',''}"

lemma Token_scalar:
  assumes "decodeScalar (c # cs) = Some (tok, r)" "scalar_head c" "tokenValueAllowed s"
  shows "Token (at (c # cs) s st) = Some (tok, at r (tokenValueEnd s) st)"
proof -
  have "s \<notin> {tokenObjectStart, tokenObjectKey}" using assms(3) by (auto simp: tokenValueAllowed_def)
  then show ?thesis using assms by (simp add: Token.simps scalar_head_def)
qed

lemma scan_head: "scanNumber s = Some (a, b) \<Longrightarrow> \<exists>c cs. s = c # cs \<and> (c = CHR ''-'' \<or> is_digit c) \<and> scalar_head c"
  by (cases s) (auto simp: scanNumber_def scanSign_def scanInteger_def scalar_head_def isSpace_def is_digit_def
      split: option.splits if_splits)

lemma Token_number:
  assumes "scanNumber n = Some (n, [])" "stops t" "tokenValueAllowed s"
  shows "Token (at (n @ t) s st) = Some (NumberToken n, at t (tokenValueEnd s) st)"
proof -
  obtain c cs where n: "n = c # cs" "c = CHR ''-'' \<or> is_digit c" "scalar_head c" using scan_head [OF assms(1)] by blast
  have "decodeScalar (c # cs @ t) = Some (NumberToken n, t)"
    using scanNumber_append [OF assms(2,1)] n by (auto simp: decodeScalar_def is_digit_def)
  then show ?thesis using Token_scalar [OF _ n(3) assms(3)] n(1) by simp
qed

lemma Token_string:
  assumes "utf8 x" "tokenValueAllowed s"
  shows "Token (at (marshalString x @ t) s st) = Some (StringToken x, at t (tokenValueEnd s) st)"
  unfolding marshalString_def append_Cons
  by (rule Token_scalar [OF _ _ assms(2)])
     (simp_all add: decodeScalar_def readString_marshal [OF assms(1)] scalar_head_def isSpace_def del: readString.simps)

lemma Token_null: "tokenValueAllowed s \<Longrightarrow> Token (at (''null'' @ t) s st) = Some (NilToken, at t (tokenValueEnd s) st)"
  unfolding append_Cons
  by (rule Token_scalar) (simp_all add: decodeScalar_def literal_def scalar_head_def isSpace_def is_digit_def)

section \<open>Reading back\<close>

declare parseDecoderValue.simps [simp del] parseObjectValue.simps [simp del] parseArrayValue.simps [simp del]

text \<open>Reading a value only looks at the next token.\<close>

lemma parse_next: "Token dec = Token dec' \<Longrightarrow> parseDecoderValue dec depth = parseDecoderValue dec' depth"
  by (subst (1 2) parseDecoderValue.simps) simp

definition reads_back :: "Value \<Rightarrow> bool" where
  "reads_back v \<longleftrightarrow> (\<forall>depth s st t. depth + value_depth v \<le> maxNestingDepth \<longrightarrow> tokenValueAllowed s \<longrightarrow> stops t \<longrightarrow>
     parseDecoderValue (at (writeValueJSON v @ t) s st) depth = Inr (v, at t (tokenValueEnd s) st))"

lemma reads_backD:
  "\<lbrakk>reads_back v; depth + value_depth v \<le> maxNestingDepth; tokenValueAllowed s; stops t\<rbrakk>
     \<Longrightarrow> parseDecoderValue (at (writeValueJSON v @ t) s st) depth = Inr (v, at t (tokenValueEnd s) st)"
  by (simp add: reads_back_def)

definition rest_items :: "string list \<Rightarrow> string" where
  "rest_items xs = concat (map (\<lambda>x. CHR '','' # x) xs)"

lemma commas_Cons: "commas (x # xs) = x @ rest_items xs"
  by (induction xs arbitrary: x) (simp_all add: rest_items_def)

lemma rest_items_Cons: "rest_items (x # xs) = CHR '','' # x @ rest_items xs"
  by (simp add: rest_items_def)

lemma stops_rest: "stops (rest_items xs @ CHR '']'' # t)" "stops (rest_items xs @ CHR ''}'' # t)"
  by (cases xs; simp add: rest_items_def stops_def is_digit_def)+

lemma More_head:
  "More (at (CHR '','' # r) s st)"
  "\<not> More (at (CHR '']'' # r) s st)"
  "\<not> More (at (CHR ''}'' # r) s st)"
  "More (at (marshalString n @ r) s st)"
  by (simp_all add: More_def isSpace_def marshalString_def)

lemma More_number:
  assumes "scanNumber n = Some (a, b)"
  shows "More (at (n @ t) s st)"
proof -
  obtain c cs where "n = c # cs" "scalar_head c" using scan_head [OF assms] by blast
  then show ?thesis by (simp add: More_def scalar_head_def)
qed

lemma write_head: "portable v \<Longrightarrow> More (at (writeValueJSON v @ t) s st)"
proof (cases v)
  case (IntegerValue i)
  then show ?thesis using More_number [OF scanNumber_formatInt] by simp
next
  case (DecimalStringValue d)
  assume "portable v"
  then have "scanNumber d = Some (d, [])" using DecimalStringValue by (simp add: number_ok_def)
  then show ?thesis using More_number DecimalStringValue by simp
qed (simp_all add: More_def isSpace_def marshalString_def)

lemma array_back:
  assumes "\<forall>x \<in> set xs. reads_back x \<and> Suc depth + value_depth x \<le> maxNestingDepth" "length acc + length xs \<le> maxArrayItems"
  shows "parseArrayValue (at (rest_items (map writeValueJSON xs) @ CHR '']'' # t) tokenArrayComma (outer # st)) depth acc
     = Inr (ArrayValue (acc @ xs), at t (tokenValueEnd outer) st)"
  using assms
proof (induction xs arbitrary: acc)
  case Nil
  then show ?case by (simp add: parseArrayValue.simps rest_items_def More_head Token_close)
next
  case (Cons x xs)
  let ?r = "rest_items (map writeValueJSON xs) @ CHR '']'' # t"
  have "parseDecoderValue (at (CHR '','' # writeValueJSON x @ ?r) tokenArrayComma (outer # st)) (Suc depth)
      = parseDecoderValue (at (writeValueJSON x @ ?r) tokenArrayValue (outer # st)) (Suc depth)"
    by (intro parse_next Token_separators)
  also have "\<dots> = Inr (x, at ?r tokenArrayComma (outer # st))"
    using Cons.prems(1) by (subst reads_backD) (simp_all add: stops_rest tokenValueAllowed_def)
  finally show ?case
    using Cons.IH [of "acc @ [x]"] Cons.prems by (subst parseArrayValue.simps) (simp add: rest_items_Cons More_head)
qed

lemma field_back:
  assumes "reads_back v" "Suc depth + value_depth v \<le> maxNestingDepth" "stops r"
  shows "parseDecoderValue (at (CHR '':'' # writeValueJSON v @ r) tokenObjectColon st) (Suc depth)
     = Inr (v, at r tokenObjectComma st)"
proof -
  have "parseDecoderValue (at (CHR '':'' # writeValueJSON v @ r) tokenObjectColon st) (Suc depth)
      = parseDecoderValue (at (writeValueJSON v @ r) tokenObjectValue st) (Suc depth)"
    by (intro parse_next Token_separators)
  also have "\<dots> = Inr (v, at r tokenObjectComma st)"
    using assms by (subst reads_backD) (simp_all add: tokenValueAllowed_def)
  finally show ?thesis .
qed

definition writeField :: "FieldName \<times> Value \<Rightarrow> string" where
  "writeField p = marshalString (fst p) @ CHR '':'' # writeValueJSON (snd p)"

lemma write_object: "writeValueJSON (ObjectValue fs) = CHR ''{'' # commas (map writeField fs) @ ''}''"
  by (simp add: writeField_def [abs_def] comp_def case_prod_unfold)

lemma NewFieldName_ok: "name_ok n \<Longrightarrow> NewFieldName n = Inr n"
  by (simp add: name_ok_def NewFieldName_def)

lemma object_back:
  assumes "\<forall>p \<in> set xs. name_ok (fst p) \<and> reads_back (snd p) \<and> Suc depth + value_depth (snd p) \<le> maxNestingDepth"
    "length acc + length xs \<le> maxObjectFields"
  shows "parseObjectValue (at (rest_items (map writeField xs) @ CHR ''}'' # t) tokenObjectComma (outer # st)) depth acc
     = Inr (ObjectValue (acc @ xs), at t (tokenValueEnd outer) st)"
  using assms
proof (induction xs arbitrary: acc)
  case Nil
  then show ?case by (simp add: parseObjectValue.simps rest_items_def More_head Token_close)
next
  case (Cons p xs)
  let ?r = "rest_items (map writeField xs) @ CHR ''}'' # t"
  have n: "utf8 (fst p)" "NewFieldName (fst p) = Inr (fst p)"
    using Cons.prems(1) by (simp_all add: NewFieldName_ok) (simp add: name_ok_def)
  have "parseDecoderValue (at (CHR '':'' # writeValueJSON (snd p) @ ?r) tokenObjectColon (outer # st)) (Suc depth)
      = Inr (snd p, at ?r tokenObjectComma (outer # st))"
    using Cons.prems(1) by (intro field_back) (simp_all add: stops_rest)
  with n show ?case
    using Cons.IH [of "acc @ [p]"] Cons.prems
    by (subst parseObjectValue.simps) (simp add: rest_items_Cons More_head writeField_def [of p] Token_separators Token_key)
qed

lemma deeper: "x \<in> set xs \<Longrightarrow> Suc (g x) \<le> Max (set (0 # map (\<lambda>x. Suc (g x)) xs))"
  by (rule Max_ge) simp_all

lemma deep_children:
  assumes "depth + value_depth v \<le> maxNestingDepth"
  shows "v = ObjectValue fs \<Longrightarrow> p \<in> set fs \<Longrightarrow> Suc depth + value_depth (snd p) \<le> maxNestingDepth"
    "v = ArrayValue items \<Longrightarrow> x \<in> set items \<Longrightarrow> Suc depth + value_depth x \<le> maxNestingDepth"
proof -
  assume "v = ObjectValue fs" "p \<in> set fs"
  then have "Suc (value_depth (snd p)) \<le> value_depth v"
    using deeper [of p fs "\<lambda>p. value_depth (snd p)"] by (simp only: value_depth.simps)
  then show "Suc depth + value_depth (snd p) \<le> maxNestingDepth" using assms by linarith
next
  assume "v = ArrayValue items" "x \<in> set items"
  then have "Suc (value_depth x) \<le> value_depth v"
    using deeper [of x items value_depth] by (simp only: value_depth.simps)
  then show "Suc depth + value_depth x \<le> maxNestingDepth" using assms by linarith
qed

lemma scalar_back:
  "reads_back NullValue"
  "utf8 x \<Longrightarrow> reads_back (StringValue x)"
  "int64 i \<Longrightarrow> reads_back (IntegerValue i)"
  "number_ok d \<Longrightarrow> reads_back (DecimalStringValue d)"
proof -
  have "\<not> maxNestingDepth < depth" if "depth + value_depth v \<le> maxNestingDepth" for depth v using that by simp
  note simps = this reads_back_def parseDecoderValue.simps
  show "reads_back NullValue" using Token_null by (simp add: simps)
  show "utf8 x \<Longrightarrow> reads_back (StringValue x)" by (simp add: simps Token_string)
  show "int64 i \<Longrightarrow> reads_back (IntegerValue i)"
    by (simp add: simps Token_number scanNumber_formatInt parseJSONNumber_def)
  show "number_ok d \<Longrightarrow> reads_back (DecimalStringValue d)"
    by (simp add: simps Token_number parseJSONNumber_def number_ok_def)
qed

lemma portable_reads_back: "portable v \<Longrightarrow> reads_back v"
proof (induction v rule: portable.induct)
  case (5 fs)
  show ?case
    unfolding reads_back_def
  proof (intro allI impI)
    fix depth s st t
    assume *: "depth + value_depth (ObjectValue fs) \<le> maxNestingDepth" "tokenValueAllowed s" "stops t"
    have ch: "\<forall>p \<in> set fs. name_ok (fst p) \<and> reads_back (snd p) \<and> Suc depth + value_depth (snd p) \<le> maxNestingDepth"
      using 5 deep_children(1) [OF *(1) refl] by auto
    have "parseObjectValue (at (commas (map writeField fs) @ CHR ''}'' # t) tokenObjectStart (s # st)) depth []
      = Inr (ObjectValue fs, at t (tokenValueEnd s) st)"
    proof (cases fs)
      case Nil
      then show ?thesis by (simp add: parseObjectValue.simps More_head Token_close)
    next
      case (Cons p xs)
      have n: "utf8 (fst p)" "NewFieldName (fst p) = Inr (fst p)"
        using ch Cons by (simp_all add: NewFieldName_ok) (simp add: name_ok_def)
      have rb: "parseDecoderValue (at (CHR '':'' # writeValueJSON (snd p) @ rest_items (map writeField xs) @ CHR ''}'' # t)
          tokenObjectColon (s # st)) (Suc depth) = Inr (snd p, at (rest_items (map writeField xs) @ CHR ''}'' # t) tokenObjectComma (s # st))"
        using ch Cons by (intro field_back) (simp_all add: stops_rest)
      from n rb show ?thesis
        using object_back [of xs depth "[(fst p, snd p)]" t s st] ch Cons 5(2)
        by (subst parseObjectValue.simps) (simp add: commas_Cons writeField_def [of p] More_head Token_key maxObjectFields_def)
    qed
    then show "parseDecoderValue (at (writeValueJSON (ObjectValue fs) @ t) s st) depth
        = Inr (ObjectValue fs, at t (tokenValueEnd s) st)"
      using * by (subst parseDecoderValue.simps) (simp add: write_object Token_open del: writeValueJSON.simps)
  qed
next
  case (6 items)
  show ?case
    unfolding reads_back_def
  proof (intro allI impI)
    fix depth s st t
    assume *: "depth + value_depth (ArrayValue items) \<le> maxNestingDepth" "tokenValueAllowed s" "stops t"
    have ch: "\<forall>x \<in> set items. reads_back x \<and> Suc depth + value_depth x \<le> maxNestingDepth"
      using 6 deep_children(2) [OF *(1) refl] by auto
    have "parseArrayValue (at (commas (map writeValueJSON items) @ CHR '']'' # t) tokenArrayStart (s # st)) depth []
      = Inr (ArrayValue items, at t (tokenValueEnd s) st)"
    proof (cases items)
      case Nil
      then show ?thesis by (simp add: parseArrayValue.simps More_head Token_close)
    next
      case (Cons x xs)
      have rb: "parseDecoderValue (at (writeValueJSON x @ rest_items (map writeValueJSON xs) @ CHR '']'' # t) tokenArrayStart (s # st))
          (Suc depth) = Inr (x, at (rest_items (map writeValueJSON xs) @ CHR '']'' # t) tokenArrayComma (s # st))"
        using ch Cons by (subst reads_backD) (simp_all add: stops_rest tokenValueAllowed_def)
      then show ?thesis
        using array_back [of xs depth "[x]" t s st] ch Cons 6(2)
        by (subst parseArrayValue.simps) (simp add: commas_Cons write_head maxArrayItems_def)
    qed
    then show "parseDecoderValue (at (writeValueJSON (ArrayValue items) @ t) s st) depth
        = Inr (ArrayValue items, at t (tokenValueEnd s) st)"
      using * by (subst parseDecoderValue.simps) (simp add: Token_open)
  qed
qed (simp_all only: portable.simps scalar_back)

text \<open>What follows a written response: only \<open>More\<close> looks at it.\<close>

theorem ParseValueJSON_followed:
  assumes "portable v" "value_depth v \<le> maxNestingDepth" "stops t"
  shows "ParseValueJSON (EncodeValueJSON v @ t) =
    (if More (at t tokenTopValue []) then Inl (badResponse ''response JSON has trailing values'') else Inr v)"
proof -
  have "parseDecoderValue (NewDecoder (EncodeValueJSON v @ t)) 0 = Inr (v, at t tokenTopValue [])"
    using reads_backD [OF portable_reads_back [OF assms(1)], of 0 tokenTopValue t "[]"] assms(2,3)
    by (simp add: NewDecoder_def EncodeValueJSON_def tokenValueAllowed_def)
  then show ?thesis by (simp add: ParseValueJSON_def)
qed

theorem ParseValueJSON_Encode:
  assumes "portable v" "value_depth v \<le> maxNestingDepth"
  shows "ParseValueJSON (EncodeValueJSON v) = Inr v"
  using ParseValueJSON_followed [OF assms, of "[]"] by (simp add: stops_def More_def)

section \<open>What is read is portable\<close>

definition nodigit :: "string \<Rightarrow> bool" where
  "nodigit t \<longleftrightarrow> t = [] \<or> \<not> is_digit (hd t)"

lemma while_self:
  assumes "nodigit t"
  shows "takeWhile is_digit (takeWhile is_digit s @ t) = takeWhile is_digit s"
    "dropWhile is_digit (takeWhile is_digit s @ t) = t"
  using assms by (induction s) (auto simp: nodigit_def takeWhile_eq_Nil_iff dropWhile_eq_self_iff)

lemma scanInteger_self: "scanInteger s = Some (i, b) \<Longrightarrow> nodigit t \<Longrightarrow> scanInteger (i @ t) = Some (i, t)"
  by (auto simp: scanInteger_def while_self split: list.splits if_splits)

definition digits :: "string \<Rightarrow> bool" where
  "digits ds \<longleftrightarrow> ds \<noteq> [] \<and> (\<forall>c \<in> set ds. is_digit c)"

lemma nodigit_simps [simp]: "nodigit []" "nodigit (c # t) \<longleftrightarrow> \<not> is_digit c"
  by (simp_all add: nodigit_def)

lemma scanDigits_some: "scanDigits p s = Some (a, b) \<Longrightarrow> \<exists>ds. a = p @ ds \<and> digits ds"
  by (auto simp: scanDigits_def digits_def split: if_splits dest: set_takeWhileD)

lemma scanDigits_self: "digits ds \<Longrightarrow> nodigit t \<Longrightarrow> scanDigits p (ds @ t) = Some (p @ ds, t)"
  by (cases t) (auto simp: scanDigits_def digits_def takeWhile_append dropWhile_append takeWhile_eq_all_conv [THEN iffD2])

lemma digits_head: "digits ds \<Longrightarrow> \<exists>c cs. ds = c # cs \<and> is_digit c"
  by (cases ds) (auto simp: digits_def)

lemma scanFraction_self:
  assumes "scanFraction s = Some (f, b)"
  shows "(f = [] \<or> hd f = CHR ''.'') \<and>
     (t = [] \<or> hd t \<in> {CHR ''e'', CHR ''E''} \<longrightarrow> scanFraction (f @ t) = Some (f, t))"
proof (cases "f = []")
  case True
  then show ?thesis by (cases t) (auto simp: scanFraction_def)
next
  case False
  then obtain ds where ds: "f = CHR ''.'' # ds" "digits ds"
    using assms by (auto simp: scanFraction_def split: list.splits if_splits dest!: scanDigits_some)
  have "t = [] \<or> hd t \<in> {CHR ''e'', CHR ''E''} \<Longrightarrow> nodigit t" by (cases t) (auto simp: is_digit_def)
  then show ?thesis using ds scanDigits_self [OF ds(2), of t "''.''"] by (auto simp: scanFraction_def)
qed

lemma scanExponent_self:
  assumes "scanExponent s = Some (x, b)"
  shows "(x = [] \<or> hd x \<in> {CHR ''e'', CHR ''E''}) \<and> scanExponent x = Some (x, [])"
proof (cases "x = []")
  case False
  then obtain c g ds where x: "x = c # g @ ds" "c = CHR ''e'' \<or> c = CHR ''E''" "g \<in> {[], ''+'', ''-''}" "digits ds"
    using assms by (auto simp: scanExponent_def split: list.splits if_splits dest!: scanDigits_some; fastforce)
  obtain d es where d: "ds = d # es" "is_digit d" using digits_head [OF x(4)] by blast
  then have "d \<noteq> CHR ''+''" "d \<noteq> CHR ''-''" by (auto simp: is_digit_def)
  then show ?thesis
    using x d scanDigits_self [OF x(4), of "[]"] by (auto simp: scanExponent_def)
qed (simp add: scanExponent_def)

lemma scanNumber_self:
  assumes "scanNumber s = Some (a, b)"
  shows "scanNumber a = Some (a, [])"
proof -
  obtain sign s1 where sign: "scanSign s = (sign, s1)" by fastforce
  from assms obtain i s2 where i: "scanInteger s1 = Some (i, s2)"
    by (auto simp: scanNumber_def sign split: option.splits)
  from assms obtain f s3 where f: "scanFraction s2 = Some (f, s3)"
    by (auto simp: scanNumber_def sign i split: option.splits)
  from assms obtain x where x: "scanExponent s3 = Some (x, b)" "a = sign @ i @ f @ x"
    by (auto simp: scanNumber_def sign i f split: option.splits)
  have "nodigit (f @ x)"
    using scanFraction_self [OF f] scanExponent_self [OF x(1)] by (cases f; cases x) (auto simp: is_digit_def)
  then have "scanInteger (i @ f @ x) = Some (i, f @ x)" by (rule scanInteger_self [OF i])
  moreover have "scanFraction (f @ x) = Some (f, x)"
    using scanFraction_self [OF f, of x] scanExponent_self [OF x(1)] by blast
  moreover have "scanSign (sign @ i @ f @ x) = (sign, i @ f @ x)"
    using sign i by (auto simp: scanSign_def scanInteger_def is_digit_def split: list.splits if_splits)
  ultimately show ?thesis using scanExponent_self [OF x(1)] x(2) by (simp add: scanNumber_def)
qed

fun token_ok :: "JsonToken \<Rightarrow> bool" where
  "token_ok (StringToken s) \<longleftrightarrow> utf8 s"
| "token_ok (NumberToken n) \<longleftrightarrow> scanNumber n = Some (n, [])"
| "token_ok _ \<longleftrightarrow> True"

lemma decodeScalar_ok: "decodeScalar s = Some (tok, rest) \<Longrightarrow> token_ok tok"
  by (auto simp: decodeScalar_def literal_def split: list.splits if_splits dest: readString_utf8 scanNumber_self
      simp del: readString.simps)

lemma Token_ok: "Token dec = Some (tok, dec') \<Longrightarrow> token_ok tok"
proof (induction dec rule: Token.induct)
  case (1 dec)
  from "1.prems" show ?case
    by (subst (asm) Token.simps)
       (auto split: list.splits if_splits dest: decodeScalar_ok readString_utf8 "1.IH" simp del: readString.simps)
qed

lemma number_portable: "scanNumber n = Some (n, []) \<Longrightarrow> parseJSONNumber n = Inr v \<Longrightarrow> portable v \<and> value_depth v = 0"
  by (auto simp: parseJSONNumber_def number_ok_def split: option.splits if_splits) (auto simp: parseInt_def split: option.splits if_splits)

lemma name_portable: "utf8 n \<Longrightarrow> NewFieldName n = Inr m \<Longrightarrow> name_ok m"
  by (auto simp: NewFieldName_def name_ok_def Let_def utf8_TrimSpace split: if_splits)

definition fits :: "nat \<Rightarrow> Value \<Rightarrow> bool" where
  "fits depth v \<longleftrightarrow> portable v \<and> depth + value_depth v \<le> maxNestingDepth"

lemma children_depth:
  "depth \<le> m \<Longrightarrow> \<forall>x \<in> set xs. Suc depth + g x \<le> m \<Longrightarrow> depth + Max (set (0 # map (\<lambda>x. Suc (g x)) xs)) \<le> m"
  using depth_of_children [of depth m g xs] by (simp add: list_all_iff comp_def)

lemma fits_object:
  "\<lbrakk>depth \<le> maxNestingDepth; length fs \<le> maxObjectFields; \<forall>p \<in> set fs. name_ok (fst p) \<and> fits (Suc depth) (snd p)\<rbrakk>
     \<Longrightarrow> fits depth (ObjectValue fs)"
  using children_depth [of depth maxNestingDepth fs "\<lambda>p. value_depth (snd p)"]
  by (simp only: fits_def portable.simps value_depth.simps) blast

lemma fits_array:
  "\<lbrakk>depth \<le> maxNestingDepth; length xs \<le> maxArrayItems; \<forall>x \<in> set xs. fits (Suc depth) x\<rbrakk> \<Longrightarrow> fits depth (ArrayValue xs)"
  using children_depth [of depth maxNestingDepth xs value_depth]
  by (simp only: fits_def portable.simps value_depth.simps) blast

lemma parse_fits:
  "parseDecoderValue dec depth = Inr (v, dec') \<Longrightarrow> fits depth v"
  "\<lbrakk>parseObjectValue dec depth acc = Inr (v, dec'); depth \<le> maxNestingDepth; length acc \<le> maxObjectFields;
     \<forall>p \<in> set acc. name_ok (fst p) \<and> fits (Suc depth) (snd p)\<rbrakk> \<Longrightarrow> fits depth v"
  "\<lbrakk>parseArrayValue dec depth items = Inr (v, dec'); depth \<le> maxNestingDepth; length items \<le> maxArrayItems;
     \<forall>x \<in> set items. fits (Suc depth) x\<rbrakk> \<Longrightarrow> fits depth v"
proof (induction dec depth and dec depth acc and dec depth items arbitrary: v dec' and v dec' and v dec'
    rule: parseDecoderValue_parseObjectValue_parseArrayValue.induct)
  case (1 dec depth)
  have le: "depth \<le> maxNestingDepth" using "1.prems" by (subst (asm) parseDecoderValue.simps) (simp split: if_splits)
  obtain tok dec1 where tok: "Token dec = Some (tok, dec1)"
    using "1.prems" by (subst (asm) parseDecoderValue.simps) (auto split: if_splits option.splits)
  note ok = Token_ok [OF tok]
  show ?case
    using "1.prems" "1.IH" [OF _ tok] le ok tok number_portable
    by (subst (asm) parseDecoderValue.simps) (auto simp: fits_def split: JsonToken.splits if_splits sum.splits)
next
  case (2 dec depth acc)
  show ?case
  proof (cases "More dec")
    case True
    obtain n dec1 m w dec2 where steps: "length acc < maxObjectFields" "Token dec = Some (StringToken n, dec1)"
        "NewFieldName n = Inr m" "parseDecoderValue dec1 (Suc depth) = Inr (w, dec2)"
        "parseObjectValue dec2 depth (acc @ [(m, w)]) = Inr (v, dec')"
      using "2.prems"(1) True
      by (subst (asm) parseObjectValue.simps) (auto split: if_splits option.splits JsonToken.splits sum.splits)
    have room: "\<not> maxObjectFields \<le> length acc" using steps(1) by simp
    have "name_ok m" using Token_ok [OF steps(2)] name_portable [OF _ steps(3)] by simp
    moreover have "fits (Suc depth) w" by (rule "2.IH"(1) [OF True room steps(2) refl refl steps(3,4)])
    ultimately show ?thesis
      using "2.IH"(2) [OF True room steps(2) refl refl steps(3,4) refl steps(5) "2.prems"(2)] steps(1) "2.prems"(4)
      by simp
  next
    case False
    then show ?thesis
      using "2.prems" fits_object
      by (subst (asm) parseObjectValue.simps) (auto split: option.splits if_splits)
  qed
next
  case (3 dec depth items)
  show ?case
  proof (cases "More dec")
    case True
    obtain w dec1 where steps: "length items < maxArrayItems" "parseDecoderValue dec (Suc depth) = Inr (w, dec1)"
        "parseArrayValue dec1 depth (items @ [w]) = Inr (v, dec')"
      using "3.prems"(1) True by (subst (asm) parseArrayValue.simps) (auto split: if_splits sum.splits)
    have room: "\<not> maxArrayItems \<le> length items" using steps(1) by simp
    have "fits (Suc depth) w" by (rule "3.IH"(1) [OF True room steps(2)])
    then show ?thesis
      using "3.IH"(2) [OF True room steps(2) refl steps(3) "3.prems"(2)] steps(1) "3.prems"(4) by simp
  next
    case False
    then show ?thesis
      using "3.prems" fits_array
      by (subst (asm) parseArrayValue.simps) (auto split: option.splits if_splits)
  qed
qed

theorem ParseValueJSON_fits: "ParseValueJSON raw = Inr v \<Longrightarrow> portable v \<and> value_depth v \<le> maxNestingDepth"
  using parse_fits(1) [of "NewDecoder raw" 0 v]
  by (auto simp: ParseValueJSON_def fits_def split: sum.splits if_splits)

section \<open>Redaction keeps a response portable\<close>

lemma redacted_mark_fits: "portable redactedMark \<and> value_depth redactedMark = 0"
  by (simp add: redactedMark_def runeLen_ascii)

lemma redact_fits:
  "fits depth v \<Longrightarrow> fits depth (redactAt s v)"
  "name_ok (fst p) \<Longrightarrow> fits depth (snd p) \<Longrightarrow> length (redactField fs p) \<le> 1 \<and>
     (\<forall>q \<in> set (redactField fs p). name_ok (fst q) \<and> fits depth (snd q))"
proof (induction s v and fs p arbitrary: depth and depth rule: redactAt_redactField.induct)
  case (1 fs v)
  show ?case
  proof (cases v)
    case (ObjectValue object)
    have le: "depth \<le> maxNestingDepth" using "1.prems" by (simp add: fits_def)
    have ch: "name_ok (fst p) \<and> fits (Suc depth) (snd p)" if "p \<in> set object" for p
      using "1.prems" that deep_children(1) [of depth v object p] ObjectValue by (simp add: fits_def)
    have R: "length (redactField fs p) \<le> 1" "\<forall>q \<in> set (redactField fs p). name_ok (fst q) \<and> fits (Suc depth) (snd q)"
      if "p \<in> set object" for p
      using "1.IH" [OF ObjectValue that] ch [OF that] by blast+
    have len: "length (concat (map (redactField fs) xs)) \<le> length xs" if "set xs \<subseteq> set object" for xs
      using that R(1) by (induction xs) (fastforce simp del: redactField.simps)+
    have "length object \<le> maxObjectFields" using "1.prems" ObjectValue by (simp add: fits_def)
    then have "fits depth (ObjectValue (concat (map (redactField fs) object)))"
      using len [OF subset_refl] R(2) by (intro fits_object le) (auto simp del: redactField.simps)
    then show ?thesis using ObjectValue by simp
  qed (use "1.prems" in simp_all)
next
  case (2 item v)
  show ?case
  proof (cases v)
    case (ArrayValue items)
    have "fits (Suc depth) (redactAt item x)" if "x \<in> set items" for x
      using "2.prems" deep_children(2) [of depth v items x] ArrayValue that
      by (intro "2.IH" [OF ArrayValue that]) (simp add: fits_def)
    moreover have "depth \<le> maxNestingDepth" "length items \<le> maxArrayItems"
      using "2.prems" ArrayValue by (simp_all add: fits_def)
    ultimately have "fits depth (ArrayValue (map (redactAt item) items))" by (intro fits_array) auto
    then show ?thesis using ArrayValue by simp
  qed (use "2.prems" in simp_all)
next
  case (10 fs name x)
  then show ?case
    using redacted_mark_fits
    by (auto simp: fits_def split: option.split Sensitivity.split RedactionPolicy.split)
qed (use redacted_mark_fits in \<open>auto simp: fits_def split: Sensitivity.split RedactionPolicy.split\<close>)

end
