(* ===== verification/SubmissionService.thy ===== *)
theory SubmissionService
  imports Filing JsonRoundtrip SchemaParser
begin

text \<open>
  \<open>internal/submission/service.go\<close> over its stores: who may submit to a task, read its
  submissions or comment on one, how a response becomes a submission, and what a receipt
  shows.  Reading a schema is a parameter (\<open>unmarshal\<close>, the JSON decoder that fills the
  schema's transfer objects); the dispatch of the recorded event after the commit changes
  no table of the model.
\<close>

section \<open>Organization permissions\<close>

datatype MemberRolesResult = MemberRolesFound "Role list" | MemberRolesMissing | MemberRolesRejected DomainError

definition FindMemberRoles :: "OrganizationID \<Rightarrow> UserID \<Rightarrow> env \<Rightarrow> nat \<Rightarrow> db \<Rightarrow> MemberRolesResult \<times> nat" where
  "FindMemberRoles organizationID userID = readN
     (bindT (liftT MemberRolesRejected (scanT (invalidState ''find member roles failed'')
          (invalidState ''scan member role failed'') (invalidState ''read member roles failed'')
          (\<lambda>d. memberRoles d organizationID userID) (parseT (\<lambda>e. ParseRole))))
     (\<lambda>roles. retT (if roles = [] then MemberRolesMissing else MemberRolesFound roles)))"

definition CheckOrganizationPermission ::
  "OrganizationID \<Rightarrow> UserID \<Rightarrow> Permission \<Rightarrow> env \<Rightarrow> nat \<Rightarrow> db \<Rightarrow> PermissionCheck \<times> nat" where
  "CheckOrganizationPermission organizationID userID permission e n d =
     (case FindMemberRoles organizationID userID e n d of (found, n') \<Rightarrow>
      (case found of
         MemberRolesFound roles \<Rightarrow> CheckPermission roles permission
       | MemberRolesMissing \<Rightarrow>
           PermissionDenied (NewDomainError ErrorCodePermissionDenied ''organization membership is required'')
       | MemberRolesRejected reason \<Rightarrow> PermissionDenied reason, n'))"

section \<open>Who may see a task\<close>

definition requireOrganizationViewPermission ::
  "OrganizationID \<Rightarrow> UserID \<Rightarrow> env \<Rightarrow> nat \<Rightarrow> db \<Rightarrow> DomainError option \<times> nat" where
  "requireOrganizationViewPermission organizationID userID e n d =
     (case CheckOrganizationPermission organizationID userID PermissionReviewSubmissions e n d of
        (PermissionGranted, n') \<Rightarrow> (None, n')
      | (PermissionDenied _, n') \<Rightarrow>
          (case CheckOrganizationPermission organizationID userID PermissionCreateOrganizationTask e n' d of
             (PermissionDenied reason, n'') \<Rightarrow> (Some reason, n'')
           | (PermissionGranted, n'') \<Rightarrow> (None, n'')))"

definition viewDenied :: DomainError where
  "viewDenied = NewDomainError ErrorCodePermissionDenied ''task view access denied''"

definition requireViewPermission :: "UserID \<Rightarrow> task_row \<Rightarrow> env \<Rightarrow> nat \<Rightarrow> db \<Rightarrow> DomainError option \<times> nat" where
  "requireViewPermission userID value e n d =
     (if tk_created_by value = userID then (None, n)
      else case tk_visibility value of
        PublicVisibility \<Rightarrow> (None, n)
      | UserVisibility u \<Rightarrow> (if u = userID then None else Some viewDenied, n)
      | OrganizationVisibility i \<Rightarrow> requireOrganizationViewPermission i userID e n d
      | OrganizationTeamVisibility i _ \<Rightarrow> requireOrganizationViewPermission i userID e n d
      | TeamVisibility _ \<Rightarrow> (Some viewDenied, n))"

section \<open>Who may review\<close>

definition organizationIDForTask :: "task_row \<Rightarrow> OrganizationID option" where
  "organizationIDForTask value = (case ownerOf value of
     Some (OrganizationOwner i) \<Rightarrow> Some i | Some (OrganizationTeamOwner i _) \<Rightarrow> Some i | _ \<Rightarrow> None)"

definition requireReviewPermissionForActor :: "Subject \<Rightarrow> task_row \<Rightarrow> env \<Rightarrow> nat \<Rightarrow> db \<Rightarrow> DomainError option \<times> nat" where
  "requireReviewPermissionForActor actor value e n d =
     (let denied = NewDomainError ErrorCodePermissionDenied ''submission list access denied'' in
      if actor = UserSubject (tk_created_by value) then (None, n)
      else case organizationIDForTask value of
        None \<Rightarrow> (Some denied, n)
      | Some i \<Rightarrow>
          (case RequireOrganizationAccess actor i (\<lambda>o' u p. fst (CheckOrganizationPermission o' u p e n d))
                  PermissionReviewSubmissions ErrorCodePermissionDenied ''submission list access denied'' of
             Denied reason \<Rightarrow> Some reason | Granted \<Rightarrow> None,
           case actor of UserSubject u \<Rightarrow> snd (CheckOrganizationPermission i u PermissionReviewSubmissions e n d) | _ \<Rightarrow> n))"

section \<open>Submitting\<close>

definition validationOutcome :: "Schema \<Rightarrow> Value \<Rightarrow> ValidationOutcome" where
  "validationOutcome schemaValue value = (case Validate schemaValue value of
     ValidationAccepted \<Rightarrow> ValidationPassed
   | ValidationRejected errors \<Rightarrow>
       ValidationFailed (map (\<lambda>x. \<lparr>er_path = Path_String (PathOf x), er_message = MessageOf x\<rparr>) errors))"

definition storedSensitivity :: "SensitiveField \<Rightarrow> StoredSensitiveField" where
  "storedSensitivity x = (case sfSensitivity x of
     Sensitive category retention redaction \<Rightarrow>
       \<lparr>sf_path = Path_String (sfPath x), sf_category = SensitivityCategory_String category,
        sf_retention = RetentionPolicy_String retention, sf_redaction = RedactionPolicy_String redaction,
        sf_state = ''active'', sf_redacted_at = ''''\<rparr>
   | NotSensitive \<Rightarrow> \<lparr>sf_path = Path_String (sfPath x), sf_category = '''', sf_retention = '''', sf_redaction = '''',
        sf_state = ''active'', sf_redacted_at = ''''\<rparr>)"

definition sensitiveFieldsFor :: "Schema \<Rightarrow> Value \<Rightarrow> StoredSensitiveField list" where
  "sensitiveFieldsFor schemaValue value = map storedSensitivity (BuildSensitiveIndex schemaValue value)"

definition submissionEventDraft ::
  "Kind \<Rightarrow> UserID \<Rightarrow> TaskID \<Rightarrow> SubmissionID \<Rightarrow> UserID list \<Rightarrow> env \<Rightarrow> nat \<Rightarrow> db \<Rightarrow> Draft result \<times> nat" where
  "submissionEventDraft kind actor taskID submissionID recipients = readN (tryT
     (NewDraft kind (ActorUser actor)
        (NoSubjectRefs\<lparr>sj_task := Some taskID, sj_submission := Some submissionID\<rparr>) (TaskMetadata taskID) recipients))"

text \<open>The task's reward as its row reads: the declared columns and the collectibles held.\<close>

definition rewardOf :: "db \<Rightarrow> task_row \<Rightarrow> RewardSpec result" where
  "rewardOf d value = parseRewardSpec (tk_reward_kind value) (case tk_reward_amount value of None \<Rightarrow> 0 | Some a \<Rightarrow> a)
     (int (length (filter (\<lambda>(t, c). t = tk_id value) (task_fund_collectibles d))))"

datatype SubmitResult = SubmissionCreated Submission string | SubmitRejected DomainError

definition parseResponse :: "(RawMessage \<Rightarrow> schemaDTO option) \<Rightarrow> string \<Rightarrow> string \<Rightarrow> (Schema \<times> Value) result" where
  "parseResponse unmarshal schemaText response = (case ParseSchemaJSON unmarshal schemaText of
     Inl reason \<Rightarrow> Inl reason
   | Inr schemaValue \<Rightarrow> (case ParseValueJSON response of Inl reason \<Rightarrow> Inl reason | Inr value \<Rightarrow> Inr (schemaValue, value)))"

definition NewSubmissionID :: "env \<Rightarrow> nat \<Rightarrow> SubmissionID result" where
  "NewSubmissionID e n = fromIDResult (uuid_new e n)"

definition NewSubmissionReceiptTokenID :: "env \<Rightarrow> nat \<Rightarrow> SubmissionReceiptTokenID result" where
  "NewSubmissionReceiptTokenID e n = fromIDResult (uuid_new e n)"

text \<open>The second half of \<open>Submit\<close>: identifiers, the receipt token, the event and the store.\<close>

definition recordSubmission ::
  "SubmitCommand \<Rightarrow> UserID \<Rightarrow> Schema \<Rightarrow> Value \<Rightarrow> env \<Rightarrow> nat \<Rightarrow> db \<Rightarrow> SubmitResult \<times> nat \<times> db" where
  "recordSubmission command creator schemaValue value e n d =
     (let outcome = validationOutcome schemaValue value in
      case NewSubmissionID e n of Inl reason \<Rightarrow> (SubmitRejected reason, n, d) | Inr submissionID \<Rightarrow>
      (case NewSubmissionReceiptTokenID e (Suc n) of Inl reason \<Rightarrow> (SubmitRejected reason, n, d) | Inr receiptID \<Rightarrow>
      (case NewReceiptTokenPlain e (Suc (Suc n)) of Inl reason \<Rightarrow> (SubmitRejected reason, n, d) | Inr token \<Rightarrow>
      (case submissionEventDraft KindSubmissionCreated (sc_submitter command) (sc_task command) submissionID
              (NewRecipients [creator, sc_submitter command]) e (Suc (Suc (Suc n))) d of
         (Inl reason, n') \<Rightarrow> (SubmitRejected reason, n', d)
       | (Inr draft, n') \<Rightarrow>
           (case CreateSubmission submissionID receiptID (ReceiptTokenHash e token) (command\<lparr>sc_draft := draft\<rparr>)
                   (StateForValidation outcome) outcome (sensitiveFieldsFor schemaValue value) e n' d of
              (CreateSubmissionStoreAccepted created, n'', d') \<Rightarrow> (SubmissionCreated created token, n'', d')
            | (CreateSubmissionStoreRejected reason, n'', d') \<Rightarrow> (SubmitRejected reason, n'', d'))))))"

definition Submit ::
  "(RawMessage \<Rightarrow> schemaDTO option) \<Rightarrow> WorkerOrigin \<Rightarrow> SubmitCommand \<Rightarrow> env \<Rightarrow> nat \<Rightarrow> db \<Rightarrow> SubmitResult \<times> nat \<times> db" where
  "Submit unmarshal origin command e n d =
     (case FindTask (sc_task command) e n d of
        (FindTaskStoreRejected reason, n1) \<Rightarrow> (SubmitRejected reason, n1, d)
      | (FindTaskStoreAccepted value, n1) \<Rightarrow>
     (case rewardOf d value of Inl reason \<Rightarrow> (SubmitRejected reason, n1, d) | Inr reward \<Rightarrow>
      if tk_state value \<noteq> StateOpen then (SubmitRejected (conflict ''only open tasks accept submissions''), n1, d)
      else case requireViewPermission (sc_submitter command) value e n1 d of
        (Some reason, n2) \<Rightarrow> (SubmitRejected reason, n2, d)
      | (None, n2) \<Rightarrow>
     (case CheckSubmissionEligibility (sc_task command) (sc_submitter command) e n2 d of
        (SubmissionEligibilityRejected reason, n3, d1) \<Rightarrow> (SubmitRejected reason, n3, d1)
      | (SubmissionEligible, n3, d1) \<Rightarrow>
     (case WorkBudgetForSubmission origin (tk_participation value) (tk_type value) reward of
        Inl reason \<Rightarrow> (SubmitRejected reason, n3, d1)
      | Inr budget \<Rightarrow>
     (case parseResponse unmarshal (tk_response_schema value) (sc_response command) of
        Inl reason \<Rightarrow> (SubmitRejected reason, n3, d1)
      | Inr (schemaValue, response) \<Rightarrow>
          recordSubmission (command\<lparr>sc_budget := budget\<rparr>) (tk_created_by value) schemaValue response e n3 d1)))))"

section \<open>Reading\<close>

definition redactedSubmission ::
  "(RawMessage \<Rightarrow> schemaDTO option) \<Rightarrow> Submission \<Rightarrow> env \<Rightarrow> nat \<Rightarrow> db \<Rightarrow> Submission result \<times> nat" where
  "redactedSubmission unmarshal value e n d =
     (case FindTask (sm_task value) e n d of
        (FindTaskStoreRejected reason, n') \<Rightarrow> (Inl reason, n')
      | (FindTaskStoreAccepted taskFound, n') \<Rightarrow>
          (case parseResponse unmarshal (tk_response_schema taskFound) (sm_response value) of
             Inl reason \<Rightarrow> Inl reason
           | Inr (schemaValue, response) \<Rightarrow>
               (case NewResponseSource (EncodeValueJSON (RedactSensitive schemaValue response)) of
                  Inl reason \<Rightarrow> Inl reason
                | Inr source \<Rightarrow> Inr (value\<lparr>sm_response := source\<rparr>)), n'))"

definition FindByReceipt ::
  "(RawMessage \<Rightarrow> schemaDTO option) \<Rightarrow> string \<Rightarrow> env \<Rightarrow> nat \<Rightarrow> db \<Rightarrow> Submission result \<times> nat" where
  "FindByReceipt unmarshal token e n d =
     (case FindByReceiptToken (ReceiptTokenHash e token) e n d of
        (Inl reason, n') \<Rightarrow> (Inl reason, n')
      | (Inr found, n') \<Rightarrow> redactedSubmission unmarshal found e n' d)"

definition loadCommentableSubmissionWithTask ::
  "Subject \<Rightarrow> SubmissionID \<Rightarrow> env \<Rightarrow> nat \<Rightarrow> db \<Rightarrow> (Submission \<times> task_row) result \<times> nat" where
  "loadCommentableSubmissionWithTask actor submissionID e n d =
     (case FindSubmission submissionID e n d of
        (Inl reason, n1) \<Rightarrow> (Inl reason, n1)
      | (Inr found, n1) \<Rightarrow>
     (case FindTask (sm_task found) e n1 d of
        (FindTaskStoreRejected reason, n2) \<Rightarrow> (Inl reason, n2)
      | (FindTaskStoreAccepted taskFound, n2) \<Rightarrow>
          if actor = UserSubject (sm_submitter found) then (Inr (found, taskFound), n2)
          else case requireReviewPermissionForActor actor taskFound e n2 d of
            (Some reason, n3) \<Rightarrow> (Inl reason, n3)
          | (None, n3) \<Rightarrow> (Inr (found, taskFound), n3)))"

definition Get :: "Subject \<Rightarrow> SubmissionID \<Rightarrow> env \<Rightarrow> nat \<Rightarrow> db \<Rightarrow> Submission result \<times> nat" where
  "Get actor submissionID e n d =
     (case loadCommentableSubmissionWithTask actor submissionID e n d of
        (Inl reason, n') \<Rightarrow> (Inl reason, n') | (Inr (value, _), n') \<Rightarrow> (Inr value, n'))"

definition Service_ListForTask ::
  "Subject \<Rightarrow> TaskID \<Rightarrow> Page \<Rightarrow> env \<Rightarrow> nat \<Rightarrow> db \<Rightarrow> (Submission list \<times> nat) result \<times> nat" where
  "Service_ListForTask actor taskID page e n d =
     (case FindTask taskID e n d of
        (FindTaskStoreRejected reason, n1) \<Rightarrow> (Inl reason, n1)
      | (FindTaskStoreAccepted taskFound, n1) \<Rightarrow>
          (case requireReviewPermissionForActor actor taskFound e n1 d of
             (Some reason, n2) \<Rightarrow> (Inl reason, n2)
           | (None, n2) \<Rightarrow> ListForTask taskID page e n2 d))"

definition Service_ListForSubmitter ::
  "UserID \<Rightarrow> UserID \<Rightarrow> Page \<Rightarrow> env \<Rightarrow> nat \<Rightarrow> db \<Rightarrow> (Submission list \<times> nat) result \<times> nat" where
  "Service_ListForSubmitter actor submitterID page e n d =
     (if actor \<noteq> submitterID
      then (Inl (NewDomainError ErrorCodePermissionDenied ''submissions are visible only to their submitter''), n)
      else ListForSubmitter submitterID page e n d)"

section \<open>What a submission was admitted for\<close>

lemma FindMemberRoles_granted:
  assumes "CheckOrganizationPermission i u p e n d = (PermissionGranted, n')"
  shows "memberMay d i u p"
proof -
  obtain found n1 where found: "FindMemberRoles i u e n d = (found, n1)" by fastforce
  have "\<forall>roles. found = MemberRolesFound roles \<longrightarrow> CheckPermission roles p = PermissionGranted \<longrightarrow> memberMay d i u p"
    using found unfolding FindMemberRoles_def
    by (rule readN_rule, unfold scanT_def, intro wp_bind wp_lift wp_query wp_mapT_parse wp_ret)
       (auto simp: memberMay_def)
  with assms found show ?thesis by (auto simp: CheckOrganizationPermission_def split: MemberRolesResult.splits)
qed

text \<open>Who may see a task, as a predicate on the tables.\<close>

definition maySee :: "db \<Rightarrow> UserID \<Rightarrow> task_row \<Rightarrow> bool" where
  "maySee d u r \<longleftrightarrow> tk_created_by r = u \<or> (case tk_visibility r of
     PublicVisibility \<Rightarrow> True
   | UserVisibility v \<Rightarrow> v = u
   | OrganizationVisibility i \<Rightarrow> memberMay d i u PermissionReviewSubmissions \<or> memberMay d i u PermissionCreateOrganizationTask
   | OrganizationTeamVisibility i _ \<Rightarrow> memberMay d i u PermissionReviewSubmissions \<or> memberMay d i u PermissionCreateOrganizationTask
   | TeamVisibility _ \<Rightarrow> False)"

lemma requireOrganizationView_granted:
  assumes "requireOrganizationViewPermission i u e n d = (None, n')"
  shows "memberMay d i u PermissionReviewSubmissions \<or> memberMay d i u PermissionCreateOrganizationTask"
  using assms
  by (auto simp: requireOrganizationViewPermission_def split: prod.splits PermissionCheck.splits dest: FindMemberRoles_granted)

lemma requireView_granted: "requireViewPermission u r e n d = (None, n') \<Longrightarrow> maySee d u r"
  by (auto simp: requireViewPermission_def maySee_def split: if_splits Visibility.splits dest: requireOrganizationView_granted)

lemma eligibility_eligible:
  assumes "CheckSubmissionEligibility t u e n d = (SubmissionEligible, n', d')"
  shows "eligible t u d' \<and> work d' = work d"
proof -
  have "leaves e (\<lambda>_. True) releaseExpiredReservationsInTx"
    unfolding releaseExpiredReservationsInTx_def by (intro safe_rules)
  from work.method_CheckSubmissionEligibility [OF assms TrueI this] eligibility_sound [OF assms] show ?thesis by simp
qed

lemma FindTask_found:
  assumes "FindTask t e n d = (FindTaskStoreAccepted r, n')"
  shows "filter (\<lambda>r. tk_id r = t) (tasks d) = [r]"
proof -
  have "\<forall>x. FindTaskStoreAccepted r = FindTaskStoreAccepted x \<longrightarrow> filter (\<lambda>r. tk_id r = t) (tasks d) = [x]"
    using assms unfolding FindTask_def
    by (rule readN_rule, intro wp_bind wp_query) (auto intro!: wp_rules split: list.split)
  then show ?thesis by simp
qed

lemma filter_one: "filter p xs = [x] \<Longrightarrow> x \<in> set xs \<and> p x"
  by (metis filter_eq_Cons_iff in_set_conv_decomp)

definition admitted :: "(RawMessage \<Rightarrow> schemaDTO option) \<Rightarrow> WorkerOrigin \<Rightarrow> SubmitCommand \<Rightarrow> db \<Rightarrow> db \<Rightarrow> task_row \<Rightarrow> Schema \<Rightarrow> Value
    \<Rightarrow> WorkBudgetCharge \<Rightarrow> bool" where
  "admitted unmarshal origin c d d1 r s w budget \<longleftrightarrow> filter (\<lambda>r. tk_id r = sc_task c) (tasks d) = [r] \<and> tk_state r = StateOpen \<and>
     maySee d (sc_submitter c) r \<and> eligible (sc_task c) (sc_submitter c) d1 \<and> work d1 = work d \<and>
     (\<exists>reward. rewardOf d r = Inr reward \<and>
        WorkBudgetForSubmission origin (tk_participation r) (tk_type r) reward = Inr budget) \<and>
     ParseSchemaJSON unmarshal (tk_response_schema r) = Inr s \<and> ParseValueJSON (sc_response c) = Inr w"

lemma Submit_admitted:
  assumes "Submit unmarshal origin c e n d = (SubmissionCreated v tok, n', d')"
  obtains r s w d1 n1 budget where "admitted unmarshal origin c d d1 r s w budget"
    "recordSubmission (c\<lparr>sc_budget := budget\<rparr>) (tk_created_by r) s w e n1 d1 = (SubmissionCreated v tok, n', d')"
proof -
  from assms obtain r n1 reward n2 n3 d1 budget s w where steps:
    "FindTask (sc_task c) e n d = (FindTaskStoreAccepted r, n1)" "rewardOf d r = Inr reward" "tk_state r = StateOpen"
    "requireViewPermission (sc_submitter c) r e n1 d = (None, n2)"
    "CheckSubmissionEligibility (sc_task c) (sc_submitter c) e n2 d = (SubmissionEligible, n3, d1)"
    "WorkBudgetForSubmission origin (tk_participation r) (tk_type r) reward = Inr budget"
    "parseResponse unmarshal (tk_response_schema r) (sc_response c) = Inr (s, w)"
    and run: "recordSubmission (c\<lparr>sc_budget := budget\<rparr>) (tk_created_by r) s w e n3 d1 = (SubmissionCreated v tok, n', d')"
    unfolding Submit_def
    by (auto split: prod.splits FindTaskStoreResult.splits sum.splits option.splits SubmissionEligibility.splits if_splits)
  have "admitted unmarshal origin c d d1 r s w budget"
    using FindTask_found [OF steps(1)] steps(2,3,6,7) requireView_granted [OF steps(4)] eligibility_eligible [OF steps(5)]
    by (auto simp: admitted_def parseResponse_def split: sum.splits)
  from that [OF this run] show ?thesis .
qed

lemma recordSubmission_created:
  assumes "recordSubmission c creator s w e n d = (SubmissionCreated v tok, n', d')"
  obtains i ri draft m n1 where "NewReceiptTokenPlain e m = Inr tok" "dr_recipients draft = NewRecipients [creator, sc_submitter c]"
    "dr_kind draft = KindSubmissionCreated" "dr_subject draft = NoSubjectRefs\<lparr>sj_task := Some (sc_task c), sj_submission := Some i\<rparr>"
    "CreateSubmission i ri (ReceiptTokenHash e tok) (c\<lparr>sc_draft := draft\<rparr>) (StateForValidation (validationOutcome s w))
       (validationOutcome s w) (sensitiveFieldsFor s w) e n1 d = (CreateSubmissionStoreAccepted v, n', d')"
proof -
  have draft: "dr_recipients x = rs \<and> dr_kind x = k \<and> dr_subject x = NoSubjectRefs\<lparr>sj_task := Some t, sj_submission := Some i\<rparr>"
    if "submissionEventDraft k a t i rs e m d0 = (Inr x, m')" for k a t i rs m d0 x m'
    using that unfolding submissionEventDraft_def
    by (auto simp: NewDraft_def readN_def run_rules split: sum.splits prod.splits outcome.splits)
  from assms that show ?thesis
    unfolding recordSubmission_def Let_def
    by (auto split: sum.splits prod.splits CreateSubmissionStoreResult.splits dest!: draft)
qed


section \<open>What a receipt shows\<close>

lemma solid_printable: "\<lbrakk>s \<noteq> []; list_all printable s\<rbrakk> \<Longrightarrow> solid s"
  by (rule solidI) (auto simp: list_all_iff)

lemma digit_printable: "is_digit c \<Longrightarrow> printable c"
  by (auto simp: is_digit_def printable_def)

lemma digits_printable: "list_all printable (takeWhile is_digit s)"
  unfolding list_all_iff using set_takeWhileD digit_printable by metis

lemma scanDigits_printable: "scanDigits p s = Some (a, b) \<Longrightarrow> list_all printable p \<Longrightarrow> list_all printable a"
  by (auto simp: scanDigits_def digits_printable split: if_splits)

lemma marks_printable:
  "printable (CHR ''-'')" "printable (CHR ''+'')" "printable (CHR ''.'')" "printable (CHR ''e'')" "printable (CHR ''E'')"
  by (simp_all add: printable_def)

lemma number_printable:
  assumes "scanNumber s = Some (a, b)"
  shows "a \<noteq> [] \<and> list_all printable a"
proof -
  obtain sign s1 where sign: "scanSign s = (sign, s1)" by fastforce
  from assms obtain i s2 f s3 x where i: "scanInteger s1 = Some (i, s2)" and f: "scanFraction s2 = Some (f, s3)"
    and x: "scanExponent s3 = Some (x, b)" "a = sign @ i @ f @ x"
    by (auto simp: scanNumber_def sign split: option.splits)
  have "list_all printable sign" using sign by (auto simp: scanSign_def marks_printable split: list.splits if_splits)
  moreover have "i \<noteq> [] \<and> list_all printable i"
  proof (cases s1)
    case (Cons c cs)
    then have "is_digit c" "i = [c] \<or> i = c # takeWhile is_digit cs"
      using i by (auto simp: scanInteger_def is_digit_def split: if_splits)
    then show ?thesis using digit_printable digits_printable by auto
  qed (use i in \<open>simp add: scanInteger_def\<close>)
  moreover have "list_all printable f"
    using f by (auto simp: scanFraction_def marks_printable dest: scanDigits_printable split: list.splits if_splits)
  moreover have "list_all printable x"
    using x(1) by (auto simp: scanExponent_def marks_printable dest: scanDigits_printable split: list.splits if_splits)
  ultimately show ?thesis using x(2) by simp
qed

lemma encode_solid: "portable v \<Longrightarrow> solid (EncodeValueJSON v)"
proof (cases v)
  case (IntegerValue i)
  then show ?thesis using number_printable [OF scanNumber_formatInt [of i]] by (simp add: EncodeValueJSON_def solid_printable)
next
  case (DecimalStringValue s)
  moreover assume "portable v"
  ultimately show ?thesis using number_printable [of s] by (auto simp: EncodeValueJSON_def number_ok_def solid_printable)
qed (auto simp: EncodeValueJSON_def marshalString_def printable_def intro!: solidI)

lemma encode_source: "portable v \<Longrightarrow> NewResponseSource (EncodeValueJSON v) = Inr (EncodeValueJSON v)"
  using encode_solid [of v] TrimSpace_solid by (simp add: NewResponseSource_def Let_def) (simp add: solid_def)


lemma validation_state:
  "StateForValidation (validationOutcome s w) = (if conforms s w then SubmissionStateSubmitted else SubmissionStateInvalid)"
  using Validate_conforms [of s w]
  by (cases "Validate s w") (auto simp: StateForValidation_def validationOutcome_def)

lemma service_fileable:
  assumes "\<forall>a \<in> set (sc_attachments c). valid_attachment a"
  shows "fileable c (validationOutcome s w) (sensitiveFieldsFor s w)"
proof -
  have "validationOutcome s w \<noteq> ValidationFailed []"
    by (auto simp: validationOutcome_def Validate_def Let_def split: if_splits)
  moreover have "sf_state (storedSensitivity x) = ''active'' \<and> sf_redacted_at (storedSensitivity x) = ''''" for x
    by (cases "sfSensitivity x") (simp_all add: storedSensitivity_def)
  ultimately show ?thesis using assms by (auto simp: fileable_def sensitiveFieldsFor_def)
qed

text \<open>What an accepted submission leaves behind.\<close>

definition recorded :: "env \<Rightarrow> SubmitCommand \<Rightarrow> Schema \<Rightarrow> Value \<Rightarrow> Submission \<Rightarrow> db \<Rightarrow> db \<Rightarrow> bool" where
  "recorded e c s w v d1 d' \<longleftrightarrow> sm_task v = sc_task c \<and> sm_submitter v = sc_submitter c \<and> sm_response v = sc_response c \<and>
     sm_attachments v = sc_attachments c \<and>
     sm_state v = (if conforms s w then SubmissionStateSubmitted else SubmissionStateInvalid) \<and>
     (\<exists>row. submissions d' = submissions d1 @ [row] \<and> sb_id row = sm_id v \<and> sb_task row = sc_task c \<and>
        sb_user row = sc_submitter c \<and> sb_state row = sm_state v \<and> jsonb_text e (sc_response c) = Some (sb_response row)) \<and>
     submission_attachments d' = submission_attachments d1 @ attachmentRows (sm_id v) (sc_attachments c) \<and>
     submission_validation_errors d' = submission_validation_errors d1 @ validationErrorRows (sm_id v) (validationOutcome s w) \<and>
     submission_sensitive_fields d' = submission_sensitive_fields d1 @ sensitiveFieldRows (sm_id v) (sensitiveFieldsFor s w) \<and>
     task_reservations d' = (if conforms s w
       then updateWhere (ownActiveReservation c) (rv_state_update (\<lambda>_. ReservationStateSubmitted)) (task_reservations d1)
       else task_reservations d1) \<and> tasks d' = tasks d1"

lemma filed_sel:
  assumes "books d' = filed i ri h c st out sf now response (books d)"
  shows "submissions d' = submissions d @ [submissionColumns i c st now response]" "tasks d' = tasks d"
    "task_reservations d' = (if st \<noteq> SubmissionStateInvalid
       then updateWhere (ownActiveReservation c) (rv_state_update (\<lambda>_. ReservationStateSubmitted)) (task_reservations d)
       else task_reservations d)"
    "submission_attachments d' = submission_attachments d @ attachmentRows i (sc_attachments c)"
    "submission_validation_errors d' = submission_validation_errors d @ validationErrorRows i out"
    "submission_sensitive_fields d' = submission_sensitive_fields d @ sensitiveFieldRows i sf"
  using arg_cong [OF assms, of submissions] arg_cong [OF assms, of tasks] arg_cong [OF assms, of task_reservations]
    arg_cong [OF assms, of submission_attachments] arg_cong [OF assms, of submission_validation_errors]
    arg_cong [OF assms, of submission_sensitive_fields]
  by (simp_all add: filed_def)

lemma Submit_recorded:
  assumes "Submit unmarshal origin c e n d = (SubmissionCreated v tok, n', d')"
  shows "\<exists>r s w d1 budget. admitted unmarshal origin c d d1 r s w budget \<and> recorded e c s w v d1 d' \<and> charged e budget d1 d'"
  using assms
proof (rule Submit_admitted)
  fix r s w d1 n1 budget
  assume adm: "admitted unmarshal origin c d d1 r s w budget"
    and "recordSubmission (c\<lparr>sc_budget := budget\<rparr>) (tk_created_by r) s w e n1 d1 = (SubmissionCreated v tok, n', d')"
  from this(2) have "recorded e c s w v d1 d' \<and> charged e budget d1 d'"
  proof (rule recordSubmission_created)
    fix i ri draft m k
    assume "CreateSubmission i ri (ReceiptTokenHash e tok) (c\<lparr>sc_budget := budget, sc_draft := draft\<rparr>)
        (StateForValidation (validationOutcome s w)) (validationOutcome s w) (sensitiveFieldsFor s w) e k d1 =
      (CreateSubmissionStoreAccepted v, n', d')"
    then show "recorded e c s w v d1 d' \<and> charged e budget d1 d'"
    proof (rule CreateSubmission_filed)
      fix m' response name
      assume json: "jsonb_text e (sc_response (c\<lparr>sc_budget := budget, sc_draft := draft\<rparr>)) = Some response"
        and charge: "charged e (sc_budget (c\<lparr>sc_budget := budget, sc_draft := draft\<rparr>)) d1 d'"
        and d': "books d' = filed i ri (ReceiptTokenHash e tok) (c\<lparr>sc_budget := budget, sc_draft := draft\<rparr>)
          (StateForValidation (validationOutcome s w)) (validationOutcome s w) (sensitiveFieldsFor s w) (clock e m') response (books d1)"
        and v: "v = filedSubmission i (c\<lparr>sc_budget := budget, sc_draft := draft\<rparr>) (StateForValidation (validationOutcome s w))
          (validationOutcome s w) (sensitiveFieldsFor s w) (clock e m') name"
      have "ownActiveReservation (c\<lparr>sc_budget := budget, sc_draft := draft\<rparr>) = ownActiveReservation c"
        by (simp add: ownActiveReservation_def fun_eq_iff)
      then show ?thesis
        using filed_sel [OF d'] json charge by (simp add: recorded_def v filedSubmission_def validation_state submissionColumns_sel)
    qed
  qed
  with adm show ?thesis by blast
qed

lemma FindTask_quiet: "\<lbrakk>quiet e; filter (\<lambda>r. tk_id r = t) (tasks d) = [r]\<rbrakk> \<Longrightarrow> fst (FindTask t e n d) = FindTaskStoreAccepted r"
  by (simp add: FindTask_def readN_def run_rules quiet_def)

lemma redacted_quiet:
  assumes "quiet e" "filter (\<lambda>r. tk_id r = sm_task x) (tasks d) = [r]"
    "parseResponse unmarshal (tk_response_schema r) (sm_response x) = Inr (s, w)"
  shows "fst (redactedSubmission unmarshal x e n d) = Inr (x\<lparr>sm_response := EncodeValueJSON (RedactSensitive s w)\<rparr>)"
proof -
  have "ParseValueJSON (sm_response x) = Inr w" using assms(3) by (auto simp: parseResponse_def split: sum.splits)
  from ParseValueJSON_fits [OF this] have "portable (RedactSensitive s w)"
    unfolding RedactSensitive_def using redact_fits(1) [of 0 w s] by (simp add: fits_def)
  then show ?thesis
    using FindTask_quiet [OF assms(1,2), of n] assms(3)
    by (auto simp: redactedSubmission_def encode_source split: prod.split FindTaskStoreResult.splits)
qed


lemma submit_receipt:
  assumes run: "Submit unmarshal origin c e n d = (SubmissionCreated v tok, n', d')"
    and ok: "attached_ok d" "ids_ok d" and quiet: "quiet e" and attachments: "\<forall>a \<in> set (sc_attachments c). valid_attachment a"
    and json: "jsonb_text e (sc_response c) = Some response" "NewResponseSource response = Inr response"
      "ParseValueJSON response = Inr stored"
  shows "\<exists>r s. filter (\<lambda>r. tk_id r = sc_task c) (tasks d) = [r] \<and> ParseSchemaJSON unmarshal (tk_response_schema r) = Inr s \<and>
     ParseReceiptTokenPlain tok = Inr tok \<and>
     fst (FindByReceipt unmarshal tok e k d') = Inr (v\<lparr>sm_response := EncodeValueJSON (RedactSensitive s stored)\<rparr>)"
  using run
proof (rule Submit_admitted)
  fix r s w d1 n1 budget
  assume adm: "admitted unmarshal origin c d d1 r s w budget"
    and rec: "recordSubmission (c\<lparr>sc_budget := budget\<rparr>) (tk_created_by r) s w e n1 d1 = (SubmissionCreated v tok, n', d')"
  from adm have row: "filter (\<lambda>r. tk_id r = sc_task c) (tasks d) = [r]" and same: "work d1 = work d"
    and schema: "ParseSchemaJSON unmarshal (tk_response_schema r) = Inr s" by (simp_all add: admitted_def)
  from same ok have ok1: "attached_ok d1" "ids_ok d1" using attached_cong [of d1 d] by (simp_all add: work_eq)
  from rec show ?thesis
  proof (rule recordSubmission_created)
    fix i ri draft m k'
    let ?c = "c\<lparr>sc_budget := budget, sc_draft := draft\<rparr>"
    assume tok: "NewReceiptTokenPlain e m = Inr tok"
      and create: "CreateSubmission i ri (ReceiptTokenHash e tok) ?c (StateForValidation (validationOutcome s w)) (validationOutcome s w)
        (sensitiveFieldsFor s w) e k' d1 = (CreateSubmissionStoreAccepted v, n', d')"
    have "fileable ?c (validationOutcome s w) (sensitiveFieldsFor s w)" using attachments by (intro service_fileable) simp
    from receipt_found [OF create ok1 this quiet _ json(2)] json(1)
    have found: "fst (FindByReceiptToken (ReceiptTokenHash e tok) e k d') = Inr (v\<lparr>sm_response := response\<rparr>)" by simp
    have "tasks d' = tasks d" "sm_task v = sc_task c"
      using Submit_recorded [OF run] by (auto simp: admitted_def recorded_def work_eq)
    with row have "filter (\<lambda>r. tk_id r = sm_task (v\<lparr>sm_response := response\<rparr>)) (tasks d') = [r]" by simp
    moreover have "parseResponse unmarshal (tk_response_schema r) (sm_response (v\<lparr>sm_response := response\<rparr>)) = Inr (s, stored)"
      using schema json(3) by (simp add: parseResponse_def)
    ultimately have "fst (redactedSubmission unmarshal (v\<lparr>sm_response := response\<rparr>) e k2 d') =
        Inr (v\<lparr>sm_response := EncodeValueJSON (RedactSensitive s stored)\<rparr>)" for k2
      using redacted_quiet [OF quiet] by fastforce
    with found have "fst (FindByReceipt unmarshal tok e k d') = Inr (v\<lparr>sm_response := EncodeValueJSON (RedactSensitive s stored)\<rparr>)"
      by (cases "FindByReceiptToken (ReceiptTokenHash e tok) e k d'") (simp add: FindByReceipt_def)
    with row schema issued_token_parses [OF tok] show ?thesis by blast
  qed
qed

text \<open>What the schema marks for redaction does not reach the holder of a receipt.\<close>

lemma redacted_hides:
  assumes "filter (\<lambda>r. tk_id r = sm_task x) (tasks d) = [r]" "ParseSchemaJSON unmarshal (tk_response_schema r) = Inr s"
    "ParseValueJSON (sm_response x) = Inr v" "ParseValueJSON response = Inr v'" "agree s v v'"
  shows "redactedSubmission unmarshal x e n d = redactedSubmission unmarshal (x\<lparr>sm_response := response\<rparr>) e n d"
proof -
  obtain found n' where run: "FindTask (sm_task x) e n d = (found, n')" by fastforce
  have "RedactSensitive s v = RedactSensitive s v'"
    using assms(5) redact_noninterference by (simp add: RedactSensitive_def)
  then show ?thesis
    using assms FindTask_found [of "sm_task x" e n d _ n'] run
    by (cases found) (auto simp: redactedSubmission_def parseResponse_def split: sum.split)
qed

lemma team_visibility_denies:
  assumes "tk_visibility r = TeamVisibility t" "tk_created_by r \<noteq> u"
  shows "requireViewPermission u r e n d = (Some viewDenied, n)"
  using assms by (simp add: requireViewPermission_def)


end
