(* ===== verification/TaskService.thy ===== *)
theory TaskService
  imports SubmissionService
begin

text \<open>
  \<open>internal/task/service.go\<close> over the task store, and the team reads of
  \<open>internal/org/service.go\<close> and \<open>internal/db/org_store.go\<close> it relies on: who owns a task and may
  change its state, who may see it, reserve it and cancel a reservation.  The issuer of worker
  credentials is an interface of the package and a parameter here; the dispatch of recorded
  events after the commit changes no table of the model.
\<close>

section \<open>Teams\<close>

datatype TeamOwner = OrganizationOwnedTeam OrganizationID | UserOwnedTeam UserID

record Team =
  te_id :: TeamID
  te_owner :: TeamOwner
  te_name :: string
  te_created_by :: UserID

definition ParseTeamID :: "env \<Rightarrow> string \<Rightarrow> TeamID result" where
  "ParseTeamID e raw = fromIDResult (uuid_parse e raw)"

definition ParseOrganizationID :: "env \<Rightarrow> string \<Rightarrow> OrganizationID result" where
  "ParseOrganizationID e raw = fromIDResult (uuid_parse e raw)"

definition NewTeamName :: "string \<Rightarrow> string result" where
  "NewTeamName raw =
     (let trimmed = TrimSpace raw in
      if length trimmed < 2 then Inl (NewDomainError ErrorCodeInvalidArgument ''team name must contain at least 2 characters'')
      else if length trimmed > 120
      then Inl (NewDomainError ErrorCodeInvalidArgument ''team name must contain at most 120 characters'')
      else Inr trimmed)"

definition parseTeamOwner :: "env \<Rightarrow> team_row \<Rightarrow> TeamOwner result" where
  "parseTeamOwner e r =
     (case tm_owner_kind r of
        TeamOwnerKindOrganization \<Rightarrow>
          (case ParseOrganizationID e (case tm_organization r of None \<Rightarrow> '''' | Some i \<Rightarrow> i) of
             Inl reason \<Rightarrow> Inl reason | Inr i \<Rightarrow> Inr (OrganizationOwnedTeam i))
      | TeamOwnerKindUser \<Rightarrow>
          (case ParseUserID e (case tm_owner_user r of None \<Rightarrow> '''' | Some u \<Rightarrow> u) of
             Inl reason \<Rightarrow> Inl reason | Inr u \<Rightarrow> Inr (UserOwnedTeam u)))"

definition parseTeamRow :: "env \<Rightarrow> team_row \<Rightarrow> Team result" where
  "parseTeamRow e r =
     (case ParseTeamID e (tm_id r) of Inl reason \<Rightarrow> Inl reason | Inr i \<Rightarrow>
     (case NewTeamName (tm_name r) of Inl reason \<Rightarrow> Inl reason | Inr name \<Rightarrow>
     (case ParseUserID e (tm_created_by r) of Inl reason \<Rightarrow> Inl reason | Inr creator \<Rightarrow>
     (case parseTeamOwner e r of Inl reason \<Rightarrow> Inl reason | Inr owner \<Rightarrow>
        Inr \<lparr>te_id = i, te_owner = owner, te_name = name, te_created_by = creator\<rparr>))))"

datatype FindTeamResult = TeamFound Team | TeamMissing DomainError

definition FindTeam :: "TeamID \<Rightarrow> env \<Rightarrow> nat \<Rightarrow> db \<Rightarrow> FindTeamResult \<times> nat" where
  "FindTeam teamID = readN
     (bindT (queryT (TeamMissing (invalidState ''find team failed'')) (\<lambda>d. rowWhere (\<lambda>r. tm_id r = teamID) (teams d)))
     (\<lambda>row. case row of
        None \<Rightarrow> raiseT (TeamMissing (NewDomainError ErrorCodeNotFound ''team not found''))
      | Some r \<Rightarrow> bindT (askT (\<lambda>e n. parseTeamRow e r))
          (\<lambda>parsed. case parsed of Inl reason \<Rightarrow> retT (TeamMissing reason) | Inr value \<Rightarrow> retT (TeamFound value))))"

datatype TeamMembersResult = TeamMembersListed "UserID list" | TeamMembersRejected DomainError

text \<open>The order of the members, which no caller looks at, is that of the table.\<close>

definition ListTeamMembers :: "TeamID \<Rightarrow> env \<Rightarrow> nat \<Rightarrow> db \<Rightarrow> TeamMembersResult \<times> nat" where
  "ListTeamMembers teamID = readN
     (bindT (liftT TeamMembersRejected (scanT (invalidState ''list team members failed'')
          (invalidState ''scan team member failed'') (invalidState ''read team members failed'')
          (\<lambda>d. map snd (filter (\<lambda>(t, u). t = teamID) (team_members d))) (parseT ParseUserID)))
     (\<lambda>values. retT (TeamMembersListed values)))"

definition CheckTeamMembership :: "TeamID \<Rightarrow> UserID \<Rightarrow> env \<Rightarrow> nat \<Rightarrow> db \<Rightarrow> PermissionCheck \<times> nat" where
  "CheckTeamMembership teamID userID e n d =
     (case ListTeamMembers teamID e n d of
        (TeamMembersRejected reason, n1) \<Rightarrow> (PermissionDenied reason, n1)
      | (TeamMembersListed values, n1) \<Rightarrow>
          (if userID \<in> set values then PermissionGranted
           else PermissionDenied (NewDomainError ErrorCodePermissionDenied ''team membership denied''), n1))"

definition CheckOrganizationTeamMembership ::
  "OrganizationID \<Rightarrow> TeamID \<Rightarrow> UserID \<Rightarrow> env \<Rightarrow> nat \<Rightarrow> db \<Rightarrow> PermissionCheck \<times> nat" where
  "CheckOrganizationTeamMembership organizationID teamID userID e n d =
     (case FindTeam teamID e n d of
        (TeamMissing reason, n1) \<Rightarrow> (PermissionDenied reason, n1)
      | (TeamFound found, n1) \<Rightarrow>
          if te_owner found \<noteq> OrganizationOwnedTeam organizationID
          then (PermissionDenied (NewDomainError ErrorCodePermissionDenied ''organization team access denied''), n1)
          else (case ListTeamMembers teamID e n1 d of
             (TeamMembersRejected reason, n2) \<Rightarrow> (PermissionDenied reason, n2)
           | (TeamMembersListed values, n2) \<Rightarrow>
               (if userID \<in> set values then PermissionGranted
                else PermissionDenied (NewDomainError ErrorCodePermissionDenied ''organization team membership denied''), n2)))"

definition canViewTeam :: "Subject \<Rightarrow> Team \<Rightarrow> UserID list \<Rightarrow> env \<Rightarrow> nat \<Rightarrow> db \<Rightarrow> bool \<times> nat" where
  "canViewTeam actor team members e n d =
     (case actor of
        OrgSubject _ \<Rightarrow> (case te_owner team of OrganizationOwnedTeam i \<Rightarrow> Check actor i = Match | _ \<Rightarrow> False, n)
      | GuestSubject _ \<Rightarrow> (False, n)
      | UserSubject u \<Rightarrow>
          if u \<in> set members then (True, n)
          else case te_owner team of
            UserOwnedTeam v \<Rightarrow> (v = u, n)
          | OrganizationOwnedTeam i \<Rightarrow>
              (case FindMemberRoles i u e n d of (found, n') \<Rightarrow>
                 (case found of MemberRolesFound _ \<Rightarrow> True | _ \<Rightarrow> False, n')))"

definition GetTeam :: "Subject \<Rightarrow> TeamID \<Rightarrow> env \<Rightarrow> nat \<Rightarrow> db \<Rightarrow> (Team \<times> UserID list) result \<times> nat" where
  "GetTeam actor teamID e n d =
     (case FindTeam teamID e n d of
        (TeamMissing reason, n1) \<Rightarrow> (Inl reason, n1)
      | (TeamFound found, n1) \<Rightarrow>
     (case ListTeamMembers teamID e n1 d of
        (TeamMembersRejected reason, n2) \<Rightarrow> (Inl reason, n2)
      | (TeamMembersListed values, n2) \<Rightarrow>
     (case canViewTeam actor found values e n2 d of
        (False, n3) \<Rightarrow> (Inl (NewDomainError ErrorCodePermissionDenied ''team access denied''), n3)
      | (True, n3) \<Rightarrow> (Inr (found, values), n3))))"

section \<open>Permissions\<close>

text \<open>A decision of \<open>authz.RequireOrganizationAccess\<close>, and the calls it took.\<close>

definition organizationAccess ::
  "Subject \<Rightarrow> OrganizationID \<Rightarrow> Permission \<Rightarrow> string \<Rightarrow> env \<Rightarrow> nat \<Rightarrow> db \<Rightarrow> DomainError option \<times> nat" where
  "organizationAccess actor organizationID permission deniedReason e n d =
     (case RequireOrganizationAccess actor organizationID (\<lambda>i u p. fst (CheckOrganizationPermission i u p e n d))
             permission ErrorCodePermissionDenied deniedReason of
        Denied reason \<Rightarrow> Some reason | Granted \<Rightarrow> None,
      case actor of UserSubject u \<Rightarrow> snd (CheckOrganizationPermission organizationID u permission e n d) | _ \<Rightarrow> n)"

fun organizationIDForOwner :: "Owner \<Rightarrow> OrganizationID option" where
  "organizationIDForOwner (OrganizationOwner i) = Some i"
| "organizationIDForOwner (OrganizationTeamOwner i _) = Some i"
| "organizationIDForOwner _ = None"

definition ownerDenied :: DomainError where
  "ownerDenied = NewDomainError ErrorCodePermissionDenied ''task owner access denied''"

definition requireOwnerPermission :: "Subject \<Rightarrow> Owner \<Rightarrow> env \<Rightarrow> nat \<Rightarrow> db \<Rightarrow> DomainError option \<times> nat" where
  "requireOwnerPermission actor owner e n d =
     (case actor of
        OrgSubject i \<Rightarrow> (if organizationIDForOwner owner = Some i then None else Some ownerDenied, n)
      | GuestSubject _ \<Rightarrow> (Some ownerDenied, n)
      | UserSubject u \<Rightarrow>
          (case owner of
             UserOwner v \<Rightarrow> (if v \<noteq> u then Some ownerDenied else None, n)
           | OrganizationOwner i \<Rightarrow>
               organizationAccess actor i PermissionCreateOrganizationTask ''task owner access denied'' e n d
           | OrganizationTeamOwner i _ \<Rightarrow>
               organizationAccess actor i PermissionCreateOrganizationTask ''task owner access denied'' e n d
           | TeamOwner _ \<Rightarrow> (Some (NewDomainError ErrorCodePermissionDenied
               ''team-owned tasks require organization ownership in this release''), n)))"

definition requireVisibilityPermission ::
  "UserID \<Rightarrow> Owner \<Rightarrow> Visibility \<Rightarrow> env \<Rightarrow> nat \<Rightarrow> db \<Rightarrow> DomainError option \<times> nat" where
  "requireVisibilityPermission actor owner visibility e n d =
     (if visibility = PublicVisibility then
        (case organizationIDForOwner owner of
           None \<Rightarrow> (None, n)
         | Some i \<Rightarrow> (case CheckOrganizationPermission i actor PermissionPublishPublicTask e n d of
             (PermissionDenied reason, n') \<Rightarrow> (Some reason, n') | (PermissionGranted, n') \<Rightarrow> (None, n')))
      else (None, n))"

definition Task_requireViewPermission :: "Subject \<Rightarrow> task_row \<Rightarrow> env \<Rightarrow> nat \<Rightarrow> db \<Rightarrow> DomainError option \<times> nat" where
  "Task_requireViewPermission actor value e n d =
     (let own = (case actor of
            OrgSubject i \<Rightarrow> organizationIDForTask value = Some i
          | UserSubject u \<Rightarrow> tk_created_by value = u
          | GuestSubject _ \<Rightarrow> False) in
      case actor of
        GuestSubject _ \<Rightarrow> (Some viewDenied, n)
      | _ \<Rightarrow>
          if own then (None, n)
          else case tk_visibility value of
            PublicVisibility \<Rightarrow> (None, n)
          | UserVisibility u \<Rightarrow> (if actor = UserSubject u then None else Some viewDenied, n)
          | OrganizationVisibility i \<Rightarrow>
              organizationAccess actor i PermissionCreateOrganizationTask ''task view access denied'' e n d
          | OrganizationTeamVisibility i _ \<Rightarrow>
              organizationAccess actor i PermissionCreateOrganizationTask ''task view access denied'' e n d
          | TeamVisibility _ \<Rightarrow> (Some viewDenied, n))"

datatype ListScope =
    PublicListScope UserID bool
  | UserListScope UserID bool
  | OrganizationListScope OrganizationID UserID bool
  | TeamListScope TeamID bool
  | CreatorListScope UserID
  | AssigneeListScope UserID

definition requireListPermission :: "Subject \<Rightarrow> ListScope \<Rightarrow> env \<Rightarrow> nat \<Rightarrow> db \<Rightarrow> DomainError option \<times> nat" where
  "requireListPermission actor scope e n d =
     (case scope of
        PublicListScope _ _ \<Rightarrow> (None, n)
      | UserListScope u _ \<Rightarrow>
          (if actor = UserSubject u then None
           else Some (NewDomainError ErrorCodePermissionDenied ''task list access denied''), n)
      | OrganizationListScope i _ _ \<Rightarrow>
          organizationAccess actor i PermissionCreateOrganizationTask ''task list access denied'' e n d
      | TeamListScope t _ \<Rightarrow>
          (case GetTeam actor t e n d of (Inl reason, n') \<Rightarrow> (Some reason, n') | (Inr _, n') \<Rightarrow> (None, n'))
      | CreatorListScope _ \<Rightarrow> (None, n)
      | AssigneeListScope _ \<Rightarrow> (None, n))"

section \<open>State changes\<close>

fun eventActor :: "Subject \<Rightarrow> Actor" where
  "eventActor (UserSubject u) = ActorUser u"
| "eventActor _ = ActorSystem"

definition taskEventDraft ::
  "Kind \<Rightarrow> Actor \<Rightarrow> TaskID \<Rightarrow> Metadata \<Rightarrow> UserID list \<Rightarrow> env \<Rightarrow> nat \<Rightarrow> db \<Rightarrow> Draft result \<times> nat" where
  "taskEventDraft kind actor taskID metadata recipients = readN (tryT
     (NewDraft kind actor (NoSubjectRefs\<lparr>sj_task := Some taskID\<rparr>) metadata recipients))"

definition reservationEventDraft ::
  "Kind \<Rightarrow> Actor \<Rightarrow> TaskID \<Rightarrow> TaskReservationID \<Rightarrow> UserID list \<Rightarrow> env \<Rightarrow> nat \<Rightarrow> db \<Rightarrow> Draft result \<times> nat" where
  "reservationEventDraft kind actor taskID reservationID recipients = readN (tryT
     (NewDraft kind actor (NoSubjectRefs\<lparr>sj_task := Some taskID, sj_reservation := Some reservationID\<rparr>)
        (TaskMetadata taskID) recipients))"

text \<open>
  A task read by the service is parsed, its owner included.  The check constraint on the owner
  columns leaves no row whose owner does not parse.
\<close>

definition findOwnedTask :: "TaskID \<Rightarrow> env \<Rightarrow> nat \<Rightarrow> db \<Rightarrow> (task_row \<times> Owner) result \<times> nat" where
  "findOwnedTask taskID e n d =
     (case FindTask taskID e n d of
        (FindTaskStoreRejected reason, n') \<Rightarrow> (Inl reason, n')
      | (FindTaskStoreAccepted value, n') \<Rightarrow>
          (case ownerOf value of
             None \<Rightarrow> Inl (NewDomainError ErrorCodeInvalidState ''task owner is invalid'')
           | Some owner \<Rightarrow> Inr (value, owner), n'))"

datatype CreateResult = TaskCreated task_row | CreateRejected DomainError

definition NewTaskID :: "env \<Rightarrow> nat \<Rightarrow> TaskID result" where
  "NewTaskID e n = fromIDResult (uuid_new e n)"

definition NewTaskSeriesID :: "env \<Rightarrow> nat \<Rightarrow> TaskSeriesID result" where
  "NewTaskSeriesID e n = fromIDResult (uuid_new e n)"

definition NewTaskReservationID :: "env \<Rightarrow> nat \<Rightarrow> TaskReservationID result" where
  "NewTaskReservationID e n = fromIDResult (uuid_new e n)"

definition Create :: "CreateCommand \<Rightarrow> env \<Rightarrow> nat \<Rightarrow> db \<Rightarrow> CreateResult \<times> db" where
  "Create command e n d =
     (case requireOwnerPermission (UserSubject (cc_actor command)) (cc_owner command) e n d of
        (Some reason, n1) \<Rightarrow> (CreateRejected reason, d)
      | (None, n1) \<Rightarrow>
     (case requireVisibilityPermission (cc_actor command) (cc_owner command) (cc_visibility command) e n1 d of
        (Some reason, n2) \<Rightarrow> (CreateRejected reason, d)
      | (None, n2) \<Rightarrow>
     (case NewTaskID e n2 of Inl reason \<Rightarrow> (CreateRejected reason, d) | Inr taskID \<Rightarrow>
     (case NewTaskSeriesID e (Suc n2) of Inl reason \<Rightarrow> (CreateRejected reason, d) | Inr seriesID \<Rightarrow>
     (case CreateTask seriesID taskID command e (Suc (Suc n2)) d of
        (CreateTaskStoreAccepted value, d') \<Rightarrow> (TaskCreated value, d')
      | (CreateTaskStoreRejected reason, d') \<Rightarrow> (CreateRejected reason, d'))))))"

datatype ChangeStateResult = TaskStateChanged task_row | ChangeStateRejected DomainError

definition changeState ::
  "Subject \<Rightarrow> TaskID \<Rightarrow> (TaskState \<Rightarrow> TaskState result) \<Rightarrow> Plan \<Rightarrow> env \<Rightarrow> nat \<Rightarrow> db \<Rightarrow> ChangeStateResult \<times> db" where
  "changeState actor taskID transition plan e n d =
     (case findOwnedTask taskID e n d of
        (Inl reason, n1) \<Rightarrow> (ChangeStateRejected reason, d)
      | (Inr (value, owner), n1) \<Rightarrow>
     (case requireOwnerPermission actor owner e n1 d of
        (Some reason, n2) \<Rightarrow> (ChangeStateRejected reason, d)
      | (None, n2) \<Rightarrow>
     (case transition (tk_state value) of
        Inl reason \<Rightarrow> (ChangeStateRejected reason, d)
      | Inr state \<Rightarrow>
     (case ChangeTaskState taskID state plan e n2 d of
        (ChangeTaskStateStoreAccepted after drafts, d') \<Rightarrow> (TaskStateChanged after, d')
      | (ChangeTaskStateStoreRejected reason, d') \<Rightarrow> (ChangeStateRejected reason, d')))))"

definition changeStateRecorded ::
  "Kind \<Rightarrow> (TaskState \<Rightarrow> TaskState result) \<Rightarrow> Subject \<Rightarrow> TaskID \<Rightarrow> env \<Rightarrow> nat \<Rightarrow> db \<Rightarrow> ChangeStateResult \<times> db" where
  "changeStateRecorded kind transition actor taskID e n d =
     (case taskEventDraft kind (eventActor actor) taskID (TaskMetadata taskID)
             (NewRecipients [ActorUserID (eventActor actor)]) e n d of
        (Inl reason, n1) \<Rightarrow> (ChangeStateRejected reason, d)
      | (Inr draft, n1) \<Rightarrow> changeState actor taskID transition (Record draft) e n1 d)"

definition Open :: "Subject \<Rightarrow> TaskID \<Rightarrow> env \<Rightarrow> nat \<Rightarrow> db \<Rightarrow> ChangeStateResult \<times> db" where
  "Open = changeStateRecorded KindTaskOpened OpenState"

definition Cancel :: "Subject \<Rightarrow> TaskID \<Rightarrow> env \<Rightarrow> nat \<Rightarrow> db \<Rightarrow> ChangeStateResult \<times> db" where
  "Cancel = changeStateRecorded KindTaskCancelled CancelState"

definition Unpublish :: "Subject \<Rightarrow> TaskID \<Rightarrow> env \<Rightarrow> nat \<Rightarrow> db \<Rightarrow> ChangeStateResult \<times> db" where
  "Unpublish actor taskID = changeState actor taskID UnpublishState NoEvent"

definition Task_Get :: "Subject \<Rightarrow> TaskID \<Rightarrow> env \<Rightarrow> nat \<Rightarrow> db \<Rightarrow> task_row result \<times> nat" where
  "Task_Get actor taskID e n d =
     (case findOwnedTask taskID e n d of
        (Inl reason, n1) \<Rightarrow> (Inl reason, n1)
      | (Inr (value, _), n1) \<Rightarrow>
          (case Task_requireViewPermission actor value e n1 d of
             (Some reason, n2) \<Rightarrow> (Inl reason, n2) | (None, n2) \<Rightarrow> (Inr value, n2)))"

section \<open>Reserving\<close>

definition reservationOriginFor :: "WorkerOrigin \<Rightarrow> TaskType \<Rightarrow> RewardSpec \<Rightarrow> ReservationOrigin result" where
  "reservationOriginFor origin type reward = (case origin of
     WorkerIsUser \<Rightarrow> Inr ReservedByUserSession
   | WorkerViaTaskCredential _ \<Rightarrow> Inl (NewDomainError ErrorCodePermissionDenied
       ''a task-scoped worker credential cannot reserve tasks; it works within the reservation it was issued for'')
   | WorkerViaCredential credentialID policy \<Rightarrow>
       (case policy of
          CredentialWorkDisabled \<Rightarrow> Inl (NewDomainError ErrorCodePermissionDenied
            ''agent credential is not enabled for work-seeking; its owner must enable it with a work budget'')
        | CredentialWorkEnabled budget \<Rightarrow>
            (case checkWorkPolicyAgainstTask budget type reward of
               Some problem \<Rightarrow> Inl problem
             | None \<Rightarrow> Inr (ReservedViaWorkCredential credentialID (DailyTaskLimit budget) (Concurrent budget)))))"

text \<open>The secret is empty when no issuer is configured or the issuer fails.\<close>

type_synonym issuer = "UserID \<Rightarrow> TaskID \<Rightarrow> string option"

definition issueWorkerCredential :: "issuer \<Rightarrow> UserID \<Rightarrow> TaskID \<Rightarrow> string" where
  "issueWorkerCredential issuer owner taskID = (case issuer owner taskID of None \<Rightarrow> '''' | Some secret \<Rightarrow> secret)"

datatype ReservationResult = ReservationCreated reservation_row string | ReservationRejected DomainError

definition reserve ::
  "issuer \<Rightarrow> UserID \<Rightarrow> WorkerOrigin \<Rightarrow> TaskID \<Rightarrow> Assignee \<Rightarrow> AssigneeScope \<Rightarrow> string \<Rightarrow> env \<Rightarrow> nat \<Rightarrow> db
    \<Rightarrow> ReservationResult \<times> db" where
  "reserve issuer actor origin taskID assignee requiredScope wrongScopeMessage e n d =
     (case findOwnedTask taskID e n d of
        (Inl reason, n1) \<Rightarrow> (ReservationRejected reason, d)
      | (Inr (value, _), n1) \<Rightarrow>
     (case rewardOf d value of Inl reason \<Rightarrow> (ReservationRejected reason, d) | Inr reward \<Rightarrow>
      if tk_state value \<noteq> StateOpen then (ReservationRejected (conflict ''only open tasks can be reserved''), d)
      else if tk_assignee_scope value \<noteq> requiredScope then (ReservationRejected (conflict wrongScopeMessage), d)
      else case Task_requireViewPermission (UserSubject actor) value e n1 d of
        (Some reason, n2) \<Rightarrow> (ReservationRejected reason, d)
      | (None, n2) \<Rightarrow>
      if tk_created_by value = actor
      then (ReservationRejected (conflict ''task requester cannot reserve their own task''), d)
      else (case reservationOriginFor origin (tk_type value) reward of
        Inl reason \<Rightarrow> (ReservationRejected reason, d)
      | Inr reservationOrigin \<Rightarrow>
     (case NewTaskReservationID e n2 of Inl reason \<Rightarrow> (ReservationRejected reason, d) | Inr reservationID \<Rightarrow>
     (case reservationEventDraft KindReservationRequested (ActorUser actor) taskID reservationID
             (NewRecipients [tk_created_by value, actor]) e (Suc n2) d of
        (Inl reason, n3) \<Rightarrow> (ReservationRejected reason, d)
      | (Inr draft, n3) \<Rightarrow>
     (case CreateReservation reservationID \<lparr>rc_task = taskID, rc_assignee = assignee, rc_requested_by = actor,
             rc_origin = reservationOrigin, rc_draft = draft\<rparr> e n3 d of
        (CreateReservationStoreAccepted created, d') \<Rightarrow>
          (ReservationCreated created (issueWorkerCredential issuer (rv_requested_by created) taskID), d')
      | (CreateReservationStoreRejected reason, d') \<Rightarrow> (ReservationRejected reason, d')))))))"

definition Reserve :: "issuer \<Rightarrow> UserID \<Rightarrow> WorkerOrigin \<Rightarrow> TaskID \<Rightarrow> env \<Rightarrow> nat \<Rightarrow> db \<Rightarrow> ReservationResult \<times> db" where
  "Reserve issuer actor origin taskID =
     reserve issuer actor origin taskID (UserAssignee actor) AssigneeScopeUser ''this task does not accept user reservations''"

definition ReserveForOrganizationTeam ::
  "issuer \<Rightarrow> UserID \<Rightarrow> WorkerOrigin \<Rightarrow> TaskID \<Rightarrow> OrganizationID \<Rightarrow> TeamID \<Rightarrow> env \<Rightarrow> nat \<Rightarrow> db \<Rightarrow> ReservationResult \<times> db" where
  "ReserveForOrganizationTeam issuer actor origin taskID organizationID teamID e n d =
     (case CheckOrganizationTeamMembership organizationID teamID actor e n d of
        (PermissionDenied reason, n1) \<Rightarrow> (ReservationRejected reason, d)
      | (PermissionGranted, n1) \<Rightarrow>
          reserve issuer actor origin taskID (OrganizationTeamAssignee organizationID teamID) AssigneeScopeOrganizationTeam
            ''this task does not accept organization team reservations'' e n1 d)"

definition ReserveForTeam ::
  "issuer \<Rightarrow> UserID \<Rightarrow> WorkerOrigin \<Rightarrow> TaskID \<Rightarrow> TeamID \<Rightarrow> env \<Rightarrow> nat \<Rightarrow> db \<Rightarrow> ReservationResult \<times> db" where
  "ReserveForTeam issuer actor origin taskID teamID e n d =
     (case CheckTeamMembership teamID actor e n d of
        (PermissionDenied reason, n1) \<Rightarrow> (ReservationRejected reason, d)
      | (PermissionGranted, n1) \<Rightarrow>
          reserve issuer actor origin taskID (TeamAssignee teamID) AssigneeScopeTeam
            ''this task does not accept team reservations'' e n1 d)"

section \<open>Reservations of a task\<close>

datatype ListReservationsStoreResult =
  ListReservationsStoreAccepted "reservation_row list" | ListReservationsStoreRejected DomainError

text \<open>Newest first: rows are in insertion order, and their creation times do not decrease.\<close>

definition ListReservations ::
  "TaskID \<Rightarrow> Page \<Rightarrow> env \<Rightarrow> nat \<Rightarrow> db \<Rightarrow> ListReservationsStoreResult \<times> nat \<times> db" where
  "ListReservations taskID page e n d =
     (case releaseExpiredReservations e n d of (swept, n1, d1) \<Rightarrow>
      if \<not> swept
      then (ListReservationsStoreRejected (invalidState ''release expired reservations failed''), n1, d1)
      else case readN (bindT (queryT (ListReservationsStoreRejected (invalidState ''list reservations failed''))
               (\<lambda>d. sqlPage page (rev (filter (\<lambda>v. rv_task v = taskID) (task_reservations d)))))
             (\<lambda>values. retT (ListReservationsStoreAccepted values))) e n1 d1 of
        (res, n2) \<Rightarrow> (res, n2, d1))"

definition activeReservationHolders :: "TaskID \<Rightarrow> env \<Rightarrow> nat \<Rightarrow> db \<Rightarrow> UserID list \<times> nat \<times> db" where
  "activeReservationHolders taskID e n d =
     (case ListReservations taskID DefaultPage e n d of
        (ListReservationsStoreRejected _, n1, d1) \<Rightarrow> ([], n1, d1)
      | (ListReservationsStoreAccepted values, n1, d1) \<Rightarrow>
          (map rv_requested_by (filter (\<lambda>v. rv_state v \<in> {ReservationStateActive, ReservationStateSubmitted}) values), n1, d1))"

datatype ReservationStateChangeResult = ReservationStateChanged reservation_row | ReservationStateChangeRejected DomainError

definition holdsReservation :: "Subject \<Rightarrow> TaskReservationID \<Rightarrow> reservation_row list \<Rightarrow> bool" where
  "holdsReservation actor reservationID values \<longleftrightarrow>
     (\<exists>v \<in> set values. rv_id v = reservationID \<and> actor = UserSubject (rv_requested_by v))"

definition CancelReservation ::
  "Subject \<Rightarrow> TaskID \<Rightarrow> TaskReservationID \<Rightarrow> env \<Rightarrow> nat \<Rightarrow> db \<Rightarrow> ReservationStateChangeResult \<times> db" where
  "CancelReservation actor taskID reservationID e n d =
     (case findOwnedTask taskID e n d of
        (Inl reason, n1) \<Rightarrow> (ReservationStateChangeRejected reason, d)
      | (Inr (value, owner), n1) \<Rightarrow>
     (case ListReservations taskID DefaultPage e n1 d of
        (ListReservationsStoreRejected reason, n2, d1) \<Rightarrow> (ReservationStateChangeRejected reason, d1)
      | (ListReservationsStoreAccepted values, n2, d1) \<Rightarrow>
     (case (if holdsReservation actor reservationID values then (None, n2) else requireOwnerPermission actor owner e n2 d1) of
        (Some _, n3) \<Rightarrow> (ReservationStateChangeRejected (NewDomainError ErrorCodePermissionDenied
           ''only the task owner or the reservation holder can cancel this reservation''), d1)
      | (None, n3) \<Rightarrow>
     (case reservationEventDraft KindReservationCancelled (eventActor actor) taskID reservationID
             (NewRecipients [ActorUserID (eventActor actor)]) e n3 d1 of
        (Inl reason, n4) \<Rightarrow> (ReservationStateChangeRejected reason, d1)
      | (Inr draft, n4) \<Rightarrow>
     (case ChangeReservationState taskID reservationID
             (if holdsReservation actor reservationID values then ReservationStateCancelledByWorker
              else ReservationStateCancelledByRequester) (Record draft) e n4 d1 of
        (ChangeReservationStateStoreRejected reason, d2) \<Rightarrow> (ReservationStateChangeRejected reason, d2)
      | (ChangeReservationStateStoreAccepted after drafts, d2) \<Rightarrow>
          if rv_task after \<noteq> taskID
          then (ReservationStateChangeRejected (NewDomainError ErrorCodeNotFound ''reservation was not found for the task''), d2)
          else (ReservationStateChanged after, d2))))))"

definition Service_ListReservations ::
  "Subject \<Rightarrow> TaskID \<Rightarrow> Page \<Rightarrow> env \<Rightarrow> nat \<Rightarrow> db \<Rightarrow> reservation_row list result \<times> nat \<times> db" where
  "Service_ListReservations actor taskID page e n d =
     (case findOwnedTask taskID e n d of
        (Inl reason, n1) \<Rightarrow> (Inl reason, n1, d)
      | (Inr (value, owner), n1) \<Rightarrow>
     (case ListReservations taskID page e n1 d of
        (ListReservationsStoreRejected reason, n2, d1) \<Rightarrow> (Inl reason, n2, d1)
      | (ListReservationsStoreAccepted values, n2, d1) \<Rightarrow>
     (case requireOwnerPermission actor owner e n2 d1 of
        (None, n3) \<Rightarrow> (Inr values, n3, d1)
      | (Some _, n3) \<Rightarrow>
          (Inr (case actor of UserSubject u \<Rightarrow> filter (\<lambda>v. rv_requested_by v = u) values | _ \<Rightarrow> []), n3, d1))))"

section \<open>Who may do what\<close>

lemma fst_pair: "fst p = a \<Longrightarrow> p = (a, snd p)"
  by (cases p) simp

text \<open>The permissions as predicates on the tables.\<close>

definition mayActFor :: "db \<Rightarrow> Subject \<Rightarrow> OrganizationID \<Rightarrow> Permission \<Rightarrow> bool" where
  "mayActFor d actor i p \<longleftrightarrow> actor = OrgSubject i \<or> (\<exists>u. actor = UserSubject u \<and> memberMay d i u p)"

definition mayOwn :: "db \<Rightarrow> Subject \<Rightarrow> Owner \<Rightarrow> bool" where
  "mayOwn d actor owner \<longleftrightarrow> (case owner of
     UserOwner u \<Rightarrow> actor = UserSubject u
   | OrganizationOwner i \<Rightarrow> mayActFor d actor i PermissionCreateOrganizationTask
   | OrganizationTeamOwner i _ \<Rightarrow> mayActFor d actor i PermissionCreateOrganizationTask
   | TeamOwner _ \<Rightarrow> False)"

lemma organizationAccess_granted:
  assumes "organizationAccess actor i p why e n d = (None, n')"
  shows "mayActFor d actor i p"
proof -
  have "memberMay d i u p" if "fst (CheckOrganizationPermission i u p e n d) = PermissionGranted" for u
    using FindMemberRoles_granted [OF fst_pair [OF that]] .
  with assms show ?thesis
    by (cases actor) (auto simp: organizationAccess_def mayActFor_def RequireOrganizationAccess_def Check_def
        split: Decision.splits PermissionCheck.splits if_splits)
qed

lemma requireOwner_granted:
  assumes "requireOwnerPermission actor owner e n d = (None, n')"
  shows "mayOwn d actor owner"
  using assms
  by (cases actor; cases owner)
     (auto simp: requireOwnerPermission_def mayOwn_def mayActFor_def split: if_splits dest!: organizationAccess_granted)

lemma findOwned_found:
  assumes "findOwnedTask t e n d = (Inr (r, owner), n')"
  shows "filter (\<lambda>r. tk_id r = t) (tasks d) = [r] \<and> ownerOf r = Some owner"
  using assms FindTask_found [of t e n d]
  by (auto simp: findOwnedTask_def split: prod.splits FindTaskStoreResult.splits option.splits)

section \<open>State changes follow the machine\<close>

lemma changeState_follows:
  assumes "changeState actor t transition plan e n d = (TaskStateChanged r, d')"
  shows "\<exists>r0 owner. filter (\<lambda>r. tk_id r = t) (tasks d) = [r0] \<and> ownerOf r0 = Some owner \<and> mayOwn d actor owner \<and>
     transition (tk_state r0) = Inr (tk_state r) \<and> r \<in> set (tasks d') \<and> tk_id r = t \<and> changed (tk_state r) t d'"
proof -
  from assms obtain r0 owner n1 n2 st ds where steps: "findOwnedTask t e n d = (Inr (r0, owner), n1)"
      "requireOwnerPermission actor owner e n1 d = (None, n2)" "transition (tk_state r0) = Inr st"
      "ChangeTaskState t st plan e n2 d = (ChangeTaskStateStoreAccepted r ds, d')"
    by (auto simp: changeState_def split: prod.splits sum.splits option.splits ChangeTaskStateStoreResult.splits)
  from findOwned_found [OF steps(1)] requireOwner_granted [OF steps(2)] ChangeTaskState_changed [OF steps(4)] steps(3)
  show ?thesis by auto
qed

lemma changeStateRecorded_changed:
  assumes "changeStateRecorded kind transition actor t e n d = (TaskStateChanged r, d')"
  obtains plan n' where "changeState actor t transition plan e n' d = (TaskStateChanged r, d')"
  using assms by (auto simp: changeStateRecorded_def split: prod.splits sum.splits)

lemma service_step:
  assumes "op \<in> {Open, Cancel, Unpublish}" "op actor t e n d = (TaskStateChanged r, d')"
  shows "\<exists>r0 owner. filter (\<lambda>r. tk_id r = t) (tasks d) = [r0] \<and> ownerOf r0 = Some owner \<and> mayOwn d actor owner \<and>
     task_step (tk_state r0) (tk_state r) \<and> r \<in> set (tasks d') \<and> tk_id r = t \<and> changed (tk_state r) t d'"
proof -
  obtain transition plan n' where tr: "transition \<in> {OpenState, CancelState, UnpublishState}"
    and run: "changeState actor t transition plan e n' d = (TaskStateChanged r, d')"
  proof -
    consider "op = Unpublish" | kind transition where "op = changeStateRecorded kind transition" "transition \<in> {OpenState, CancelState}"
      using assms(1) by (auto simp: Open_def Cancel_def)
    then show ?thesis
    proof cases
      case 1
      with assms(2) show ?thesis using that [of UnpublishState NoEvent n] by (simp add: Unpublish_def)
    next
      case 2
      with assms(2) have "changeStateRecorded kind transition actor t e n d = (TaskStateChanged r, d')" by simp
      with 2 show ?thesis using that by (auto elim!: changeStateRecorded_changed)
    qed
  qed
  from changeState_follows [OF run] tr show ?thesis by (metis insertE singletonD task_step.intros(1-3))
qed


section \<open>Cancelling a reservation\<close>

text \<open>What releasing and cancelling leave alone: who holds what, the tasks and the memberships.\<close>

definition bookings :: "db \<Rightarrow> reservation_row list \<times> task_row list \<times> membership_row list" where
  "bookings d = (map (rv_state_update (\<lambda>_. ReservationStateActive)) (task_reservations d), tasks d, organization_memberships d)"

interpretation bookings: table_view bookings
proof
  have "bookings (books d) = bookings d" for d by (simp add: bookings_def books_def)
  then show "bookings d' = bookings d" if "books d' = books d" for d d' using that by metis
qed

abbreviation rebooks :: "env \<Rightarrow> ('a \<Rightarrow> bool) \<Rightarrow> ('r, 'a) dbtx \<Rightarrow> bool" where
  "rebooks \<equiv> keeps (\<lambda>_. True) (\<lambda>d d'. bookings d' = bookings d)"

lemma bookings_update: "updateReservations p st d = Some d' \<Longrightarrow> bookings d' = bookings d"
  by (auto simp: updateReservations_def bookings_def updateWhere_def Let_def split: if_splits)

lemma rebooks_writes [safe_rules]:
  "Q () \<Longrightarrow> rebooks e Q (execT err (updateReservations p st))"
  "(\<And>k. Q' k) \<Longrightarrow> rebooks e Q' (countT err c (updateReservations p st))"
  by (auto intro!: bookings.keeps_exec bookings.keeps_count dest: bookings_update)

lemma rebooks_release: "rebooks e (\<lambda>_. True) releaseExpiredReservationsInTx"
  unfolding releaseExpiredReservationsInTx_def by (intro safe_rules)

lemma rebooks_change: "rebooks e (\<lambda>_. True) (changeReservationStateTx t i st plan)"
  unfolding changeReservationStateTx_def by (intro safe_rules)

lemma ListReservations_keeps:
  assumes "ListReservations t page e n d = (res, n', d')"
  shows "bookings d' = bookings d \<and> (\<forall>values. res = ListReservationsStoreAccepted values \<longrightarrow>
     set values \<subseteq> {v \<in> set (task_reservations d'). rv_task v = t})"
proof -
  obtain b n1 d1 where rel: "releaseExpiredReservations e n d = (b, n1, d1)" by (metis prod_cases3)
  have "set (sqlPage page (rev xs)) \<subseteq> set xs" for xs :: "reservation_row list"
    by (auto simp: sqlPage_def dest!: in_set_takeD in_set_dropD)
  then show ?thesis
    using assms bookings.method_release [OF rel TrueI rebooks_release]
    by (fastforce simp: ListReservations_def rel readN_def bindT_def queryT_def retT_def split: if_splits prod.splits)
qed


text \<open>A cancelled reservation was the active one of its task.\<close>

lemma wp_changeReservation:
  assumes "\<And>ds d'. \<exists>v \<in> set (task_reservations d'). rv_id v = i \<and> rv_task v = t \<and> rv_state v = st \<Longrightarrow> Q ds d'" "\<And>r g. E r g"
  shows "wp e (changeReservationStateTx t i st plan) Q E d"
proof -
  let ?p = "\<lambda>v. rv_id v = i \<and> rv_task v = t \<and> rv_state v = ReservationStateActive"
  let ?done = "\<lambda>d'. \<exists>v \<in> set (task_reservations d'). rv_id v = i \<and> rv_task v = t \<and> rv_state v = st"
  have upd: "?done d'" if u: "updateReservations ?p st d = Some d'" and k: "length (filter ?p (task_reservations d)) = Suc 0" for d'
  proof -
    obtain v where "filter ?p (task_reservations d) = [v]" using k by (auto simp: length_Suc_conv)
    note v = filter_one [OF this]
    have "task_reservations d' = updateWhere ?p (rv_state_update (\<lambda>_. st)) (task_reservations d)"
      using u by (auto simp: updateReservations_def Let_def split: if_splits)
    with v show ?thesis by (intro bexI [of _ "v\<lparr>rv_state := st\<rparr>"]) (auto simp: set_updateWhere image_iff intro!: bexI [of _ v])
  qed
  have same: "?done d'" if "books d' = books d1" "updateReservations ?p st d = Some d1"
      "length (filter ?p (task_reservations d)) = Suc 0" for d' d1
    using upd [OF that(2,3)] books_eqD(7) [OF that(1)] by simp
  show ?thesis
    unfolding changeReservationStateTx_def parseReviewWorker_def Let_def
    by (intro wp_bind wp_rules assms(2)) (auto intro!: wp_rules assms intro: upd same split: Plan.split)
qed

lemma ChangeReservationState_changed:
  assumes run: "ChangeReservationState t i st plan e n d = (ChangeReservationStateStoreAccepted v ds, d')"
  shows "filter (\<lambda>v. rv_id v = i) (task_reservations d') = [v] \<and> rv_task v = t \<and> rv_state v = st \<and> bookings d' = bookings d"
proof -
  have kept: "bookings d' = bookings d"
    using bookings.method_ChangeReservationState [OF run TrueI rebooks_release rebooks_change] .
  obtain n1 d1 n2 where com: "commitN (invalidState ''begin change reservation state transaction failed'')
        (invalidState ''commit change reservation state transaction failed'')
        (changeReservationStateTx t i st plan) e n1 d1 = (Inr ds, n2, d')"
    and found: "fst (findReservation i e n2 d') = Inr v"
    using run by (auto simp: ChangeReservationState_def split: prod.splits if_splits sum.splits)
  have ch: "\<exists>v \<in> set (task_reservations d'). rv_id v = i \<and> rv_task v = t \<and> rv_state v = st"
    by (rule commitN_rule [OF com, where P = "\<lambda>_ d'. \<exists>v \<in> set (task_reservations d'). rv_id v = i \<and> rv_task v = t \<and> rv_state v = st"])
       (rule wp_changeReservation, simp_all)
  have "case Inr v :: reservation_row result of Inr v \<Rightarrow> filter (\<lambda>v. rv_id v = i) (task_reservations d') = [v] | _ \<Rightarrow> True"
    using fst_pair [OF found] unfolding findReservation_def by (rule readN_rule) (auto intro!: wp_rules split: list.split)
  then have only: "filter (\<lambda>v. rv_id v = i) (task_reservations d') = [v]" by simp
  from ch obtain w where w: "w \<in> set (task_reservations d')" "rv_id w = i" "rv_task w = t" "rv_state w = st" by blast
  then have "w \<in> set (filter (\<lambda>v. rv_id v = i) (task_reservations d'))" by simp
  then have "w = v" unfolding only by simp
  with w have "rv_task v = t \<and> rv_state v = st" by blast
  with only kept show ?thesis by blast
qed


lemma mayOwn_bookings: "bookings d' = bookings d \<Longrightarrow> mayOwn d' actor owner = mayOwn d actor owner"
  by (simp add: bookings_def mayOwn_def mayActFor_def memberMay_def memberRoles_def split: Owner.split)

lemma bookings_row:
  assumes "bookings d' = bookings d" "v \<in> set (task_reservations d')"
  shows "\<exists>w \<in> set (task_reservations d). v = w\<lparr>rv_state := rv_state v\<rparr>"
proof -
  let ?plain = "rv_state_update (\<lambda>_. ReservationStateActive)"
  from assms(1) have "map ?plain (task_reservations d') = map ?plain (task_reservations d)" by (simp add: bookings_def)
  from arg_cong [OF this, of set] have "?plain ` set (task_reservations d') = ?plain ` set (task_reservations d)" by simp
  with assms(2) have "?plain v \<in> ?plain ` set (task_reservations d)" by blast
  then obtain w where w: "w \<in> set (task_reservations d)" "?plain v = ?plain w" by blast
  have "v = (?plain v)\<lparr>rv_state := rv_state v\<rparr>" by simp
  also have "\<dots> = w\<lparr>rv_state := rv_state v\<rparr>" unfolding w(2) by simp
  finally have "v = w\<lparr>rv_state := rv_state v\<rparr>" .
  with w(1) show ?thesis ..
qed

definition releasedBy :: "Subject \<Rightarrow> reservation_row \<Rightarrow> Owner \<Rightarrow> db \<Rightarrow> ReservationState \<Rightarrow> bool" where
  "releasedBy actor w owner d st \<longleftrightarrow>
     (st = ReservationStateCancelledByWorker \<and> actor = UserSubject (rv_requested_by w)) \<or>
     (st = ReservationStateCancelledByRequester \<and> mayOwn d actor owner)"

lemma CancelReservation_released:
  assumes run: "CancelReservation actor t i e n d = (ReservationStateChanged v, d')"
    and ids: "distinct (map rv_id (task_reservations d))"
  shows "\<exists>r owner w. filter (\<lambda>r. tk_id r = t) (tasks d) = [r] \<and> ownerOf r = Some owner \<and>
     w \<in> set (task_reservations d) \<and> rv_id w = i \<and> rv_task w = t \<and> v = w\<lparr>rv_state := rv_state v\<rparr> \<and>
     v \<in> set (task_reservations d') \<and> releasedBy actor w owner d (rv_state v)"
proof -
  from run obtain r owner n1 vs n2 d1 n3 draft n4 ds where steps: "findOwnedTask t e n d = (Inr (r, owner), n1)"
      "ListReservations t DefaultPage e n1 d = (ListReservationsStoreAccepted vs, n2, d1)"
      "(if holdsReservation actor i vs then (None, n2) else requireOwnerPermission actor owner e n2 d1) = (None, n3)"
      "ChangeReservationState t i (if holdsReservation actor i vs then ReservationStateCancelledByWorker
         else ReservationStateCancelledByRequester) (Record draft) e n4 d1 = (ChangeReservationStateStoreAccepted v ds, d')"
    unfolding CancelReservation_def
    by (force split: prod.splits sum.splits option.splits ListReservationsStoreResult.splits ChangeReservationStateStoreResult.splits if_splits)
  have d1: "bookings d1 = bookings d" and listed: "set vs \<subseteq> set (task_reservations d1)"
    using ListReservations_keeps [OF steps(2)] by auto
  have ch: "v \<in> set (task_reservations d')" "rv_id v = i" "rv_task v = t" "bookings d' = bookings d"
      "rv_state v = (if holdsReservation actor i vs then ReservationStateCancelledByWorker else ReservationStateCancelledByRequester)"
    using ChangeReservationState_changed [OF steps(4)] filter_one [of "\<lambda>v. rv_id v = i" "task_reservations d'" v] d1 by auto
  obtain w where w: "w \<in> set (task_reservations d)" "v = w\<lparr>rv_state := rv_state v\<rparr>" using bookings_row [OF ch(4,1)] by blast
  have wi: "rv_id w = i" "rv_task w = t" using ch(2,3) arg_cong [OF w(2), of rv_id] arg_cong [OF w(2), of rv_task] by simp_all
  have "releasedBy actor w owner d (rv_state v)"
  proof (cases "holdsReservation actor i vs")
    case True
    then obtain x where x: "x \<in> set (task_reservations d1)" "rv_id x = i" "actor = UserSubject (rv_requested_by x)"
      using listed by (auto simp: holdsReservation_def)
    obtain y where y: "y \<in> set (task_reservations d)" "x = y\<lparr>rv_state := rv_state x\<rparr>" using bookings_row [OF d1 x(1)] by blast
    have "rv_id y = i" "rv_requested_by y = rv_requested_by x" using x(2) arg_cong [OF y(2), of rv_id] arg_cong [OF y(2), of rv_requested_by] by simp_all
    with y(1) w(1) wi(1) ids have "y = w" unfolding distinct_map inj_on_def by auto
    with True ch(5) x(3) \<open>rv_requested_by y = rv_requested_by x\<close> show ?thesis by (simp add: releasedBy_def)
  next
    case False
    with steps(3) have "mayOwn d1 actor owner" by (simp add: requireOwner_granted)
    with False ch(5) show ?thesis by (simp add: releasedBy_def mayOwn_bookings [OF d1])
  qed
  with findOwned_found [OF steps(1)] w wi ch(1) show ?thesis by blast
qed


section \<open>Reserving\<close>

definition maySeeTask :: "db \<Rightarrow> UserID \<Rightarrow> task_row \<Rightarrow> bool" where
  "maySeeTask d u r \<longleftrightarrow> tk_created_by r = u \<or> (case tk_visibility r of
     PublicVisibility \<Rightarrow> True
   | UserVisibility v \<Rightarrow> v = u
   | OrganizationVisibility i \<Rightarrow> memberMay d i u PermissionCreateOrganizationTask
   | OrganizationTeamVisibility i _ \<Rightarrow> memberMay d i u PermissionCreateOrganizationTask
   | TeamVisibility _ \<Rightarrow> False)"

lemma Task_requireView_granted: "Task_requireViewPermission (UserSubject u) r e n d = (None, n') \<Longrightarrow> maySeeTask d u r"
  by (auto simp: Task_requireViewPermission_def maySeeTask_def mayActFor_def split: if_splits Visibility.splits
      dest!: organizationAccess_granted)

text \<open>Whoever may see a task may submit to it, as far as the views go.\<close>

lemma maySeeTask_maySee: "maySeeTask d u r \<Longrightarrow> maySee d u r"
  by (auto simp: maySeeTask_def maySee_def split: Visibility.splits)

text \<open>For whom a user may reserve.\<close>

definition team_ok :: "team_row \<Rightarrow> bool" where
  "team_ok r \<longleftrightarrow> (case tm_owner_kind r of
     TeamOwnerKindOrganization \<Rightarrow> tm_organization r \<noteq> None \<and> tm_owner_user r = None
   | TeamOwnerKindUser \<Rightarrow> tm_owner_user r \<noteq> None \<and> tm_organization r = None)"

definition speaksFor :: "db \<Rightarrow> UserID \<Rightarrow> Assignee \<Rightarrow> bool" where
  "speaksFor d u assignee \<longleftrightarrow> (case assignee of
     UserAssignee v \<Rightarrow> v = u
   | TeamAssignee t \<Rightarrow> (t, u) \<in> set (team_members d)
   | OrganizationTeamAssignee i t \<Rightarrow> (t, u) \<in> set (team_members d) \<and>
       (\<exists>r \<in> set (teams d). tm_id r = t \<and> tm_organization r = Some i))"

lemma ListTeamMembers_listed:
  assumes "ListTeamMembers t e n d = (TeamMembersListed us, n')" "exactIDs e"
  shows "set us \<subseteq> {u. (t, u) \<in> set (team_members d)}"
proof -
  have parsed: "map (ParseUserID e) rs = map Inr xs \<Longrightarrow> xs = rs" for rs xs
    using assms(2) by (induction rs arbitrary: xs) (auto simp: ParseUserID_def fromIDResult_Inr exactIDs_def)
  have "\<forall>us. TeamMembersListed us = TeamMembersListed us' \<longrightarrow> us = map snd (filter (\<lambda>(t', u). t' = t) (team_members d))"
    if "ListTeamMembers t e n d = (TeamMembersListed us', n')" for us'
    using that unfolding ListTeamMembers_def
    by (rule readN_rule, unfold scanT_def, intro wp_bind wp_lift wp_query wp_mapT_parse wp_ret) (auto dest!: parsed simp del: map_map)
  from this [OF assms(1)] show ?thesis by auto
qed


lemma parseTeamRow_owner: "parseTeamRow e r = Inr team \<Longrightarrow> parseTeamOwner e r = Inr (te_owner team)"
  by (cases "ParseTeamID e (tm_id r)"; cases "NewTeamName (tm_name r)"; cases "ParseUserID e (tm_created_by r)"; cases "parseTeamOwner e r")
     (auto simp: parseTeamRow_def)

lemma FindTeam_found:
  assumes "FindTeam t e n d = (TeamFound team, n')" "exactIDs e" "list_all team_ok (teams d)" "te_owner team = OrganizationOwnedTeam i"
  shows "\<exists>r \<in> set (teams d). tm_id r = t \<and> tm_organization r = Some i"
proof -
  have "\<exists>r \<in> set (teams d). tm_id r = t \<and> parseTeamRow e r = Inr team"
  proof -
    have "case TeamFound team of TeamFound x \<Rightarrow> \<exists>r \<in> set (teams d). tm_id r = t \<and> parseTeamRow e r = Inr x | _ \<Rightarrow> True"
      using assms(1) unfolding FindTeam_def
      by (rule readN_rule, intro wp_bind wp_query)
         (auto intro!: wp_rules dest!: rowWhere_SomeD split: option.split sum.split)
    then show ?thesis by simp
  qed
  then obtain r where r: "r \<in> set (teams d)" "tm_id r = t" "parseTeamOwner e r = Inr (OrganizationOwnedTeam i)"
    using assms(4) parseTeamRow_owner by fastforce
  have "team_ok r" using assms(3) r(1) by (simp add: list_all_iff)
  then have "tm_organization r = Some i"
    using r(3) assms(2) by (auto simp: parseTeamOwner_def team_ok_def ParseOrganizationID_def fromIDResult_Inr exactIDs_def
        split: TeamOwnerKind.splits sum.splits option.splits)
  with r show ?thesis by blast
qed

lemma CheckTeamMembership_granted:
  assumes "CheckTeamMembership t u e n d = (PermissionGranted, n')" "exactIDs e"
  shows "(t, u) \<in> set (team_members d)"
  using assms ListTeamMembers_listed [of t e n d] 
  by (auto simp: CheckTeamMembership_def split: prod.splits TeamMembersResult.splits if_splits)

lemma CheckOrganizationTeamMembership_granted:
  assumes "CheckOrganizationTeamMembership i t u e n d = (PermissionGranted, n')" "exactIDs e" "list_all team_ok (teams d)"
  shows "speaksFor d u (OrganizationTeamAssignee i t)"
proof -
  from assms(1) obtain team n1 us n2 where steps: "FindTeam t e n d = (TeamFound team, n1)" "te_owner team = OrganizationOwnedTeam i"
      "ListTeamMembers t e n1 d = (TeamMembersListed us, n2)" "u \<in> set us"
    by (auto simp: CheckOrganizationTeamMembership_def split: prod.splits FindTeamResult.splits TeamMembersResult.splits if_splits)
  from FindTeam_found [OF steps(1) assms(2,3) steps(2)] ListTeamMembers_listed [OF steps(3) assms(2)] steps(4)
  show ?thesis by (auto simp: speaksFor_def)
qed

text \<open>A reservation request for an assignee, as the front ends choose the method.\<close>

fun reserveFor ::
  "issuer \<Rightarrow> UserID \<Rightarrow> WorkerOrigin \<Rightarrow> TaskID \<Rightarrow> Assignee \<Rightarrow> env \<Rightarrow> nat \<Rightarrow> db \<Rightarrow> ReservationResult \<times> db" where
  "reserveFor issuer u origin t (UserAssignee _) = Reserve issuer u origin t"
| "reserveFor issuer u origin t (TeamAssignee team) = ReserveForTeam issuer u origin t team"
| "reserveFor issuer u origin t (OrganizationTeamAssignee i team) = ReserveForOrganizationTeam issuer u origin t i team"

fun scopeOf :: "Assignee \<Rightarrow> AssigneeScope" where
  "scopeOf (UserAssignee _) = AssigneeScopeUser"
| "scopeOf (TeamAssignee _) = AssigneeScopeTeam"
| "scopeOf (OrganizationTeamAssignee _ _) = AssigneeScopeOrganizationTeam"

text \<open>What a credential must allow for a task to be reserved through it.\<close>

definition permits :: "WorkerOrigin \<Rightarrow> task_row \<Rightarrow> RewardSpec \<Rightarrow> bool" where
  "permits origin r reward \<longleftrightarrow> (case origin of
     WorkerIsUser \<Rightarrow> True
   | WorkerViaTaskCredential _ \<Rightarrow> False
   | WorkerViaCredential _ policy \<Rightarrow> (\<exists>budget. policy = CredentialWorkEnabled budget \<and>
       (\<forall>ts. Types budget = OnlyWorkTaskTypes ts \<longrightarrow> tk_type r \<in> set ts) \<and>
       (\<forall>m. RewardFloor budget = WorkRewardFloorAtLeast m \<longrightarrow> m \<le> creditRewardOf reward)))"

lemma reservationOriginFor_permits: "reservationOriginFor origin (tk_type r) reward = Inr ro \<Longrightarrow> permits origin r reward"
  by (auto simp: reservationOriginFor_def permits_def checkWorkPolicyAgainstTask_def Let_def Allows_iff
      split: WorkerOrigin.splits CredentialWorkPolicy.splits option.splits WorkTaskTypeCheck.splits WorkRewardFloor.splits if_splits)

definition reservable :: "db \<Rightarrow> UserID \<Rightarrow> WorkerOrigin \<Rightarrow> TaskID \<Rightarrow> Assignee \<Rightarrow> bool" where
  "reservable d u origin t assignee \<longleftrightarrow> (\<exists>r reward. filter (\<lambda>r. tk_id r = t) (tasks d) = [r] \<and> rewardOf d r = Inr reward \<and>
     tk_state r = StateOpen \<and> tk_assignee_scope r = scopeOf assignee \<and> maySeeTask d u r \<and> tk_created_by r \<noteq> u \<and>
     permits origin r reward \<and> speaksFor d u assignee)"

lemma reserve_created:
  assumes "reserve issuer u origin t assignee (scopeOf assignee) why e n d = (ReservationCreated v secret, d')" "speaksFor d u assignee"
  shows "reservable d u origin t assignee \<and>
     (\<exists>i c. rc_task c = t \<and> rc_assignee c = assignee \<and> rc_requested_by c = u \<and> reservationMade i c e d')"
proof -
  from assms(1) obtain r owner n1 reward n2 ro i draft n3 where steps: "findOwnedTask t e n d = (Inr (r, owner), n1)"
      "rewardOf d r = Inr reward" "tk_state r = StateOpen" "tk_assignee_scope r = scopeOf assignee"
      "Task_requireViewPermission (UserSubject u) r e n1 d = (None, n2)" "tk_created_by r \<noteq> u"
      "reservationOriginFor origin (tk_type r) reward = Inr ro"
      "CreateReservation i \<lparr>rc_task = t, rc_assignee = assignee, rc_requested_by = u, rc_origin = ro, rc_draft = draft\<rparr> e n3 d
         = (CreateReservationStoreAccepted v, d')"
    unfolding reserve_def
    by (auto split: prod.splits sum.splits option.splits CreateReservationStoreResult.splits if_splits)
  have "reservable d u origin t assignee"
    using findOwned_found [OF steps(1)] steps(2-4,6) Task_requireView_granted [OF steps(5)] reservationOriginFor_permits [OF steps(7)] assms(2)
    by (auto simp: reservable_def)
  with CreateReservation_made [OF steps(8)] show ?thesis by force
qed

lemma reserveFor_created:
  assumes "reserveFor issuer u origin t assignee e n d = (ReservationCreated v secret, d')" "exactIDs e" "list_all team_ok (teams d)"
    "case assignee of UserAssignee w \<Rightarrow> w = u | _ \<Rightarrow> True"
  shows "reservable d u origin t assignee \<and>
     (\<exists>i c. rc_task c = t \<and> rc_assignee c = assignee \<and> rc_requested_by c = u \<and> reservationMade i c e d')"
proof -
  obtain why m where run: "reserve issuer u origin t assignee (scopeOf assignee) why e m d = (ReservationCreated v secret, d')"
    and "speaksFor d u assignee"
  proof (cases assignee)
    case (UserAssignee w)
    with assms(1,4) show thesis using that [of _ n] by (simp add: Reserve_def speaksFor_def)
  next
    case (TeamAssignee team)
    with assms(1) show thesis using that CheckTeamMembership_granted [OF _ assms(2)]
      by (auto simp: ReserveForTeam_def speaksFor_def split: prod.splits PermissionCheck.splits)
  next
    case (OrganizationTeamAssignee i team)
    with assms(1) show thesis using that CheckOrganizationTeamMembership_granted [OF _ assms(2,3)]
      by (auto simp: ReserveForOrganizationTeam_def split: prod.splits PermissionCheck.splits)
  qed
  from reserve_created [OF this] show ?thesis .
qed

end
