(* ===== verification/Webhooks.thy ===== *)
theory Webhooks
  imports AuthValues
begin

text \<open>
  Webhook delivery: \<open>internal/webhookdispatch\<close> over the delivery rows of
  \<open>internal/db/webhook_store.go\<close>.  A pass claims due deliveries in batches, posts each and
  records the outcome; a failed delivery walks a bounded schedule of retries.  The receiver
  is a parameter, \<open>network\<close>: the reply to the n-th request.  The subscription's URL is kept in
  the delivery row it is joined to; the signed body is not modelled.  Instants and durations
  are nanoseconds.
\<close>

section \<open>Delivery rows\<close>

type_synonym WebhookDeliveryID = string
type_synonym WebhookSubscriptionID = string

datatype DeliveryState = DeliveryStatePending | DeliveryStateDelivered | DeliveryStateDead

record delivery_row =
  wd_id :: WebhookDeliveryID
  wd_subscription :: WebhookSubscriptionID
  wd_url :: string
  wd_actor_name :: string
  wd_actor_email :: string
  wd_state :: DeliveryState
  wd_attempts :: int
  wd_next :: int
  wd_status :: string

record ClaimedWebhookDelivery =
  cw_id :: WebhookDeliveryID
  cw_subscription :: WebhookSubscriptionID
  cw_url :: string
  cw_attempts :: int
  cw_actor :: string

type_synonym deliveries = "delivery_row list"

section \<open>The retry walk\<close>

abbreviation seconds :: "int \<Rightarrow> int" where "seconds n \<equiv> n * 1000000000"

definition retryDelays :: "int list" where
  "retryDelays = [seconds 30, seconds (5 * 60), seconds (30 * 60), seconds (2 * 60 * 60), seconds (8 * 60 * 60)]"

definition MaxAttempts :: int where "MaxAttempts = 6"

datatype retryDecision = retryAt int | retriesExhausted

text \<open>
  The jitter is the uniform number of \<open>Float64\<close>: a natural number below 2 to the 53rd over
  that power.  The product is taken exactly, where the program rounds to a double.
\<close>

definition jitterDelay :: "int \<Rightarrow> nat \<Rightarrow> int" where
  "jitterDelay base jitter = (base * (4 * 2 ^ 53 + 2 * int jitter)) div (5 * 2 ^ 53)"

definition decideRetry :: "int \<Rightarrow> int \<Rightarrow> nat \<Rightarrow> retryDecision" where
  "decideRetry attempt now jitter =
     (if attempt \<ge> MaxAttempts then retriesExhausted
      else let index = attempt - 1;
               low = (if index < 0 then 0 else index);
               slot = (if low \<ge> int (length retryDelays) then int (length retryDelays) - 1 else low) in
           retryAt (now + jitterDelay (retryDelays ! nat slot) jitter))"

section \<open>The store\<close>

definition ParseWebhookDeliveryID :: "env \<Rightarrow> string \<Rightarrow> WebhookDeliveryID result" where
  "ParseWebhookDeliveryID e raw = fromIDResult (uuid_parse e raw)"

definition ParseWebhookSubscriptionID :: "env \<Rightarrow> string \<Rightarrow> WebhookSubscriptionID result" where
  "ParseWebhookSubscriptionID e raw = fromIDResult (uuid_parse e raw)"

text \<open>The URL, the secret and the event columns were parsed when they were written; they parse again.\<close>

definition scanClaimedWebhookDelivery :: "delivery_row \<Rightarrow> (deliveries, DomainError, ClaimedWebhookDelivery) tx" where
  "scanClaimedWebhookDelivery r =
     bindT (parseT ParseWebhookDeliveryID (wd_id r))
     (\<lambda>i. bindT (parseT ParseWebhookSubscriptionID (wd_subscription r))
     (\<lambda>s. case NewDisplayName (userDisplayNameSQL (wd_actor_name r) (wd_actor_email r)) of
        Inl reason \<Rightarrow> raiseT reason
      | Inr name \<Rightarrow> retT \<lparr>cw_id = i, cw_subscription = s, cw_url = wd_url r, cw_attempts = wd_attempts r, cw_actor = name\<rparr>))"

definition dueDeliveries :: "nat \<Rightarrow> int \<Rightarrow> deliveries \<Rightarrow> delivery_row list" where
  "dueDeliveries n now rows =
     take n (sort_key wd_next (filter (\<lambda>r. wd_state r = DeliveryStatePending \<and> wd_next r \<le> now) rows))"

definition holdDelivery :: "WebhookDeliveryID \<Rightarrow> int \<Rightarrow> deliveries \<Rightarrow> deliveries option" where
  "holdDelivery i till rows = Some (updateWhere (\<lambda>r. wd_id r = i) (wd_next_update (\<lambda>_. till)) rows)"

abbreviation unusable :: "string \<Rightarrow> DomainError" where
  "unusable message \<equiv> NewDomainError ErrorCodeInvalidState message"

definition claimTx :: "nat \<Rightarrow> int \<Rightarrow> (deliveries, DomainError, ClaimedWebhookDelivery list) tx" where
  "claimTx n hold =
     bindT (askT (\<lambda>e k. clock e k))
     (\<lambda>now. bindT (scanT (unusable ''claim webhook deliveries failed'') (unusable ''scan claimed webhook delivery failed'')
          (unusable ''iterate claimed webhook deliveries failed'') (dueDeliveries n now)
          (\<lambda>r. liftT (\<lambda>_. unusable ''scan claimed webhook delivery failed'') (scanClaimedWebhookDelivery r)))
     (\<lambda>claimed. bindT (forT claimed (\<lambda>x. execT (unusable ''hold claimed webhook delivery failed'')
          (holdDelivery (cw_id x) (now + hold))))
     (\<lambda>_. retT claimed)))"

definition ClaimDueDeliveries ::
  "nat \<Rightarrow> int \<Rightarrow> env \<Rightarrow> nat \<Rightarrow> deliveries \<Rightarrow> ClaimedWebhookDelivery list result \<times> nat \<times> deliveries" where
  "ClaimDueDeliveries n hold = runN (Inl (unusable ''begin webhook claim transaction failed''))
     (bindT (liftT Inl (claimTx n hold))
       (\<lambda>claimed. retT (Inl (unusable ''commit webhook claim transaction failed''), Inr claimed)))"

text \<open>
  Marking is one statement on the pending row.  PostgreSQL refuses a text parameter that is
  not valid UTF-8, so an update with such a status is an error.
\<close>

datatype MarkDeliveryResult = MarkDeliveryRecorded | MarkDeliveryRejected DomainError

datatype FailureOutcome = RetryLater int | Dead

definition markPending ::
  "string \<Rightarrow> WebhookDeliveryID \<Rightarrow> string \<Rightarrow> (delivery_row \<Rightarrow> delivery_row) \<Rightarrow> env \<Rightarrow> nat \<Rightarrow> deliveries
    \<Rightarrow> MarkDeliveryResult \<times> nat \<times> deliveries" where
  "markPending failure i status f e n rows =
     (let mine = (\<lambda>r. wd_id r = i \<and> wd_state r = DeliveryStatePending) in
      if fault e n \<or> \<not> utf8 status then (MarkDeliveryRejected (unusable failure), Suc n, rows)
      else if filter mine rows = []
      then (MarkDeliveryRejected (NewDomainError ErrorCodeInvalidArgument ''pending webhook delivery was not found''), Suc n, rows)
      else (MarkDeliveryRecorded, Suc n, updateWhere mine f rows))"

definition MarkDelivered ::
  "WebhookDeliveryID \<Rightarrow> int \<Rightarrow> string \<Rightarrow> env \<Rightarrow> nat \<Rightarrow> deliveries \<Rightarrow> MarkDeliveryResult \<times> nat \<times> deliveries" where
  "MarkDelivered i attemptCount status =
     markPending ''mark webhook delivery delivered failed'' i status
       (\<lambda>r. r\<lparr>wd_state := DeliveryStateDelivered, wd_attempts := attemptCount, wd_status := status\<rparr>)"

definition MarkFailed ::
  "WebhookDeliveryID \<Rightarrow> int \<Rightarrow> string \<Rightarrow> FailureOutcome \<Rightarrow> env \<Rightarrow> nat \<Rightarrow> deliveries \<Rightarrow> MarkDeliveryResult \<times> nat \<times> deliveries" where
  "MarkFailed i attemptCount status outcome =
     markPending ''mark webhook delivery failed attempt failed'' i status (\<lambda>r. case outcome of
         RetryLater at \<Rightarrow> r\<lparr>wd_attempts := attemptCount, wd_status := status, wd_next := at\<rparr>
       | Dead \<Rightarrow> r\<lparr>wd_state := DeliveryStateDead, wd_attempts := attemptCount, wd_status := status\<rparr>)"

section \<open>The dispatcher\<close>

definition requestTimeout :: int where "requestTimeout = seconds 10"
definition claimBatchSize :: nat where "claimBatchSize = 10"
definition maxClaimBatchesPerRun :: nat where "maxClaimBatchesPerRun = 50"
definition claimHold :: int where "claimHold = int claimBatchSize * requestTimeout + requestTimeout"
definition lastStatusLimit :: nat where "lastStatusLimit = 120"

text \<open>
  What a request comes to: a body that does not encode, a request that is not built, an error
  of the transport with its text, or a status code.
\<close>

datatype TransportError = TimedOut string | ConnectionRefused string | OtherError string

datatype Reply = NotEncoded | NotBuilt string | NoResponse TransportError | Response int

record dispatcher =
  dp_network :: "nat \<Rightarrow> ClaimedWebhookDelivery \<Rightarrow> Reply"
  dp_now :: "nat \<Rightarrow> int"
  dp_jitter :: "nat \<Rightarrow> nat"

definition boundedStatus :: "string \<Rightarrow> string" where
  "boundedStatus status = (if length status > lastStatusLimit then take lastStatusLimit status else status)"

fun hasSubstring :: "string \<Rightarrow> string \<Rightarrow> bool" where
  "hasSubstring w [] = (w = [])"
| "hasSubstring w (c # cs) = (take (length w) (c # cs) = w \<or> hasSubstring w cs)"

fun classifyDeliveryError :: "TransportError \<Rightarrow> string" where
  "classifyDeliveryError (TimedOut _) = ''timeout''"
| "classifyDeliveryError (ConnectionRefused _) = ''connection refused''"
| "classifyDeliveryError (OtherError message) =
     (if hasSubstring ''webhook dial blocked'' message then boundedStatus (''blocked: '' @ message) else boundedStatus message)"

definition postDelivery :: "dispatcher \<Rightarrow> nat \<Rightarrow> ClaimedWebhookDelivery \<Rightarrow> string \<times> bool" where
  "postDelivery dp n delivery =
     (if take 8 (cw_url delivery) \<noteq> ''https://'' then (''blocked: url is not https'', False)
      else case dp_network dp n delivery of
        NotEncoded \<Rightarrow> (''encode failed'', False)
      | NotBuilt message \<Rightarrow> (boundedStatus message, False)
      | NoResponse problem \<Rightarrow> (classifyDeliveryError problem, False)
      | Response status \<Rightarrow> (formatInt status, status \<ge> 200 \<and> status \<le> 299))"

definition attemptDelivery ::
  "dispatcher \<Rightarrow> ClaimedWebhookDelivery \<Rightarrow> env \<Rightarrow> nat \<Rightarrow> deliveries \<Rightarrow> bool \<times> nat \<times> deliveries" where
  "attemptDelivery dp delivery e n rows =
     (let attempt = cw_attempts delivery + 1 in
      case postDelivery dp n delivery of (status, succeeded) \<Rightarrow>
      if succeeded
      then (case MarkDelivered (cw_id delivery) attempt status e (Suc n) rows of (_, n', rows') \<Rightarrow> (True, n', rows'))
      else (case decideRetry attempt (dp_now dp n) (dp_jitter dp n) of
          retryAt at \<Rightarrow>
            (case MarkFailed (cw_id delivery) attempt status (RetryLater at) e (Suc n) rows of (_, n', rows') \<Rightarrow> (False, n', rows'))
        | retriesExhausted \<Rightarrow>
            (case MarkFailed (cw_id delivery) attempt status Dead e (Suc n) rows of (_, n', rows') \<Rightarrow> (False, n', rows'))))"

fun attemptAll ::
  "dispatcher \<Rightarrow> ClaimedWebhookDelivery list \<Rightarrow> env \<Rightarrow> nat \<Rightarrow> deliveries \<Rightarrow> nat \<times> nat \<times> deliveries" where
  "attemptAll dp [] e n rows = (0, n, rows)"
| "attemptAll dp (x # xs) e n rows =
     (case attemptDelivery dp x e n rows of (ok, n1, rows1) \<Rightarrow>
      case attemptAll dp xs e n1 rows1 of (delivered, n2, rows2) \<Rightarrow> ((if ok then 1 else 0) + delivered, n2, rows2))"

datatype RunResult = RunCompleted nat nat | RunRejected DomainError

fun runBatches ::
  "nat \<Rightarrow> dispatcher \<Rightarrow> nat \<Rightarrow> nat \<Rightarrow> env \<Rightarrow> nat \<Rightarrow> deliveries \<Rightarrow> RunResult \<times> nat \<times> deliveries" where
  "runBatches 0 dp attempted delivered e n rows = (RunCompleted attempted delivered, n, rows)"
| "runBatches (Suc batches) dp attempted delivered e n rows =
     (case ClaimDueDeliveries claimBatchSize claimHold e n rows of
        (Inl reason, n1, rows1) \<Rightarrow> (RunRejected reason, n1, rows1)
      | (Inr claimed, n1, rows1) \<Rightarrow>
          (case attemptAll dp claimed e n1 rows1 of (ok, n2, rows2) \<Rightarrow>
             if length claimed < claimBatchSize
             then (RunCompleted (attempted + length claimed) (delivered + ok), n2, rows2)
             else runBatches batches dp (attempted + length claimed) (delivered + ok) e n2 rows2))"

definition RunOnce :: "dispatcher \<Rightarrow> env \<Rightarrow> nat \<Rightarrow> deliveries \<Rightarrow> RunResult \<times> nat \<times> deliveries" where
  "RunOnce dp e n rows = runBatches maxClaimBatchesPerRun dp 0 0 e n rows"

section \<open>The walk ends\<close>

definition remaining :: "delivery_row \<Rightarrow> nat" where
  "remaining r = (if wd_state r = DeliveryStatePending then nat (MaxAttempts - wd_attempts r) else 0)"

definition walk_ok :: "deliveries \<Rightarrow> bool" where
  "walk_ok rows \<longleftrightarrow> distinct (map wd_id rows) \<and>
     (\<forall>r \<in> set rows. wd_state r = DeliveryStatePending \<longrightarrow> 0 \<le> wd_attempts r \<and> wd_attempts r < MaxAttempts)"

definition budget :: "deliveries \<Rightarrow> nat" where
  "budget rows = sum_list (map remaining rows)"

definition remainingOf :: "WebhookDeliveryID \<Rightarrow> deliveries \<Rightarrow> nat" where
  "remainingOf i rows = budget (filter (\<lambda>r. wd_id r = i) rows)"

text \<open>The row of a claimed delivery is pending, with the attempts the claim read.\<close>

definition claimedRow :: "ClaimedWebhookDelivery \<Rightarrow> delivery_row \<Rightarrow> bool" where
  "claimedRow x r \<longleftrightarrow> wd_id r = cw_id x \<and> wd_state r = DeliveryStatePending \<and> wd_attempts r = cw_attempts x"

definition claims :: "ClaimedWebhookDelivery list \<Rightarrow> deliveries \<Rightarrow> bool" where
  "claims xs rows \<longleftrightarrow> distinct (map cw_id xs) \<and> (\<forall>x \<in> set xs. \<exists>r \<in> set rows. claimedRow x r)"

lemma updateWhere_none: "filter p rows = [] \<Longrightarrow> updateWhere p f rows = rows"
  by (induction rows) (auto simp: updateWhere_def split: if_splits)

lemma budget_update:
  assumes "distinct (map wd_id rows)" "r \<in> set rows" "p r" "\<And>x. p x \<Longrightarrow> wd_id x = wd_id r" "remaining (f r) < remaining r"
  shows "budget (updateWhere p f rows) < budget rows"
  using assms(1,2)
proof (induction rows)
  case (Cons x rows)
  show ?case
  proof (cases "x = r")
    case True
    with Cons.prems(1) have "wd_id y \<noteq> wd_id r" if "y \<in> set rows" for y using that by (metis distinct.simps(2) image_eqI list.map(2) list.set_map)
    then have "updateWhere p f rows = rows" using assms(4) by (intro updateWhere_none) (auto simp: filter_empty_conv)
    with True assms(3,5) show ?thesis by (simp add: budget_def)
  next
    case False
    with Cons have "r \<in> set rows" by simp
    moreover have "\<not> p x" using Cons.prems assms(4) False \<open>r \<in> set rows\<close> by (metis distinct.simps(2) image_eqI list.map(2) list.set_map)
    ultimately show ?thesis using Cons by (simp add: budget_def)
  qed
qed simp

lemma walk_update:
  assumes "walk_ok rows" "\<And>r. wd_id (f r) = wd_id r"
    "\<And>r. \<lbrakk>r \<in> set rows; p r; wd_state (f r) = DeliveryStatePending\<rbrakk> \<Longrightarrow> 0 \<le> wd_attempts (f r) \<and> wd_attempts (f r) < MaxAttempts"
  shows "walk_ok (updateWhere p f rows)"
  using assms by (auto simp: walk_ok_def set_updateWhere split: if_splits)

text \<open>An attempt writes one row or nothing: it is recorded, or the statement failed.\<close>

definition nextRow :: "dispatcher \<Rightarrow> ClaimedWebhookDelivery \<Rightarrow> nat \<Rightarrow> delivery_row \<Rightarrow> delivery_row" where
  "nextRow dp x n r = (case postDelivery dp n x of (status, succeeded) \<Rightarrow>
     if succeeded then r\<lparr>wd_state := DeliveryStateDelivered, wd_attempts := cw_attempts x + 1, wd_status := status\<rparr>
     else case decideRetry (cw_attempts x + 1) (dp_now dp n) (dp_jitter dp n) of
       retryAt at \<Rightarrow> r\<lparr>wd_attempts := cw_attempts x + 1, wd_status := status, wd_next := at\<rparr>
     | retriesExhausted \<Rightarrow> r\<lparr>wd_state := DeliveryStateDead, wd_attempts := cw_attempts x + 1, wd_status := status\<rparr>)"

definition pendingRow :: "ClaimedWebhookDelivery \<Rightarrow> delivery_row \<Rightarrow> bool" where
  "pendingRow x r \<longleftrightarrow> wd_id r = cw_id x \<and> wd_state r = DeliveryStatePending"

lemma attempt_writes:
  assumes "attemptDelivery dp x e n rows = (ok, n', rows')"
  shows "n' = Suc (Suc n)" "ok = snd (postDelivery dp n x)"
    "rows' = (if fault e (Suc n) \<or> \<not> utf8 (fst (postDelivery dp n x)) then rows else updateWhere (pendingRow x) (nextRow dp x n) rows)"
proof -
  obtain status succeeded where post: "postDelivery dp n x = (status, succeeded)" by fastforce
  have mine: "pendingRow x = (\<lambda>r. wd_id r = cw_id x \<and> wd_state r = DeliveryStatePending)" by (simp add: pendingRow_def fun_eq_iff)
  have mark: "markPending failure (cw_id x) status f e (Suc n) rows = (m, n1, rows1) \<Longrightarrow> n1 = Suc (Suc n) \<and>
      rows1 = (if fault e (Suc n) \<or> \<not> utf8 status then rows else updateWhere (pendingRow x) f rows)" for failure f m n1 rows1
    by (auto simp: markPending_def Let_def mine updateWhere_none split: if_splits)
  have "nextRow dp x n = (\<lambda>r. if succeeded
      then r\<lparr>wd_state := DeliveryStateDelivered, wd_attempts := cw_attempts x + 1, wd_status := status\<rparr>
      else case decideRetry (cw_attempts x + 1) (dp_now dp n) (dp_jitter dp n) of
        retryAt at \<Rightarrow> r\<lparr>wd_attempts := cw_attempts x + 1, wd_status := status, wd_next := at\<rparr>
      | retriesExhausted \<Rightarrow> r\<lparr>wd_state := DeliveryStateDead, wd_attempts := cw_attempts x + 1, wd_status := status\<rparr>)"
    by (simp add: nextRow_def post fun_eq_iff)
  then show "n' = Suc (Suc n)" "ok = snd (postDelivery dp n x)"
    "rows' = (if fault e (Suc n) \<or> \<not> utf8 (fst (postDelivery dp n x)) then rows else updateWhere (pendingRow x) (nextRow dp x n) rows)"
    using assms
    by (auto simp: attemptDelivery_def Let_def MarkDelivered_def MarkFailed_def post dest!: mark
        split: prod.splits if_splits retryDecision.splits)
qed

lemma nextRow_id [simp]: "wd_id (nextRow dp x n r) = wd_id r"
  by (auto simp: nextRow_def split: prod.split retryDecision.split)

lemma nextRow_walk:
  assumes "0 \<le> cw_attempts x" "wd_state (nextRow dp x n r) = DeliveryStatePending"
  shows "wd_attempts (nextRow dp x n r) = cw_attempts x + 1 \<and> cw_attempts x + 1 < MaxAttempts"
  using assms by (auto simp: nextRow_def decideRetry_def Let_def split: prod.splits retryDecision.splits if_splits)

lemma nextRow_remaining:
  assumes "claimedRow x r" "0 \<le> cw_attempts x" "cw_attempts x < MaxAttempts"
  shows "remaining (nextRow dp x n r) < remaining r"
  using assms nextRow_walk [OF assms(2), of dp n r]
  by (cases "wd_state (nextRow dp x n r) = DeliveryStatePending") (auto simp: remaining_def claimedRow_def)


text \<open>Statuses the database can store.\<close>

definition clean :: "dispatcher \<Rightarrow> bool" where
  "clean dp \<longleftrightarrow> (\<forall>n x. utf8 (fst (postDelivery dp n x)))"

lemma filter_member: "\<lbrakk>distinct (map f xs); x \<in> set xs\<rbrakk> \<Longrightarrow> filter (\<lambda>y. f y = f x) xs = [x]"
  by (induction xs) (auto simp: filter_empty_conv, metis image_eqI)

lemma filter_update: "(\<And>r. q (f r) = q r) \<Longrightarrow> filter q (updateWhere p f rows) = updateWhere p f (filter q rows)"
  by (induction rows) (auto simp: updateWhere_def)

lemma attempt_walk:
  assumes ok: "walk_ok rows" and x: "0 \<le> cw_attempts x" and run: "attemptDelivery dp x e n rows = (b, n', rows')"
  shows "walk_ok rows'"
proof -
  have "walk_ok (updateWhere (pendingRow x) (nextRow dp x n) rows)"
    using nextRow_walk [OF x, of dp n] x by (intro walk_update [OF ok]) auto
  with attempt_writes(3) [OF run] ok show ?thesis by simp
qed

lemma attempt_spends:
  assumes ok: "walk_ok rows" and r: "r \<in> set rows" "claimedRow x r"
  shows "remainingOf (cw_id x) (updateWhere (pendingRow x) (nextRow dp x n) rows) < remainingOf (cw_id x) rows"
    "i \<noteq> cw_id x \<Longrightarrow> remainingOf i (updateWhere (pendingRow x) (nextRow dp x n) rows) = remainingOf i rows"
proof -
  have bounds: "0 \<le> cw_attempts x" "cw_attempts x < MaxAttempts"
    using ok r by (auto simp: walk_ok_def claimedRow_def)
  let ?mine = "\<lambda>i. filter (\<lambda>r. wd_id r = i) rows"
  have split: "filter (\<lambda>r. wd_id r = i) (updateWhere (pendingRow x) (nextRow dp x n) rows) = updateWhere (pendingRow x) (nextRow dp x n) (?mine i)" for i
    by (rule filter_update) simp
  have "distinct (map wd_id (?mine (cw_id x)))" using ok by (simp add: walk_ok_def distinct_map_filter)
  then show "remainingOf (cw_id x) (updateWhere (pendingRow x) (nextRow dp x n) rows) < remainingOf (cw_id x) rows"
    unfolding remainingOf_def split
    by (rule budget_update [where r = r]) (use r nextRow_remaining [OF r(2) bounds] in \<open>auto simp: pendingRow_def claimedRow_def\<close>)
  show "remainingOf i (updateWhere (pendingRow x) (nextRow dp x n) rows) = remainingOf i rows" if "i \<noteq> cw_id x"
    unfolding remainingOf_def split using that by (subst updateWhere_none) (auto simp: pendingRow_def filter_empty_conv)
qed

text \<open>
  The attempts a pass makes, as a log: the delivery that is posted and whether the outcome is
  recorded in its row.  Every request a receiver may see has its entry, those of a pass that is
  rejected later included.
\<close>

fun postsOf :: "dispatcher \<Rightarrow> ClaimedWebhookDelivery list \<Rightarrow> env \<Rightarrow> nat \<Rightarrow> deliveries \<Rightarrow> (WebhookDeliveryID \<times> bool) list" where
  "postsOf dp [] e n rows = []"
| "postsOf dp (x # xs) e n rows =
     (case attemptDelivery dp x e n rows of (_, n1, rows1) \<Rightarrow> (cw_id x, rows1 \<noteq> rows) # postsOf dp xs e n1 rows1)"

fun runPosts :: "nat \<Rightarrow> dispatcher \<Rightarrow> env \<Rightarrow> nat \<Rightarrow> deliveries \<Rightarrow> (WebhookDeliveryID \<times> bool) list" where
  "runPosts 0 dp e n rows = []"
| "runPosts (Suc batches) dp e n rows =
     (case ClaimDueDeliveries claimBatchSize claimHold e n rows of
        (Inl _, _, _) \<Rightarrow> []
      | (Inr claimed, n1, rows1) \<Rightarrow> postsOf dp claimed e n1 rows1 @
          (case attemptAll dp claimed e n1 rows1 of (_, n2, rows2) \<Rightarrow>
             if length claimed < claimBatchSize then [] else runPosts batches dp e n2 rows2))"

lemma postsOf_length: "length (postsOf dp xs e n rows) = length xs"
  by (induction xs arbitrary: n rows) (simp_all split: prod.split)

lemma runPosts_length:
  "runBatches b dp att del e n rows = (RunCompleted a k, n', rows') \<Longrightarrow> a = att + length (runPosts b dp e n rows)"
  by (induction b arbitrary: att del n rows) (fastforce simp: postsOf_length split: prod.splits sum.splits if_splits)+

lemma attempt_step:
  assumes ok: "walk_ok rows" and r: "r \<in> set rows" "claimedRow x r" and run: "attemptDelivery dp x e n rows = (b, n', rows')"
  shows "count_list [(cw_id x, rows' \<noteq> rows)] (i, True) + remainingOf i rows' \<le> remainingOf i rows"
    "\<lbrakk>fault e = (\<lambda>_. False); clean dp\<rbrakk> \<Longrightarrow> rows' \<noteq> rows"
proof -
  note spends = attempt_spends [OF ok r, where dp = dp and n = n]
  note rows' = attempt_writes(3) [OF run]
  show "count_list [(cw_id x, rows' \<noteq> rows)] (i, True) + remainingOf i rows' \<le> remainingOf i rows"
    using rows' spends(1) spends(2) [of i] by (cases "i = cw_id x"; cases "rows' = rows") (auto split: if_splits)
  show "rows' \<noteq> rows" if "fault e = (\<lambda>_. False)" "clean dp"
    using rows' spends(1) that by (auto simp: clean_def)
qed

lemma claims_rest:
  assumes "claims (x # xs) rows" "attemptDelivery dp x e n rows = (b, n', rows')"
  shows "claims xs rows'"
proof -
  have "r \<in> set rows'" if "r \<in> set rows" "wd_id r \<noteq> cw_id x" for r
    using attempt_writes(3) [OF assms(2)] that by (auto simp: set_updateWhere pendingRow_def image_iff)
  then show ?thesis using assms(1) by (fastforce simp: claims_def claimedRow_def)
qed

lemma attemptAll_walk:
  "\<lbrakk>walk_ok rows; claims xs rows; attemptAll dp xs e n rows = (k, n', rows')\<rbrakk> \<Longrightarrow> walk_ok rows'"
proof (induction xs arbitrary: n rows k n' rows')
  case (Cons x xs)
  obtain b n1 rows1 where a: "attemptDelivery dp x e n rows = (b, n1, rows1)" by (metis prod_cases3)
  obtain k' n2 rows2 where all: "attemptAll dp xs e n1 rows1 = (k', n2, rows2)" by (metis prod_cases3)
  from Cons.prems(1,2) have "0 \<le> cw_attempts x" by (auto simp: claims_def claimedRow_def walk_ok_def)
  from Cons.IH [OF attempt_walk [OF Cons.prems(1) this a] claims_rest [OF Cons.prems(2) a] all] Cons.prems(3)
  show ?case by (simp add: a all)
qed simp

lemma attemptAll_step:
  "\<lbrakk>walk_ok rows; claims xs rows; attemptAll dp xs e n rows = (k, n', rows')\<rbrakk>
    \<Longrightarrow> count_list (postsOf dp xs e n rows) (i, True) + remainingOf i rows' \<le> remainingOf i rows \<and>
      (fault e = (\<lambda>_. False) \<and> clean dp \<longrightarrow> (\<forall>p \<in> set (postsOf dp xs e n rows). snd p))"
proof (induction xs arbitrary: n rows k n' rows')
  case (Cons x xs)
  obtain b n1 rows1 where a: "attemptDelivery dp x e n rows = (b, n1, rows1)" by (metis prod_cases3)
  obtain k' n2 rows2 where all: "attemptAll dp xs e n1 rows1 = (k', n2, rows2)" by (metis prod_cases3)
  from Cons.prems(2) obtain r where r: "r \<in> set rows" "claimedRow x r" by (auto simp: claims_def)
  then have "walk_ok rows1" using Cons.prems(1) by (intro attempt_walk [OF Cons.prems(1) _ a]) (auto simp: claimedRow_def walk_ok_def)
  from Cons.IH [OF this claims_rest [OF Cons.prems(2) a] all]
  have later: "count_list (postsOf dp xs e n1 rows1) (i, True) + remainingOf i rows2 \<le> remainingOf i rows1"
    "fault e = (\<lambda>_. False) \<and> clean dp \<longrightarrow> (\<forall>p \<in> set (postsOf dp xs e n1 rows1). snd p)" by blast+
  have log: "postsOf dp (x # xs) e n rows = (cw_id x, rows1 \<noteq> rows) # postsOf dp xs e n1 rows1" and "rows' = rows2"
    using Cons.prems(3) by (simp_all add: a all)
  with later(1) attempt_step(1) [OF Cons.prems(1) r a, of i]
  have "count_list (postsOf dp (x # xs) e n rows) (i, True) + remainingOf i rows' \<le> remainingOf i rows"
    unfolding log by (cases "cw_id x = i \<and> rows1 \<noteq> rows") auto
  with later(2) attempt_step(2) [OF Cons.prems(1) r a] show ?case unfolding log by auto
qed simp

section \<open>Claiming\<close>

lemma wp_mapT_rel:
  assumes "\<And>r. r \<in> set rs \<Longrightarrow> wp e (f r) (\<lambda>v s'. s' = s \<and> P r v) E s" "\<And>vs. list_all2 P rs vs \<Longrightarrow> Q vs s"
  shows "wp e (mapT rs f) Q E s"
  using assms
proof (induction rs arbitrary: Q)
  case (Cons r rs)
  have "wp e (mapT rs f) (\<lambda>ys s'. wp e (retT (y # ys)) Q E s') E s" if "P r y" for y
    using Cons.prems that by (intro Cons.IH wp_ret) auto
  then show ?case
    by (auto intro!: wp_bind wp_mono [OF Cons.prems(1)])
qed (simp add: wp_ret)

text \<open>The columns of the walk; a hold changes none of them.\<close>

definition walk :: "deliveries \<Rightarrow> (WebhookDeliveryID \<times> DeliveryState \<times> int) list" where
  "walk rows = map (\<lambda>r. (wd_id r, wd_state r, wd_attempts r)) rows"

lemma walk_cong:
  assumes "walk rows' = walk rows"
  shows "walk_ok rows' = walk_ok rows" "budget rows' = budget rows" "claims xs rows' = claims xs rows"
proof -
  have "walk_ok rows = (distinct (map fst (walk rows)) \<and>
      (\<forall>(i, st, k) \<in> set (walk rows). st = DeliveryStatePending \<longrightarrow> 0 \<le> k \<and> k < MaxAttempts))" for rows
    by (auto simp: walk_ok_def walk_def comp_def)
  then show "walk_ok rows' = walk_ok rows" by (simp only: assms)
  have "budget rows = sum_list (map (\<lambda>(i, st, k). if st = DeliveryStatePending then nat (MaxAttempts - k) else 0) (walk rows))" for rows
    by (simp add: budget_def walk_def remaining_def [abs_def] comp_def)
  then show "budget rows' = budget rows" by (simp only: assms)
  have "claims xs rows = (distinct (map cw_id xs) \<and> (\<forall>x \<in> set xs. (cw_id x, DeliveryStatePending, cw_attempts x) \<in> set (walk rows)))" for rows
    unfolding claims_def claimedRow_def walk_def set_map image_iff prod.inject by metis
  then show "claims xs rows' = claims xs rows" by (simp only: assms)
qed

lemma distinct_due:
  assumes "distinct (map wd_id rows)"
  shows "distinct (map wd_id (dueDeliveries k now rows))"
proof -
  have "distinct (map wd_id (sort_key wd_next (filter p rows)))" for p
    using assms by (auto simp: distinct_map inj_on_def)
  then show ?thesis by (simp add: dueDeliveries_def take_map [symmetric] distinct_take del: take_map)
qed

lemma list_all2_row: "\<lbrakk>list_all2 P rs vs; v \<in> set vs\<rbrakk> \<Longrightarrow> \<exists>r \<in> set rs. P r v"
  by (induction rule: list_all2_induct) auto

lemma walk_hold: "walk (updateWhere p (wd_next_update f) rows) = walk rows"
  by (induction rows) (simp_all add: walk_def)

lemma wp_claimTx:
  assumes ok: "walk_ok rows" and ids: "exactIDs e"
  shows "wp e (claimTx k hold) (\<lambda>claimed rows'. walk rows' = walk rows \<and> claims claimed rows) (\<lambda>_ g. g = id) rows"
  unfolding claimTx_def scanT_def
proof (intro wp_bind wp_ask wp_query wp_ret refl
    wp_mapT_rel [where P = "\<lambda>r x. cw_id x = wd_id r \<and> cw_attempts x = wd_attempts r"], goal_cases)
  case (1 m r)
  show ?case
    unfolding scanClaimedWebhookDelivery_def
    by (intro wp_lift wp_bind wp_parse wp_case_sum wp_raise wp_ret refl)
       (use ids in \<open>auto simp: ParseWebhookDeliveryID_def fromIDResult_Inr exactIDs_def\<close>)
next
  case (2 m claimed)
  then have all: "list_all2 (\<lambda>r x. cw_id x = wd_id r \<and> cw_attempts x = wd_attempts r) (dueDeliveries k (clock e m) rows) claimed" .
  then have "map cw_id claimed = map wd_id (dueDeliveries k (clock e m) rows)"
    by (induction rule: list_all2_induct) simp_all
  then have "distinct (map cw_id claimed)" using distinct_due ok by (simp add: walk_ok_def)
  moreover have "\<exists>r \<in> set rows. claimedRow x r" if x: "x \<in> set claimed" for x
  proof -
    obtain r where "r \<in> set (dueDeliveries k (clock e m) rows)" "cw_id x = wd_id r" "cw_attempts x = wd_attempts r"
      using list_all2_row [OF all x] by blast
    then show ?thesis by (auto simp: dueDeliveries_def claimedRow_def dest!: in_set_takeD)
  qed
  ultimately have "claims claimed rows" by (simp add: claims_def)
  then show ?case
    by (intro wp_for [where I = "\<lambda>rows'. walk rows' = walk rows"] wp_exec wp_ret refl)
       (auto simp: holdDelivery_def walk_hold)
qed

lemma claim_step:
  assumes "ClaimDueDeliveries k hold e n rows = (res, n', rows')" "walk_ok rows" "exactIDs e"
  shows "walk rows' = walk rows \<and> (\<forall>claimed. res = Inr claimed \<longrightarrow> claims claimed rows')"
proof (rule runT_rule [OF runN_runT [OF assms(1) [unfolded ClaimDueDeliveries_def]],
      where P = "\<lambda>res rows'. walk rows' = walk rows \<and> (\<forall>claimed. res = Inr claimed \<longrightarrow> claims claimed rows')"], goal_cases)
  case 1
  have held: "claims claimed rows'" if "walk rows' = walk rows" "claims claimed rows" for claimed rows'
    using walk_cong(3) [OF that(1)] that(2) by blast
  show ?case
    by (intro wp_bind wp_lift, rule wp_mono [OF wp_claimTx [OF assms(2,3)]], rule wp_ret) (use held in auto)
qed simp

lemma walk_remainingOf:
  assumes "walk rows' = walk rows"
  shows "remainingOf i rows' = remainingOf i rows"
proof -
  have "walk (filter (\<lambda>r. wd_id r = i) rows) = filter (\<lambda>c. fst c = i) (walk rows)" for rows
    by (simp add: walk_def filter_map comp_def)
  with assms show ?thesis unfolding remainingOf_def by (metis walk_cong(2))
qed

text \<open>One pass of the dispatcher pays for every attempt out of the budget of the rows.\<close>

lemma runBatches_step:
  assumes ids: "exactIDs e"
  shows "\<lbrakk>walk_ok rows; runBatches b dp att del e n rows = (res, n', rows')\<rbrakk> \<Longrightarrow> walk_ok rows' \<and>
     count_list (runPosts b dp e n rows) (i, True) + remainingOf i rows' \<le> remainingOf i rows \<and>
     (fault e = (\<lambda>_. False) \<and> clean dp \<longrightarrow> (\<forall>p \<in> set (runPosts b dp e n rows). snd p))"
proof (induction b arbitrary: att del n rows)
  case (Suc b)
  obtain c n1 rows1 where cl: "ClaimDueDeliveries claimBatchSize claimHold e n rows = (c, n1, rows1)" by (metis prod_cases3)
  note claim = claim_step [OF cl Suc.prems(1) ids]
  with Suc.prems(1) have ok1: "walk_ok rows1" "remainingOf i rows1 = remainingOf i rows"
    by (simp_all add: walk_cong [of rows1 rows] walk_remainingOf [of rows1 rows])
  show ?case
  proof (cases c)
    case (Inl reason)
    with Suc.prems(2) ok1 show ?thesis by (auto simp: cl)
  next
    case (Inr claimed)
    obtain k n2 rows2 where all: "attemptAll dp claimed e n1 rows1 = (k, n2, rows2)" by (metis prod_cases3)
    have cs: "claims claimed rows1" using claim Inr by simp
    note batch = attemptAll_step [OF ok1(1) cs all, where i = i]
    have ok2: "walk_ok rows2" by (rule attemptAll_walk [OF ok1(1) cs all])
    show ?thesis
    proof (cases "length claimed < claimBatchSize")
      case True
      with Suc.prems(2) ok1(2) ok2 batch show ?thesis by (auto simp: cl Inr all)
    next
      case False
      with Suc.prems(2) have "runBatches b dp (att + length claimed) (del + k) e n2 rows2 = (res, n', rows')" by (simp add: cl Inr all)
      from Suc.IH [OF ok2 this] batch ok1(2) False show ?thesis by (auto simp: cl Inr all)
    qed
  qed
qed auto

lemma remainingOf_bound:
  assumes "walk_ok rows"
  shows "remainingOf i rows \<le> nat MaxAttempts"
    "\<lbrakk>r \<in> set rows; wd_id r = i; wd_state r = DeliveryStatePending\<rbrakk> \<Longrightarrow> 0 < remainingOf i rows"
proof -
  have one: "remaining r \<le> nat MaxAttempts" if "r \<in> set rows" for r
    using assms that by (auto simp: remaining_def walk_ok_def)
  show "remainingOf i rows \<le> nat MaxAttempts"
  proof (cases "\<exists>r \<in> set rows. wd_id r = i")
    case True
    then obtain r where r: "r \<in> set rows" "wd_id r = i" by blast
    with assms have "filter (\<lambda>x. wd_id x = wd_id r) rows = [r]" by (intro filter_member) (simp_all add: walk_ok_def)
    with r one show ?thesis by (simp add: remainingOf_def budget_def)
  next
    case False
    then show ?thesis by (simp add: remainingOf_def budget_def filter_False)
  qed
  show "0 < remainingOf i rows" if r: "r \<in> set rows" "wd_id r = i" "wd_state r = DeliveryStatePending"
  proof -
    have "filter (\<lambda>x. wd_id x = wd_id r) rows = [r]" using assms r(1) by (intro filter_member) (simp_all add: walk_ok_def)
    with assms r show ?thesis by (simp add: remainingOf_def budget_def remaining_def walk_ok_def)
  qed
qed

text \<open>The jitter keeps a delay within a fifth of its base.\<close>

lemma scaled_bounds:
  fixes K j base :: int
  assumes "0 < K" "0 \<le> j" "j \<le> K" "0 \<le> base"
  shows "4 * base < 5 * (base * (4 * K + 2 * j) div (5 * K) + 1)" "5 * (base * (4 * K + 2 * j) div (5 * K)) \<le> 6 * base"
proof -
  define q where "q = base * (4 * K + 2 * j) div (5 * K)"
  have up: "base * j \<le> base * K" and low: "0 \<le> base * j" using assms by (auto intro: mult_left_mono)
  have "base * (4 * K + 2 * j) = q * (5 * K) + base * (4 * K + 2 * j) mod (5 * K)" by (simp only: q_def div_mult_mod_eq)
  moreover have "0 \<le> base * (4 * K + 2 * j) mod (5 * K)" "base * (4 * K + 2 * j) mod (5 * K) < 5 * K"
    using assms(1) by simp_all
  ultimately have q: "q * (5 * K) \<le> base * (4 * K + 2 * j)" "base * (4 * K + 2 * j) < q * (5 * K) + 5 * K" by linarith+
  have "K * (5 * q) \<le> K * (6 * base)" using q(1) up by (simp only: algebra_simps)
  moreover have "K * (4 * base) < K * (5 * (q + 1))" using q(2) low by (simp only: algebra_simps)
  moreover note assms(1)
  ultimately show "4 * base < 5 * (base * (4 * K + 2 * j) div (5 * K) + 1)" "5 * (base * (4 * K + 2 * j) div (5 * K)) \<le> 6 * base"
    unfolding q_def [symmetric] by (simp_all only: mult_le_cancel_left_pos mult_less_cancel_left_pos)
qed

lemma jitter_bounds:
  assumes "jitter < 2 ^ 53" "0 \<le> base"
  shows "4 * base < 5 * (jitterDelay base jitter + 1)" "5 * jitterDelay base jitter \<le> 6 * base"
proof -
  have "int jitter \<le> 2 ^ 53" using assms(1) by simp
  from scaled_bounds [of "2 ^ 53", OF _ _ this assms(2)]
  show "4 * base < 5 * (jitterDelay base jitter + 1)" "5 * jitterDelay base jitter \<le> 6 * base"
    by (simp_all add: jitterDelay_def)
qed

section \<open>Passes one after another\<close>

text \<open>
  The lifecycle runner calls \<open>RunOnce\<close> on a ticker; \<open>passes\<close> is any number of those calls,
  each with its own replies of the network, and the log of all their attempts.
\<close>

fun passes :: "dispatcher list \<Rightarrow> env \<Rightarrow> nat \<Rightarrow> deliveries \<Rightarrow> (WebhookDeliveryID \<times> bool) list \<times> nat \<times> deliveries" where
  "passes [] e n rows = ([], n, rows)"
| "passes (dp # dps) e n rows = (case RunOnce dp e n rows of (_, n1, rows1) \<Rightarrow>
     case passes dps e n1 rows1 of (later, n2, rows2) \<Rightarrow> (runPosts maxClaimBatchesPerRun dp e n rows @ later, n2, rows2))"

lemma passes_step:
  assumes "exactIDs e" "walk_ok rows" "passes dps e n rows = (log, n', rows')"
  shows "walk_ok rows' \<and> count_list log (i, True) + remainingOf i rows' \<le> remainingOf i rows \<and>
    (fault e = (\<lambda>_. False) \<and> list_all clean dps \<longrightarrow> (\<forall>p \<in> set log. snd p))"
  using assms(2,3)
proof (induction dps arbitrary: n rows log n' rows')
  case (Cons dp dps)
  obtain res n1 rows1 where once: "RunOnce dp e n rows = (res, n1, rows1)" by (metis prod_cases3)
  obtain log' n2 rows2 where tail: "passes dps e n1 rows1 = (log', n2, rows2)" by (metis prod_cases3)
  note step = runBatches_step [OF assms(1) Cons.prems(1) once [unfolded RunOnce_def], where i = i]
  from Cons.IH [OF _ tail] step Cons.prems(2) show ?case by (fastforce simp: once tail)
qed simp

lemma logged_attempts:
  assumes "\<forall>p \<in> set log. snd p"
  shows "length (filter (\<lambda>p. fst p = i) log) = count_list log (i, True)"
  using assms by (induction log) auto

text \<open>A status the database refuses: the attempt leaves the row as it was.\<close>

lemma attempt_refused:
  assumes "\<not> utf8 (fst (postDelivery dp n x))"
  shows "attemptDelivery dp x e n rows = (snd (postDelivery dp n x), Suc (Suc n), rows)"
proof -
  obtain b n' rows' where run: "attemptDelivery dp x e n rows = (b, n', rows')" by (metis prod_cases3)
  show ?thesis using attempt_writes [OF run] assms by (simp add: run)
qed

section \<open>What a pass keeps of the rows\<close>

text \<open>No pass adds, removes or reorders rows, or changes whose deliveries they are.\<close>

definition tags :: "deliveries \<Rightarrow> (WebhookDeliveryID \<times> WebhookSubscriptionID) list" where
  "tags rows = map (\<lambda>r. (wd_id r, wd_subscription r)) rows"

lemma tags_update: "(\<And>r. (wd_id (f r), wd_subscription (f r)) = (wd_id r, wd_subscription r)) \<Longrightarrow> tags (updateWhere p f rows) = tags rows"
  by (simp add: tags_def)

lemma nextRow_subscription [simp]: "wd_subscription (nextRow dp x n r) = wd_subscription r"
  by (auto simp: nextRow_def split: prod.split retryDecision.split)

lemma attempt_tags: "attemptDelivery dp x e n rows = (b, n', rows') \<Longrightarrow> tags rows' = tags rows"
  by (drule attempt_writes(3)) (simp add: tags_update)

lemma attemptAll_tags: "attemptAll dp xs e n rows = (k, n', rows') \<Longrightarrow> tags rows' = tags rows"
proof (induction xs arbitrary: n rows k n' rows')
  case (Cons x xs)
  obtain b n1 rows1 where a: "attemptDelivery dp x e n rows = (b, n1, rows1)" by (metis prod_cases3)
  obtain k' n2 rows2 where all: "attemptAll dp xs e n1 rows1 = (k', n2, rows2)" by (metis prod_cases3)
  have "tags rows1 = tags rows" by (rule attempt_tags [OF a])
  with Cons.IH [OF all] Cons.prems show ?case by (simp add: a all)
qed simp

lemma claim_tags:
  assumes "ClaimDueDeliveries k hold e n rows = (res, n', rows')"
  shows "tags rows' = tags rows"
proof (rule runT_rule [OF runN_runT [OF assms [unfolded ClaimDueDeliveries_def]], where P = "\<lambda>_ rows'. tags rows' = tags rows"], goal_cases)
  case 1
  show ?case
    unfolding claimTx_def
    by (intro wp_bind wp_lift wp_ask wp_scan wp_for [where I = "\<lambda>rows'. tags rows' = tags rows"] wp_exec)
       (auto simp: holdDelivery_def tags_update scanClaimedWebhookDelivery_def intro!: wp_rules)
qed simp

lemma runBatches_tags: "runBatches b dp att del e n rows = (res, n', rows') \<Longrightarrow> tags rows' = tags rows"
proof (induction b arbitrary: att del n rows)
  case (Suc b)
  obtain c n1 rows1 where cl: "ClaimDueDeliveries claimBatchSize claimHold e n rows = (c, n1, rows1)" by (metis prod_cases3)
  show ?case
  proof (cases c)
    case (Inl reason)
    with Suc.prems claim_tags [OF cl] show ?thesis by (simp add: cl)
  next
    case (Inr claimed)
    obtain k n2 rows2 where all: "attemptAll dp claimed e n1 rows1 = (k, n2, rows2)" by (metis prod_cases3)
    have "tags rows2 = tags rows" using attemptAll_tags [OF all] claim_tags [OF cl] by simp
    with Suc.IH [where rows = rows2] Suc.prems show ?thesis by (simp add: cl Inr all split: if_splits)
  qed
qed simp

end
