(* ===== verification/Outbox.thy ===== *)
theory Outbox
  imports TaskService Webhooks "HOL-Library.List_Lexorder" "HOL-Library.Char_ord"
begin

text \<open>
  From a recorded event to its readers: \<open>internal/db/event_store.go\<close>, the recorder of
  \<open>internal/event\<close>, the inbox of \<open>internal/notification\<close> with its store, and the
  expansion of an event into webhook deliveries.  The state \<open>outbox\<close> is the database of
  the other theories with the columns and tables only these components use.  The titles of
  tasks, which feed and inbox show beside a row, are not modelled.  Instants are nanoseconds.
\<close>

section \<open>Notifications\<close>

datatype NotificationKind =
    NotifySubmissionCreated | NotifySubmissionAccepted | NotifySubmissionChangesRequested | NotifySubmissionRejected
  | NotifySubmissionSuperseded | NotifySubmissionCommented | NotifyTaskFunded | NotifyTaskCancelled | NotifyTaskExpired
  | NotifyTaskCommented | NotifySeriesCommented | NotifyReservationRequested | NotifyReservationApproved
  | NotifyReservationDeclined | NotifyReservationCancelled | NotifyReservationExpired | NotifyPayoutReceived
  | NotifyCreditGranted | NotifyTipReceived | NotifyCollectibleAwarded | NotifyCollectibleWithdrawn
  | NotifyCollectibleReleased | NotifyCreditsReceived

fun NotificationKind_String :: "NotificationKind \<Rightarrow> string" where
  "NotificationKind_String NotifySubmissionCreated = ''submission_created''"
| "NotificationKind_String NotifySubmissionAccepted = ''submission_accepted''"
| "NotificationKind_String NotifySubmissionChangesRequested = ''submission_changes_requested''"
| "NotificationKind_String NotifySubmissionRejected = ''submission_rejected''"
| "NotificationKind_String NotifySubmissionSuperseded = ''submission_superseded''"
| "NotificationKind_String NotifySubmissionCommented = ''submission_commented''"
| "NotificationKind_String NotifyTaskFunded = ''task_funded''"
| "NotificationKind_String NotifyTaskCancelled = ''task_cancelled''"
| "NotificationKind_String NotifyTaskExpired = ''task_expired''"
| "NotificationKind_String NotifyTaskCommented = ''task_commented''"
| "NotificationKind_String NotifySeriesCommented = ''series_commented''"
| "NotificationKind_String NotifyReservationRequested = ''reservation_requested''"
| "NotificationKind_String NotifyReservationApproved = ''reservation_approved''"
| "NotificationKind_String NotifyReservationDeclined = ''reservation_declined''"
| "NotificationKind_String NotifyReservationCancelled = ''reservation_cancelled''"
| "NotificationKind_String NotifyReservationExpired = ''reservation_expired''"
| "NotificationKind_String NotifyPayoutReceived = ''payout_received''"
| "NotificationKind_String NotifyCreditGranted = ''credit_granted''"
| "NotificationKind_String NotifyTipReceived = ''tip_received''"
| "NotificationKind_String NotifyCollectibleAwarded = ''collectible_awarded''"
| "NotificationKind_String NotifyCollectibleWithdrawn = ''collectible_withdrawn''"
| "NotificationKind_String NotifyCollectibleReleased = ''collectible_released''"
| "NotificationKind_String NotifyCreditsReceived = ''credits_received''"

definition AllNotificationKinds :: "NotificationKind list" where
  "AllNotificationKinds = [NotifySubmissionCreated, NotifySubmissionAccepted, NotifySubmissionChangesRequested,
     NotifySubmissionRejected, NotifySubmissionSuperseded, NotifySubmissionCommented, NotifyTaskFunded,
     NotifyTaskCancelled, NotifyTaskExpired, NotifyTaskCommented, NotifySeriesCommented, NotifyReservationRequested,
     NotifyReservationApproved, NotifyReservationDeclined, NotifyReservationCancelled, NotifyReservationExpired,
     NotifyPayoutReceived, NotifyCreditGranted, NotifyTipReceived, NotifyCollectibleAwarded,
     NotifyCollectibleWithdrawn, NotifyCollectibleReleased, NotifyCreditsReceived]"

definition ParseNotificationKind :: "string \<Rightarrow> NotificationKind result" where
  "ParseNotificationKind = parseFrom AllNotificationKinds NotificationKind_String
     (NewDomainError ErrorCodeInvalidEnum ''unknown notification kind'')"

interpretation notification_kind: sealed_enum NotificationKind_String ParseNotificationKind
  unfolding ParseNotificationKind_def
proof (rule sealed_enum_parseFrom)
  show "k \<in> set AllNotificationKinds" for k
    by (cases k) (simp_all add: AllNotificationKinds_def)
  show "distinct (map NotificationKind_String AllNotificationKinds)"
    by (simp add: AllNotificationKinds_def)
qed

datatype NotificationState = StateUnread | StateRead

fun NotificationState_String :: "NotificationState \<Rightarrow> string" where
  "NotificationState_String StateUnread = ''unread''"
| "NotificationState_String StateRead = ''read''"

definition ParseNotificationState :: "string \<Rightarrow> NotificationState result" where
  "ParseNotificationState raw =
     (if raw = ''unread'' then Inr StateUnread
      else if raw = ''read'' then Inr StateRead
      else Inl (NewDomainError ErrorCodeInvalidEnum ''unknown notification state''))"

interpretation notification_state: sealed_enum NotificationState_String ParseNotificationState
  by unfold_locales (rename_tac raw k, case_tac k; simp add: ParseNotificationState_def)

datatype StateFilter = AnyState | UnreadOnly

record NotificationSubject =
  ns_kind :: string
  ns_id :: string

type_synonym NotificationID = string

datatype EventRef = NoSourceEvent | FromEvent DomainEventID

record Notification =
  nt_id :: NotificationID
  nt_recipient :: UserID
  nt_actor :: UserID
  nt_actor_name :: "string option"
  nt_kind :: NotificationKind
  nt_subject :: NotificationSubject
  nt_state :: NotificationState
  nt_metadata :: Metadata
  nt_source :: EventRef
  nt_created_at :: int

section \<open>Rules\<close>

datatype NotificationRule = NoNotification | NotifyAs NotificationKind

fun NotificationRuleFor :: "Kind \<Rightarrow> NotificationRule" where
  "NotificationRuleFor KindTaskOpened = NoNotification"
| "NotificationRuleFor KindTaskFunded = NotifyAs NotifyTaskFunded"
| "NotificationRuleFor KindTaskCancelled = NotifyAs NotifyTaskCancelled"
| "NotificationRuleFor KindTaskExpired = NotifyAs NotifyTaskExpired"
| "NotificationRuleFor KindTaskCommented = NotifyAs NotifyTaskCommented"
| "NotificationRuleFor KindSeriesCommented = NotifyAs NotifySeriesCommented"
| "NotificationRuleFor KindReservationRequested = NotifyAs NotifyReservationRequested"
| "NotificationRuleFor KindReservationApproved = NotifyAs NotifyReservationApproved"
| "NotificationRuleFor KindReservationDeclined = NotifyAs NotifyReservationDeclined"
| "NotificationRuleFor KindReservationCancelled = NotifyAs NotifyReservationCancelled"
| "NotificationRuleFor KindReservationExpired = NotifyAs NotifyReservationExpired"
| "NotificationRuleFor KindSubmissionCreated = NotifyAs NotifySubmissionCreated"
| "NotificationRuleFor KindSubmissionAccepted = NotifyAs NotifySubmissionAccepted"
| "NotificationRuleFor KindSubmissionChangesRequested = NotifyAs NotifySubmissionChangesRequested"
| "NotificationRuleFor KindSubmissionRejected = NotifyAs NotifySubmissionRejected"
| "NotificationRuleFor KindSubmissionSuperseded = NotifyAs NotifySubmissionSuperseded"
| "NotificationRuleFor KindSubmissionCommented = NotifyAs NotifySubmissionCommented"
| "NotificationRuleFor KindPayoutReceived = NotifyAs NotifyPayoutReceived"
| "NotificationRuleFor KindCreditGranted = NotifyAs NotifyCreditGranted"
| "NotificationRuleFor KindTipReceived = NotifyAs NotifyTipReceived"
| "NotificationRuleFor KindCollectibleAwarded = NotifyAs NotifyCollectibleAwarded"
| "NotificationRuleFor KindCollectibleWithdrawn = NotifyAs NotifyCollectibleWithdrawn"
| "NotificationRuleFor KindCollectibleReleased = NotifyAs NotifyCollectibleReleased"
| "NotificationRuleFor KindCreditsSent = NotifyAs NotifyCreditsReceived"

definition NotificationSubjectFor :: "EventSubject \<Rightarrow> NotificationSubject" where
  "NotificationSubjectFor s = (case sj_submission s of
     Some i \<Rightarrow> \<lparr>ns_kind = ''submission'', ns_id = i\<rparr>
   | None \<Rightarrow> (case sj_collectible s of
     Some i \<Rightarrow> \<lparr>ns_kind = ''collectible'', ns_id = i\<rparr>
   | None \<Rightarrow> (case sj_task s of
     Some i \<Rightarrow> \<lparr>ns_kind = ''task'', ns_id = i\<rparr>
   | None \<Rightarrow> (case sj_series s of
     Some i \<Rightarrow> \<lparr>ns_kind = ''series'', ns_id = i\<rparr>
   | None \<Rightarrow> (case sj_organization s of
     Some i \<Rightarrow> \<lparr>ns_kind = ''organization'', ns_id = i\<rparr>
   | None \<Rightarrow> \<lparr>ns_kind = ''platform'', ns_id = []\<rparr>)))))"

section \<open>Subscriptions and the outbox tables\<close>

datatype WebhookOwner = OwnerUser UserID | OwnerOrganization OrganizationID

datatype MarketplaceTaskTypeFilter = AnyMarketplaceTaskType | MarketplaceTaskTypeIs TaskType

datatype MarketplaceRewardFilter = NoMinimumCreditReward | MinimumCreditReward int

datatype Audience = RecipientAudience | MarketplaceAudience MarketplaceTaskTypeFilter MarketplaceRewardFilter

datatype WebhookState = StateActive | StateRevoked

record subscription_row =
  ws_id :: WebhookSubscriptionID
  ws_owner :: WebhookOwner
  ws_audience :: Audience
  ws_state :: WebhookState
  ws_kinds :: "Kind list"
  ws_url :: string

text \<open>A delivery row with the event it stands for; the URL and the actor are joined to it.\<close>

record event_delivery =
  ed_event :: nat
  ed_row :: delivery_row

text \<open>
  \<open>ob_occurred\<close> and \<open>ob_attempts\<close> are the columns \<open>occurred_at\<close> and \<open>dispatch_attempts\<close> of the
  event with the given sequence number.
\<close>

record outbox =
  ob_db :: db
  ob_occurred :: "nat \<Rightarrow> int"
  ob_attempts :: "nat \<Rightarrow> int"
  ob_subscriptions :: "subscription_row list"
  ob_deliveries :: "event_delivery list"
  ob_notifications :: "Notification list"

type_synonym ('r, 'a) obtx = "(outbox, 'r, 'a) tx"

abbreviation events :: "outbox \<Rightarrow> event_row list" where
  "events s \<equiv> domain_events (ob_db s)"

definition updateEvents :: "(event_row \<Rightarrow> bool) \<Rightarrow> (event_row \<Rightarrow> event_row) \<Rightarrow> outbox \<Rightarrow> outbox" where
  "updateEvents p f s = s\<lparr>ob_db := (ob_db s)\<lparr>domain_events := updateWhere p f (events s)\<rparr>\<rparr>"

section \<open>Storing events\<close>

record Event =
  oe_id :: DomainEventID
  oe_kind :: Kind
  oe_actor :: Actor
  oe_subject :: EventSubject
  oe_metadata :: Metadata
  oe_occurred_at :: int

text \<open>\<open>StoredEvent\<close> with the actor's name where the read resolves it.\<close>

record StoredEvent =
  se_event :: Event
  se_cursor :: Cursor
  se_actor_name :: "string option"

definition WithoutEnrichment :: "StoredEvent \<Rightarrow> StoredEvent" where
  "WithoutEnrichment v = v\<lparr>se_actor_name := None\<rparr>"

definition Draft_Event :: "Draft \<Rightarrow> int \<Rightarrow> Event" where
  "Draft_Event draft occurredAt = \<lparr>oe_id = dr_id draft, oe_kind = dr_kind draft, oe_actor = dr_actor draft,
     oe_subject = dr_subject draft, oe_metadata = dr_metadata draft, oe_occurred_at = occurredAt\<rparr>"

definition eventDraft :: "Event \<Rightarrow> UserID list \<Rightarrow> Draft" where
  "eventDraft v us = \<lparr>dr_id = oe_id v, dr_kind = oe_kind v, dr_actor = oe_actor v, dr_subject = oe_subject v,
     dr_metadata = oe_metadata v, dr_recipients = us\<rparr>"

definition insertDomainEvent :: "Event \<Rightarrow> UserID list \<Rightarrow> outbox \<Rightarrow> outbox option" where
  "insertDomainEvent v us s = (let q = next_event_seq (ob_db s) in
     case insertEvent (eventDraft v us) (ob_db s) of
       None \<Rightarrow> None
     | Some d \<Rightarrow> Some (s\<lparr>ob_db := d, ob_occurred := (ob_occurred s)(q := oe_occurred_at v),
                        ob_attempts := (ob_attempts s)(q := 0)\<rparr>))"

definition insertDomainEventInTx :: "'r \<Rightarrow> Event \<Rightarrow> UserID list \<Rightarrow> ('r, nat) obtx" where
  "insertDomainEventInTx err v us =
     bindT (queryT err (\<lambda>_. ()))
     (\<lambda>_. bindT (countT err (\<lambda>s. next_event_seq (ob_db s)) (insertDomainEvent v us))
     (\<lambda>q. bindT (forT us (\<lambda>u. queryT err (\<lambda>_. ()))) (\<lambda>_. retT q)))"

definition EventStore_Append :: "Event \<Rightarrow> UserID list \<Rightarrow> env \<Rightarrow> nat \<Rightarrow> outbox \<Rightarrow> StoredEvent result \<times> nat \<times> outbox" where
  "EventStore_Append v us = runN (Inl (unusable ''begin event append failed''))
     (bindT (insertDomainEventInTx (Inl (unusable ''append domain event failed'')) v us)
     (\<lambda>q. retT (Inl (unusable ''commit event append failed''),
        Inr (WithoutEnrichment \<lparr>se_event = v, se_cursor = int q, se_actor_name = None\<rparr>))))"

section \<open>Reading events back\<close>

definition ParseDomainEventID :: "env \<Rightarrow> string \<Rightarrow> DomainEventID result" where
  "ParseDomainEventID e raw = fromIDResult (uuid_parse e raw)"

definition ParseTaskSeriesID :: "env \<Rightarrow> string \<Rightarrow> TaskSeriesID result" where
  "ParseTaskSeriesID e raw = fromIDResult (uuid_parse e raw)"

fun parseRef :: "(string \<Rightarrow> string result) \<Rightarrow> string option \<Rightarrow> string option option" where
  "parseRef p None = Some None"
| "parseRef p (Some raw) = (case p raw of Inl _ \<Rightarrow> None | Inr v \<Rightarrow> Some (Some v))"

definition parseSubject :: "env \<Rightarrow> EventSubject \<Rightarrow> EventSubject option" where
  "parseSubject e s =
     (case parseRef (ParseTaskID e) (sj_task s) of None \<Rightarrow> None | Some t \<Rightarrow>
      case parseRef (ParseSubmissionID e) (sj_submission s) of None \<Rightarrow> None | Some b \<Rightarrow>
      case parseRef (ParseTaskReservationID e) (sj_reservation s) of None \<Rightarrow> None | Some r \<Rightarrow>
      case parseRef (ParseTaskSeriesID e) (sj_series s) of None \<Rightarrow> None | Some x \<Rightarrow>
      case parseRef (ParseOrganizationID e) (sj_organization s) of None \<Rightarrow> None | Some g \<Rightarrow>
      case parseRef (ParseCollectibleID e) (sj_collectible s) of None \<Rightarrow> None | Some c \<Rightarrow>
      Some \<lparr>sj_task = t, sj_submission = b, sj_reservation = r, sj_series = x, sj_organization = g, sj_collectible = c\<rparr>)"

text \<open>
  \<open>parseStoredEventColumns\<close>: \<open>None\<close> is a column that does not parse.  The metadata is given back
  as it was recorded; the column is a \<open>jsonb\<close>, whose text PostgreSQL reformats.
\<close>

definition parseStoredEventColumns :: "env \<Rightarrow> event_row \<Rightarrow> int \<Rightarrow> StoredEvent option" where
  "parseStoredEventColumns e r occurredAt = (let d = ev_draft r in
     case ParseDomainEventID e (dr_id d) of Inl _ \<Rightarrow> None | Inr i \<Rightarrow>
     case ParseKind (Kind_String (dr_kind d)) of Inl _ \<Rightarrow> None | Inr kind \<Rightarrow>
     case ParseUserID e (ActorUserID (dr_actor d)) of Inl _ \<Rightarrow> None | Inr actorID \<Rightarrow>
     case parseSubject e (dr_subject d) of None \<Rightarrow> None | Some subject \<Rightarrow>
     Some (WithoutEnrichment
       \<lparr>se_event = \<lparr>oe_id = i, oe_kind = kind,
           oe_actor = (case dr_actor d of ActorSystem \<Rightarrow> ActorSystem | ActorUser _ \<Rightarrow> ActorUser actorID),
           oe_subject = subject, oe_metadata = dr_metadata d, oe_occurred_at = occurredAt\<rparr>,
         se_cursor = int (ev_seq r), se_actor_name = None\<rparr>))"

section \<open>The cursor feeds\<close>

datatype CursorFilter = FromStart | After Cursor

fun afterSequence :: "CursorFilter \<Rightarrow> int" where
  "afterSequence FromStart = 0"
| "afterSequence (After c) = c"

text \<open>The rows of the feed query: the owner's events after the cursor in sequence order, each with its actor.\<close>

definition feedRows :: "(event_row \<Rightarrow> bool) \<Rightarrow> int \<Rightarrow> outbox \<Rightarrow> (event_row \<times> int \<times> user_row) list" where
  "feedRows owned after s =
     concat (map (\<lambda>r. map (\<lambda>u. (r, ob_occurred s (ev_seq r), u))
         (filter (\<lambda>u. us_id u = ActorUserID (dr_actor (ev_draft r))) (users (ob_db s))))
       (sort_key ev_seq (filter (\<lambda>r. owned r \<and> after < int (ev_seq r)) (events s))))"

fun scanEnrichedFeedEvent :: "env \<Rightarrow> event_row \<times> int \<times> user_row \<Rightarrow> StoredEvent option" where
  "scanEnrichedFeedEvent e (r, occurredAt, u) =
     (case parseStoredEventColumns e r occurredAt of None \<Rightarrow> None | Some stored \<Rightarrow>
      case NewDisplayName (userDisplayNameSQL (us_display_name u) (us_email u)) of
        Inl _ \<Rightarrow> None | Inr name \<Rightarrow> Some (stored\<lparr>se_actor_name := Some name\<rparr>))"

definition listEnrichedFeedPage ::
  "(event_row \<Rightarrow> bool) \<Rightarrow> CursorFilter \<Rightarrow> Page \<Rightarrow> env \<Rightarrow> nat \<Rightarrow> outbox \<Rightarrow> StoredEvent list result \<times> nat" where
  "listEnrichedFeedPage owned after page = readN (bindT
     (scanT (Inl (unusable ''list events failed'')) (Inl (unusable ''scan event failed'')) (Inl (unusable ''iterate events failed''))
        (\<lambda>s. sqlPage page (feedRows owned (afterSequence after) s))
        (\<lambda>row. bindT (askT (\<lambda>e n. scanEnrichedFeedEvent e row))
           (\<lambda>v. case v of None \<Rightarrow> raiseT (Inl (unusable ''scan event failed'')) | Some x \<Rightarrow> retT x)))
     (\<lambda>values. retT (Inr values)))"

definition ListForRecipient ::
  "UserID \<Rightarrow> CursorFilter \<Rightarrow> Page \<Rightarrow> env \<Rightarrow> nat \<Rightarrow> outbox \<Rightarrow> StoredEvent list result \<times> nat" where
  "ListForRecipient u = listEnrichedFeedPage (\<lambda>r. u \<in> set (dr_recipients (ev_draft r)))"

definition ListForOrganization ::
  "OrganizationID \<Rightarrow> CursorFilter \<Rightarrow> Page \<Rightarrow> env \<Rightarrow> nat \<Rightarrow> outbox \<Rightarrow> StoredEvent list result \<times> nat" where
  "ListForOrganization i = listEnrichedFeedPage (\<lambda>r. sj_organization (dr_subject (ev_draft r)) = Some i)"

section \<open>Expansion into deliveries\<close>

definition NewWebhookDeliveryID :: "env \<Rightarrow> nat \<Rightarrow> WebhookDeliveryID result" where
  "NewWebhookDeliveryID e n = fromIDResult (uuid_new e n)"

definition marketplaceTask :: "outbox \<Rightarrow> event_row \<Rightarrow> MarketplaceTaskTypeFilter \<Rightarrow> MarketplaceRewardFilter \<Rightarrow> bool" where
  "marketplaceTask s r typeFilter rewardFilter \<longleftrightarrow>
     (\<exists>t \<in> set (tasks (ob_db s)). sj_task (dr_subject (ev_draft r)) = Some (tk_id t) \<and> tk_state t = StateOpen \<and>
        tk_visibility t = PublicVisibility \<and>
        (case typeFilter of AnyMarketplaceTaskType \<Rightarrow> True | MarketplaceTaskTypeIs ty \<Rightarrow> tk_type t = ty) \<and>
        (case rewardFilter of NoMinimumCreditReward \<Rightarrow> True
         | MinimumCreditReward m \<Rightarrow> m \<le> (case tk_reward_amount t of None \<Rightarrow> 0 | Some a \<Rightarrow> a)))"

definition subscriptionMatches :: "outbox \<Rightarrow> event_row \<Rightarrow> subscription_row \<Rightarrow> bool" where
  "subscriptionMatches s r w \<longleftrightarrow>
     ws_state w = StateActive \<and> dr_kind (ev_draft r) \<in> set (ws_kinds w) \<and>
     (case ws_audience w of
        RecipientAudience \<Rightarrow> (case ws_owner w of
            OwnerUser u \<Rightarrow> u \<in> set (dr_recipients (ev_draft r))
          | OwnerOrganization i \<Rightarrow> sj_organization (dr_subject (ev_draft r)) = Some i)
      | MarketplaceAudience typeFilter rewardFilter \<Rightarrow>
          dr_kind (ev_draft r) = KindTaskOpened \<and> marketplaceTask s r typeFilter rewardFilter)"

definition matchingSubscriptions :: "nat \<Rightarrow> outbox \<Rightarrow> WebhookSubscriptionID list" where
  "matchingSubscriptions q s = concat (map (\<lambda>r. map ws_id (filter (subscriptionMatches s r) (ob_subscriptions s)))
     (filter (\<lambda>r. ev_seq r = q) (events s)))"

definition hasDelivery :: "WebhookSubscriptionID \<Rightarrow> nat \<Rightarrow> outbox \<Rightarrow> bool" where
  "hasDelivery sub q s \<longleftrightarrow> (\<exists>x \<in> set (ob_deliveries s). wd_subscription (ed_row x) = sub \<and> ed_event x = q)"

text \<open>The columns the claim joins: the subscription's URL and the actor's names.\<close>

definition pendingDelivery :: "WebhookDeliveryID \<Rightarrow> WebhookSubscriptionID \<Rightarrow> nat \<Rightarrow> int \<Rightarrow> outbox \<Rightarrow> event_delivery" where
  "pendingDelivery i sub q now s =
     (let actor = (case rowWhere (\<lambda>r. ev_seq r = q) (events s) of None \<Rightarrow> None
            | Some r \<Rightarrow> rowWhere (\<lambda>u. us_id u = ActorUserID (dr_actor (ev_draft r))) (users (ob_db s))) in
      \<lparr>ed_event = q, ed_row = \<lparr>wd_id = i, wd_subscription = sub,
         wd_url = (case rowWhere (\<lambda>w. ws_id w = sub) (ob_subscriptions s) of None \<Rightarrow> [] | Some w \<Rightarrow> ws_url w),
         wd_actor_name = (case actor of None \<Rightarrow> [] | Some u \<Rightarrow> us_display_name u),
         wd_actor_email = (case actor of None \<Rightarrow> [] | Some u \<Rightarrow> us_email u),
         wd_state = DeliveryStatePending, wd_attempts = 0, wd_next = now, wd_status = []\<rparr>\<rparr>)"

definition insertDelivery :: "WebhookDeliveryID \<Rightarrow> WebhookSubscriptionID \<Rightarrow> nat \<Rightarrow> int \<Rightarrow> outbox \<Rightarrow> outbox option" where
  "insertDelivery i sub q now s =
     (if hasDelivery sub q s then Some s
      else if i \<in> (\<lambda>x. wd_id (ed_row x)) ` set (ob_deliveries s) then None
      else Some (s\<lparr>ob_deliveries := ob_deliveries s @ [pendingDelivery i sub q now s]\<rparr>))"

definition expandWebhookDeliveries :: "nat \<Rightarrow> (unit, nat) obtx" where
  "expandWebhookDeliveries q =
     bindT (askT clock)
     (\<lambda>now. bindT (scanT () () () (matchingSubscriptions q) retT)
     (\<lambda>subs. bindT (mapT subs (\<lambda>sub. bindT (askT NewWebhookDeliveryID) (\<lambda>r. case r of
          Inl _ \<Rightarrow> raiseT ()
        | Inr i \<Rightarrow> countT () (\<lambda>s. if hasDelivery sub q s then 0 else 1) (insertDelivery i sub q now))))
     (\<lambda>counts. retT (sum_list counts))))"

datatype DispatchStoreResult = DispatchStoreCompleted | DispatchStoreRejected DomainError

abbreviation markDispatched :: "nat \<Rightarrow> outbox \<Rightarrow> outbox option" where
  "markDispatched q s \<equiv> Some (updateEvents (\<lambda>r. ev_seq r = q \<and> ev_state r = DispatchStateRecorded)
     (ev_state_update (\<lambda>_. DispatchStateDispatched)) s)"

definition EventStore_Dispatch :: "DomainEventID \<Rightarrow> env \<Rightarrow> nat \<Rightarrow> outbox \<Rightarrow> DispatchStoreResult \<times> nat \<times> outbox" where
  "EventStore_Dispatch i = runN (DispatchStoreRejected (unusable ''begin event dispatch failed''))
     (bindT (queryT (DispatchStoreRejected (unusable ''lock event for dispatch failed''))
          (\<lambda>s. rowWhere (\<lambda>r. dr_id (ev_draft r) = i) (events s)))
     (\<lambda>row. case row of
        None \<Rightarrow> raiseT DispatchStoreCompleted
      | Some r \<Rightarrow>
          if ev_state r = DispatchStateDispatched \<or> ev_state r = DispatchStateFailed then raiseT DispatchStoreCompleted
          else bindT (liftT (\<lambda>_. DispatchStoreRejected (unusable ''expand webhook deliveries failed''))
                 (expandWebhookDeliveries (ev_seq r)))
            (\<lambda>_. bindT (execT (DispatchStoreRejected (unusable ''mark event dispatched failed'')) (markDispatched (ev_seq r)))
            (\<lambda>_. retT (DispatchStoreRejected (unusable ''commit event dispatch failed''), DispatchStoreCompleted)))))"


section \<open>The inbox\<close>

definition NewNotificationID :: "env \<Rightarrow> nat \<Rightarrow> NotificationID result" where
  "NewNotificationID e n = fromIDResult (uuid_new e n)"

definition ParseNotificationID :: "env \<Rightarrow> string \<Rightarrow> NotificationID result" where
  "ParseNotificationID e raw = fromIDResult (uuid_parse e raw)"

text \<open>The row of an event and a recipient, which the partial unique index admits once.\<close>

definition notified :: "outbox \<Rightarrow> DomainEventID \<Rightarrow> UserID \<Rightarrow> bool" where
  "notified s i u \<longleftrightarrow> (\<exists>x \<in> set (ob_notifications s). nt_source x = FromEvent i \<and> nt_recipient x = u)"

definition conflicts :: "outbox \<Rightarrow> Notification \<Rightarrow> bool" where
  "conflicts s v = (case nt_source v of NoSourceEvent \<Rightarrow> False | FromEvent i \<Rightarrow> notified s i (nt_recipient v))"

datatype CreateStoreResult = CreateStoreAccepted | CreateStoreRejected DomainError

definition NotificationStore_Create :: "Notification \<Rightarrow> env \<Rightarrow> nat \<Rightarrow> outbox \<Rightarrow> CreateStoreResult \<times> nat \<times> outbox" where
  "NotificationStore_Create v e n s =
     (if fault e n then (CreateStoreRejected (unusable ''create notification failed''), Suc n, s)
      else if conflicts s v then (CreateStoreAccepted, Suc n, s)
      else if nt_id v \<in> nt_id ` set (ob_notifications s)
      then (CreateStoreRejected (unusable ''create notification failed''), Suc n, s)
      else (CreateStoreAccepted, Suc n, s\<lparr>ob_notifications := ob_notifications s @ [v]\<rparr>))"

text \<open>One row of \<open>notificationSelectSQL\<close>: the notification joined to its actor.\<close>

definition scanNotificationRow :: "env \<Rightarrow> Notification \<times> user_row \<Rightarrow> Notification result" where
  "scanNotificationRow e row = (case row of (x, u) \<Rightarrow>
     case ParseNotificationID e (nt_id x) of Inl reason \<Rightarrow> Inl reason | Inr i \<Rightarrow>
     case ParseUserID e (nt_recipient x) of Inl reason \<Rightarrow> Inl reason | Inr recipient \<Rightarrow>
     case ParseUserID e (nt_actor x) of Inl reason \<Rightarrow> Inl reason | Inr actor \<Rightarrow>
     case ParseNotificationKind (NotificationKind_String (nt_kind x)) of Inl reason \<Rightarrow> Inl reason | Inr kind \<Rightarrow>
     case ParseNotificationState (NotificationState_String (nt_state x)) of Inl reason \<Rightarrow> Inl reason | Inr state \<Rightarrow>
     case NewDisplayName (userDisplayNameSQL (us_display_name u) (us_email u)) of Inl reason \<Rightarrow> Inl reason | Inr name \<Rightarrow>
     case (case nt_source x of NoSourceEvent \<Rightarrow> Inr NoSourceEvent
           | FromEvent raw \<Rightarrow> (case ParseDomainEventID e raw of
               Inl _ \<Rightarrow> Inl (unusable ''notification event id is invalid'') | Inr j \<Rightarrow> Inr (FromEvent j))) of
       Inl reason \<Rightarrow> Inl reason
     | Inr source \<Rightarrow> Inr \<lparr>nt_id = i, nt_recipient = recipient, nt_actor = actor, nt_actor_name = Some name, nt_kind = kind,
         nt_subject = nt_subject x, nt_state = state, nt_metadata = nt_metadata x, nt_source = source,
         nt_created_at = nt_created_at x\<rparr>)"

definition notificationRows :: "(Notification \<Rightarrow> bool) \<Rightarrow> outbox \<Rightarrow> (Notification \<times> user_row) list" where
  "notificationRows p s =
     concat (map (\<lambda>x. map (Pair x) (filter (\<lambda>u. us_id u = nt_actor x) (users (ob_db s))))
       (filter p (ob_notifications s)))"

fun inFilter :: "UserID \<Rightarrow> StateFilter \<Rightarrow> Notification \<Rightarrow> bool" where
  "inFilter u AnyState x \<longleftrightarrow> nt_recipient x = u"
| "inFilter u UnreadOnly x \<longleftrightarrow> nt_recipient x = u \<and> nt_state x = StateUnread"

definition newestFirst :: "(Notification \<times> user_row) list \<Rightarrow> (Notification \<times> user_row) list" where
  "newestFirst rows = rev (sort_key (\<lambda>(x, u). nt_created_at x) (sort_key (\<lambda>(x, u). nt_id x) rows))"

definition scanNotificationRows ::
  "DomainError \<Rightarrow> (outbox \<Rightarrow> (Notification \<times> user_row) list) \<Rightarrow> (DomainError, Notification list) obtx" where
  "scanNotificationRows queryErr rows =
     scanT queryErr (unusable ''scan notification failed'') (unusable ''read notifications failed'') rows
       (\<lambda>row. bindT (askT (\<lambda>e n. scanNotificationRow e row))
          (\<lambda>v. case v of Inl reason \<Rightarrow> raiseT reason | Inr x \<Rightarrow> retT x))"

definition NotificationStore_List ::
  "UserID \<Rightarrow> StateFilter \<Rightarrow> Page \<Rightarrow> env \<Rightarrow> nat \<Rightarrow> outbox \<Rightarrow> (Notification list \<times> nat) result \<times> nat" where
  "NotificationStore_List u flt page = readN
     (bindT (queryT (Inl (unusable ''count notifications failed'')) (\<lambda>s. length (filter (inFilter u flt) (ob_notifications s))))
     (\<lambda>total. bindT (liftT Inl (scanNotificationRows (unusable ''list notifications failed'')
          (\<lambda>s. sqlPage page (newestFirst (notificationRows (inFilter u flt) s)))))
     (\<lambda>values. retT (Inr (values, total)))))"

definition NotificationStore_CountUnread :: "UserID \<Rightarrow> env \<Rightarrow> nat \<Rightarrow> outbox \<Rightarrow> nat result \<times> nat" where
  "NotificationStore_CountUnread u = readN (bindT (queryT (Inl (unusable ''count unread notifications failed''))
     (\<lambda>s. length (filter (inFilter u UnreadOnly) (ob_notifications s)))) (\<lambda>c. retT (Inr c)))"

text \<open>
  \<open>MarkRead\<close> is an update and a read, each a statement of its own: when the read fails the
  row is marked all the same.
\<close>

definition NotificationStore_MarkRead ::
  "UserID \<Rightarrow> NotificationID \<Rightarrow> env \<Rightarrow> nat \<Rightarrow> outbox \<Rightarrow> Notification result \<times> nat \<times> outbox" where
  "NotificationStore_MarkRead u i e n s =
     (let mine = (\<lambda>x. nt_id x = i \<and> nt_recipient x = u) in
      if fault e n then (Inl (unusable ''mark notification read failed''), Suc n, s)
      else if filter mine (ob_notifications s) = []
      then (Inl (NewDomainError ErrorCodeNotFound ''notification was not found''), Suc n, s)
      else let s' = s\<lparr>ob_notifications := updateWhere mine (nt_state_update (\<lambda>_. StateRead)) (ob_notifications s)\<rparr> in
        (case readN (bindT (liftT Inl (scanNotificationRows (unusable ''read marked notification failed'')
                (notificationRows (\<lambda>x. nt_id x = i)))) (\<lambda>values. retT (Inr values))) e (Suc n) s' of
           (Inl reason, n') \<Rightarrow> (Inl reason, n', s')
         | (Inr [v], n') \<Rightarrow> (Inr v, n', s')
         | (Inr _, n') \<Rightarrow> (Inl (NewDomainError ErrorCodeNotFound ''notification was not found''), n', s')))"

datatype NotifyResult = NotificationCreated Notification | NotificationSkipped | NotifyRejected DomainError

definition Notify ::
  "UserID \<Rightarrow> UserID \<Rightarrow> NotificationKind \<Rightarrow> NotificationSubject \<Rightarrow> Metadata \<Rightarrow> EventRef \<Rightarrow> env \<Rightarrow> nat \<Rightarrow> outbox
    \<Rightarrow> NotifyResult \<times> nat \<times> outbox" where
  "Notify recipient actor kind subject metadata source e n s =
     (if recipient = actor then (NotificationSkipped, n, s)
      else case NewNotificationID e n of
        Inl reason \<Rightarrow> (NotifyRejected reason, Suc n, s)
      | Inr i \<Rightarrow>
          (let v = \<lparr>nt_id = i, nt_recipient = recipient, nt_actor = actor, nt_actor_name = None, nt_kind = kind,
                 nt_subject = subject, nt_state = StateUnread, nt_metadata = metadata, nt_source = source,
                 nt_created_at = clock e (Suc n)\<rparr> in
           case NotificationStore_Create v e (Suc (Suc n)) s of
             (CreateStoreRejected reason, n', s') \<Rightarrow> (NotifyRejected reason, n', s')
           | (CreateStoreAccepted, n', s') \<Rightarrow> (NotificationCreated v, n', s')))"

section \<open>The recorder\<close>

fun notifyRejected :: "NotifyResult \<Rightarrow> bool" where
  "notifyRejected (NotifyRejected _) = True"
| "notifyRejected _ = False"

text \<open>One leg of the fan-out, and the legs of a draft in order; every leg is tried.\<close>

definition notifyLeg :: "Draft \<Rightarrow> NotificationKind \<Rightarrow> UserID \<Rightarrow> env \<Rightarrow> nat \<Rightarrow> outbox \<Rightarrow> NotifyResult \<times> nat \<times> outbox" where
  "notifyLeg draft kind u = Notify u (ActorUserID (dr_actor draft)) kind (NotificationSubjectFor (dr_subject draft))
     (dr_metadata draft) (FromEvent (dr_id draft))"

fun notifyLegs :: "Draft \<Rightarrow> NotificationKind \<Rightarrow> UserID list \<Rightarrow> bool \<Rightarrow> env \<Rightarrow> nat \<Rightarrow> outbox \<Rightarrow> bool \<times> nat \<times> outbox" where
  "notifyLegs draft kind [] completed e n s = (completed, n, s)"
| "notifyLegs draft kind (u # us) completed e n s =
     (case notifyLeg draft kind u e n s of (r, n', s') \<Rightarrow>
        notifyLegs draft kind us (completed \<and> \<not> notifyRejected r) e n' s')"

definition fanOutNotifications :: "Draft \<Rightarrow> env \<Rightarrow> nat \<Rightarrow> outbox \<Rightarrow> bool \<times> nat \<times> outbox" where
  "fanOutNotifications draft e n s = (case NotificationRuleFor (dr_kind draft) of
     NoNotification \<Rightarrow> (True, n, s)
   | NotifyAs kind \<Rightarrow> notifyLegs draft kind (dr_recipients draft) True e n s)"

fun Recorder_Dispatch :: "Draft list \<Rightarrow> env \<Rightarrow> nat \<Rightarrow> outbox \<Rightarrow> nat \<times> outbox" where
  "Recorder_Dispatch [] e n s = (n, s)"
| "Recorder_Dispatch (draft # drafts) e n s =
     (case fanOutNotifications draft e n s of (completed, n1, s1) \<Rightarrow>
        if \<not> completed then Recorder_Dispatch drafts e n1 s1
        else case EventStore_Dispatch (dr_id draft) e n1 s1 of (_, n2, s2) \<Rightarrow> Recorder_Dispatch drafts e n2 s2)"

section \<open>The recovery sweep\<close>

definition MaxEventDispatchAttempts :: int where "MaxEventDispatchAttempts = 20"

definition stale :: "int \<Rightarrow> outbox \<Rightarrow> event_row \<Rightarrow> bool" where
  "stale cutoff s r \<longleftrightarrow> ev_state r = DispatchStateRecorded \<and> ob_occurred s (ev_seq r) \<le> cutoff"

definition retireExhausted :: "int \<Rightarrow> outbox \<Rightarrow> outbox" where
  "retireExhausted cutoff s = updateEvents (\<lambda>r. stale cutoff s r \<and> MaxEventDispatchAttempts \<le> ob_attempts s (ev_seq r))
     (ev_state_update (\<lambda>_. DispatchStateFailed)) s"

definition staleBatch :: "int \<Rightarrow> nat \<Rightarrow> outbox \<Rightarrow> event_row list" where
  "staleBatch cutoff limit s = take limit (sort_key ev_seq (filter (stale cutoff s) (events s)))"

definition countAttempts :: "nat set \<Rightarrow> outbox \<Rightarrow> outbox" where
  "countAttempts qs s = s\<lparr>ob_attempts := (\<lambda>q. if q \<in> qs then ob_attempts s q + 1 else ob_attempts s q)\<rparr>"

definition eventRecipients :: "nat \<Rightarrow> env \<Rightarrow> nat \<Rightarrow> outbox \<Rightarrow> UserID list option \<times> nat" where
  "eventRecipients q = readN (bindT
     (scanT None None None (\<lambda>s. concat (map (\<lambda>r. dr_recipients (ev_draft r)) (filter (\<lambda>r. ev_seq r = q) (events s))))
        (\<lambda>raw. bindT (askT (\<lambda>e n. ParseUserID e raw)) (\<lambda>v. case v of Inl _ \<Rightarrow> raiseT None | Inr u \<Rightarrow> retT u)))
     (\<lambda>us. retT (Some (NewRecipients us))))"

text \<open>A row that does not scan or parse is skipped and counted.\<close>

fun scanRecorded :: "event_row list \<Rightarrow> env \<Rightarrow> nat \<Rightarrow> outbox \<Rightarrow> StoredEvent list \<times> nat \<times> nat" where
  "scanRecorded [] e n s = ([], 0, n)"
| "scanRecorded (r # rs) e n s =
     (case scanRecorded rs e (Suc n) s of (stored, skipped, n') \<Rightarrow>
        if fault e n then (stored, Suc skipped, n')
        else case parseStoredEventColumns e r (ob_occurred s (ev_seq r)) of
            None \<Rightarrow> (stored, Suc skipped, n')
          | Some v \<Rightarrow> (v # stored, skipped, n'))"

fun rebuildDrafts :: "StoredEvent list \<Rightarrow> env \<Rightarrow> nat \<Rightarrow> outbox \<Rightarrow> Draft list \<times> nat \<times> nat" where
  "rebuildDrafts [] e n s = ([], 0, n)"
| "rebuildDrafts (v # vs) e n s =
     (case eventRecipients (nat (se_cursor v)) e n s of (recipients, n1) \<Rightarrow>
      case rebuildDrafts vs e n1 s of (drafts, skipped, n2) \<Rightarrow>
        (case recipients of None \<Rightarrow> (drafts, Suc skipped, n2)
         | Some us \<Rightarrow> (eventDraft (se_event v) us # drafts, skipped, n2)))"

definition ListRecordedBefore ::
  "int \<Rightarrow> nat \<Rightarrow> env \<Rightarrow> nat \<Rightarrow> outbox \<Rightarrow> (Draft list \<times> nat) result \<times> nat \<times> outbox" where
  "ListRecordedBefore cutoff limit e n s =
     (if fault e n then (Inl (unusable ''retire exhausted recorded events failed''), Suc n, s)
      else let s1 = retireExhausted cutoff s in
      if fault e (Suc n) then (Inl (unusable ''list recorded events failed''), Suc (Suc n), s1)
      else let batch = staleBatch cutoff limit s1; s2 = countAttempts (ev_seq ` set batch) s1 in
      case scanRecorded batch e (Suc (Suc n)) s2 of (stored, skipped, n1) \<Rightarrow>
      if fault e n1 then (Inl (unusable ''iterate recorded events failed''), Suc n1, s2)
      else case rebuildDrafts (sort_key se_cursor stored) e (Suc n1) s2 of (drafts, skipped', n2) \<Rightarrow>
        (Inr (drafts, skipped + skipped'), n2, s2))"

record FailedEventRow =
  fe_sequence :: nat
  fe_id :: DomainEventID
  fe_kind :: string
  fe_attempts :: int
  fe_occurred_at :: int

definition ListDispatchFailed :: "nat \<Rightarrow> env \<Rightarrow> nat \<Rightarrow> outbox \<Rightarrow> FailedEventRow list result \<times> nat" where
  "ListDispatchFailed limit = readN (bindT
     (scanT (Inl (unusable ''list dispatch-failed events failed'')) (Inl (unusable ''scan dispatch-failed event failed''))
        (Inl (unusable ''iterate dispatch-failed events failed''))
        (\<lambda>s. map (\<lambda>r. \<lparr>fe_sequence = ev_seq r, fe_id = dr_id (ev_draft r), fe_kind = Kind_String (dr_kind (ev_draft r)),
                 fe_attempts = ob_attempts s (ev_seq r), fe_occurred_at = ob_occurred s (ev_seq r)\<rparr>)
           (take limit (sort_key ev_seq (filter (\<lambda>r. ev_state r = DispatchStateFailed) (events s)))))
        retT)
     (\<lambda>values. retT (Inr values)))"

definition eventDispatchGracePeriod :: int where "eventDispatchGracePeriod = seconds 10"
definition eventDispatchSweepBatch :: nat where "eventDispatchSweepBatch = 200"

definition sweepRecordedEvents :: "env \<Rightarrow> nat \<Rightarrow> outbox \<Rightarrow> unit result \<times> nat \<times> outbox" where
  "sweepRecordedEvents e n s =
     (case ListRecordedBefore (clock e n - eventDispatchGracePeriod) eventDispatchSweepBatch e (Suc n) s of
        (Inl reason, n1, s1) \<Rightarrow> (Inl reason, n1, s1)
      | (Inr (drafts, skipped), n1, s1) \<Rightarrow> (case Recorder_Dispatch drafts e n1 s1 of (n2, s2) \<Rightarrow> (Inr (), n2, s2)))"


end
