(* ===== verification/Dispatch.thy ===== *)
theory Dispatch
  imports Outbox
begin

text \<open>
  What the outbox guarantees.  The recorder of a service call, the recovery sweep, the webhook
  dispatcher and new transactions run against the same tables; \<open>step\<close> interleaves them
  statement by statement and transaction by transaction, with crashes, so that any number of
  recorders, sweepers and dispatchers may run at once.  Whatever the interleaving, an event becomes
  one inbox row per recipient and one delivery per subscription, and a feed read by cursor shows
  every event once.
\<close>

section \<open>What one call writes\<close>

definition leg :: "Draft \<Rightarrow> NotificationKind \<Rightarrow> UserID \<Rightarrow> outbox \<Rightarrow> outbox \<Rightarrow> bool" where
  "leg draft kind u s s' \<longleftrightarrow> s' = s \<or> (\<exists>x. s' = s\<lparr>ob_notifications := ob_notifications s @ [x]\<rparr> \<and>
     nt_source x = FromEvent (dr_id draft) \<and> nt_recipient x = u \<and> nt_kind x = kind \<and>
     u \<noteq> ActorUserID (dr_actor draft) \<and> \<not> notified s (dr_id draft) u)"

lemma notifyLeg_effect:
  assumes "notifyLeg draft kind u e n s = (r, n', s')"
  shows "leg draft kind u s s'" "\<not> notifyRejected r \<Longrightarrow> u = ActorUserID (dr_actor draft) \<or> notified s' (dr_id draft) u"
  using assms unfolding notifyLeg_def Notify_def NotificationStore_Create_def Let_def conflicts_def leg_def
  by (auto simp: notified_def split: if_splits sum.splits)

text \<open>Deliveries an expansion adds: pending, with new ids, one per subscription.\<close>

abbreviation deliveryKey :: "event_delivery \<Rightarrow> WebhookSubscriptionID \<times> nat" where
  "deliveryKey x \<equiv> (wd_subscription (ed_row x), ed_event x)"

abbreviation deliveryID :: "event_delivery \<Rightarrow> WebhookDeliveryID" where
  "deliveryID x \<equiv> wd_id (ed_row x)"

definition added :: "nat \<Rightarrow> outbox \<Rightarrow> outbox \<Rightarrow> bool" where
  "added q s s' \<longleftrightarrow> (\<exists>xs. s' = s\<lparr>ob_deliveries := ob_deliveries s @ xs\<rparr> \<and>
     (\<forall>x \<in> set xs. ed_event x = q \<and> wd_state (ed_row x) = DeliveryStatePending \<and> wd_attempts (ed_row x) = 0) \<and>
     (distinct (map deliveryKey (ob_deliveries s)) \<longrightarrow> distinct (map deliveryKey (ob_deliveries s @ xs))) \<and>
     (distinct (map deliveryID (ob_deliveries s)) \<longrightarrow> distinct (map deliveryID (ob_deliveries s @ xs))))"

lemma added_refl: "added q s s"
  by (auto simp: added_def intro: exI [of _ "[]"])

lemma added_trans:
  assumes "added q s s'" "added q s' s''"
  shows "added q s s''"
proof -
  from assms obtain xs ys where
    "s' = s\<lparr>ob_deliveries := ob_deliveries s @ xs\<rparr>" "s'' = s'\<lparr>ob_deliveries := ob_deliveries s' @ ys\<rparr>"
    "\<forall>x \<in> set xs \<union> set ys. ed_event x = q \<and> wd_state (ed_row x) = DeliveryStatePending \<and> wd_attempts (ed_row x) = 0"
    "distinct (map deliveryKey (ob_deliveries s)) \<longrightarrow> distinct (map deliveryKey (ob_deliveries s @ xs))"
    "distinct (map deliveryKey (ob_deliveries s')) \<longrightarrow> distinct (map deliveryKey (ob_deliveries s' @ ys))"
    "distinct (map deliveryID (ob_deliveries s)) \<longrightarrow> distinct (map deliveryID (ob_deliveries s @ xs))"
    "distinct (map deliveryID (ob_deliveries s')) \<longrightarrow> distinct (map deliveryID (ob_deliveries s' @ ys))"
    unfolding added_def by blast
  then show ?thesis
    unfolding added_def by (intro exI [of _ "xs @ ys"]) simp
qed

lemma added_has: "\<lbrakk>added q s s'; hasDelivery sub q s\<rbrakk> \<Longrightarrow> hasDelivery sub q s'"
  by (auto simp: added_def hasDelivery_def)

lemma insertDelivery_added:
  assumes "insertDelivery i sub q now s = Some s'"
  shows "added q s s' \<and> hasDelivery sub q s'"
proof (cases "hasDelivery sub q s")
  case True
  with assms show ?thesis by (simp add: insertDelivery_def added_refl)
next
  case False
  define x where "x = pendingDelivery i sub q now s"
  have x: "ed_event x = q" "wd_subscription (ed_row x) = sub" "deliveryID x = i" "wd_state (ed_row x) = DeliveryStatePending"
    "wd_attempts (ed_row x) = 0"
    by (simp_all add: x_def pendingDelivery_def Let_def)
  from False assms have s': "s' = s\<lparr>ob_deliveries := ob_deliveries s @ [x]\<rparr>" and new: "\<forall>y \<in> set (ob_deliveries s). deliveryID y \<noteq> i"
    by (auto simp: insertDelivery_def x_def split: if_splits)
  have "\<forall>y \<in> set (ob_deliveries s). deliveryKey y \<noteq> deliveryKey x \<and> deliveryID y \<noteq> deliveryID x"
    using False x(1-3) new by (auto simp: hasDelivery_def)
  then have "added q s s'"
    using x unfolding s' added_def by (intro exI [of _ "[x]"]) auto
  then show ?thesis
    using x(1,2) by (auto simp: s' hasDelivery_def)
qed

lemma wp_scan_rel:
  assumes "E a id" "E b id" "E c id"
    and "\<And>r. r \<in> set (rows s) \<Longrightarrow> wp e (parse r) (\<lambda>v s'. s' = s \<and> P r v) E s"
    and "\<And>vs. list_all2 P (rows s) vs \<Longrightarrow> Q vs s"
  shows "wp e (scanT a b c rows parse) Q E s"
  unfolding scanT_def
  by (intro wp_bind wp_query wp_ret wp_mapT_rel [where P = P] assms)

lemma wp_scan_rows: "\<lbrakk>E a id; E b id; E c id; Q (rows s) s\<rbrakk> \<Longrightarrow> wp e (scanT a b c rows retT) Q E s"
  by (rule wp_scan_rel [where P = "(=)"]) (auto simp: list.rel_eq intro: wp_ret)

lemma wp_inserts:
  "wp e (mapT subs (\<lambda>sub. bindT (askT NewWebhookDeliveryID) (\<lambda>r. case r of
        Inl _ \<Rightarrow> raiseT ()
      | Inr i \<Rightarrow> countT () (\<lambda>s. if hasDelivery sub q s then 0 else 1) (insertDelivery i sub q now))))
    (\<lambda>_ s'. added q s s' \<and> (\<forall>sub \<in> set subs. hasDelivery sub q s')) (\<lambda>_ g. g = id) s"
proof (induction subs arbitrary: s)
  case Nil
  show ?case by (simp add: wp_ret added_refl)
next
  case (Cons sub subs)
  have "wp e (mapT subs (\<lambda>sub. bindT (askT NewWebhookDeliveryID) (\<lambda>r. case r of
        Inl _ \<Rightarrow> raiseT ()
      | Inr i \<Rightarrow> countT () (\<lambda>s. if hasDelivery sub q s then 0 else 1) (insertDelivery i sub q now))))
     (\<lambda>_ s'. added q s s' \<and> (\<forall>x \<in> set (sub # subs). hasDelivery x q s')) (\<lambda>_ g. g = id) s1"
    if "insertDelivery i sub q now s = Some s1" for i s1
    by (rule wp_mono [OF Cons.IH]) (use insertDelivery_added [OF that] added_trans added_has in auto)
  then show ?case
    unfolding mapT.simps by (intro wp_bind wp_ask wp_case_sum wp_raise wp_count refl, rule wp_mono) (auto intro: wp_ret)
qed

lemma wp_expand:
  "wp e (expandWebhookDeliveries q)
     (\<lambda>_ s'. added q s s' \<and> (\<forall>sub \<in> set (matchingSubscriptions q s). hasDelivery sub q s')) (\<lambda>_ g. g = id) s"
  unfolding expandWebhookDeliveries_def
  by (intro wp_bind wp_ask wp_scan_rows refl, rule wp_mono [OF wp_inserts]) (auto intro: wp_ret)

text \<open>
  A dispatch changes nothing, or it completes a recorded event: the deliveries of every
  matching subscription are there and the row is dispatched.
\<close>

definition completes :: "DomainEventID \<Rightarrow> outbox \<Rightarrow> outbox \<Rightarrow> bool" where
  "completes i s s' \<longleftrightarrow> (\<exists>r t. rowWhere (\<lambda>r. dr_id (ev_draft r) = i) (events s) = Some r \<and> ev_state r = DispatchStateRecorded \<and>
     added (ev_seq r) s t \<and> (\<forall>sub \<in> set (matchingSubscriptions (ev_seq r) s). hasDelivery sub (ev_seq r) t) \<and>
     markDispatched (ev_seq r) t = Some s')"

lemma Dispatch_effect:
  assumes "EventStore_Dispatch i e n s = (res, n', s')"
  shows "s' = s \<or> completes i s s'"
proof (rule runT_rule [OF runN_runT [OF assms [unfolded EventStore_Dispatch_def]], where P = "\<lambda>_ t. t = s \<or> completes i s t"],
    goal_cases)
  case 1
  have recorded: "ev_state r = DispatchStateRecorded" if "ev_state r \<noteq> DispatchStateDispatched" "ev_state r \<noteq> DispatchStateFailed" for r
    using that by (cases "ev_state r") simp_all
  show ?case
    by (intro wp_bind wp_query wp_case_option wp_if wp_raise wp_lift)
       (simp_all, rule wp_mono [OF wp_expand], auto intro!: wp_bind wp_exec wp_ret simp: completes_def intro: recorded)
qed simp

section \<open>What the sweep reads and writes\<close>

lemma parseRef_exact: "\<lbrakk>\<And>x y. p x = Inr y \<Longrightarrow> y = x; parseRef p v = Some w\<rbrakk> \<Longrightarrow> w = v"
  by (cases v) (auto split: sum.splits)

lemma id_exact: "\<lbrakk>exactIDs e; fromIDResult (uuid_parse e x) = Inr y\<rbrakk> \<Longrightarrow> y = x"
  by (simp add: exactIDs_def fromIDResult_Inr)

lemmas event_id_defs = ParseDomainEventID_def ParseUserID_def ParseTaskID_def ParseSubmissionID_def
  ParseTaskReservationID_def ParseTaskSeriesID_def ParseOrganizationID_def ParseCollectibleID_def

lemma parseSubject_exact:
  assumes "exactIDs e" "parseSubject e s = Some s'"
  shows "s' = s"
  using assms(2) unfolding parseSubject_def
  by (auto simp: event_id_defs split: option.splits dest!: parseRef_exact [OF id_exact [OF assms(1)], rotated])

definition storedEvent :: "event_row \<Rightarrow> int \<Rightarrow> StoredEvent" where
  "storedEvent r occurredAt =
     \<lparr>se_event = Draft_Event (ev_draft r) occurredAt, se_cursor = int (ev_seq r), se_actor_name = None\<rparr>"

lemma parseStored_exact:
  assumes "exactIDs e" "parseStoredEventColumns e r occurredAt = Some v"
  shows "v = storedEvent r occurredAt"
  using assms(2) unfolding parseStoredEventColumns_def Let_def
  by (auto simp: storedEvent_def Draft_Event_def WithoutEnrichment_def event_id_defs split: sum.splits option.splits Actor.splits
      dest!: id_exact [OF assms(1)] parseSubject_exact [OF assms(1)])

lemma eventDraft_stored: "eventDraft (Draft_Event d occurredAt) (dr_recipients d) = d"
  by (simp add: eventDraft_def Draft_Event_def)

lemma recipients_exact:
  assumes "exactIDs e" "eventRecipients q e n s = (Some us, n')"
  shows "us = NewRecipients (concat (map (\<lambda>r. dr_recipients (ev_draft r)) (filter (\<lambda>r. ev_seq r = q) (events s))))"
proof -
  have same: "list_all2 (\<lambda>raw u. u = raw) xs ys \<Longrightarrow> ys = xs" for xs ys :: "string list"
    by (induction rule: list_all2_induct) simp_all
  have "\<forall>us. v = Some us \<longrightarrow> us = NewRecipients (concat (map (\<lambda>r. dr_recipients (ev_draft r)) (filter (\<lambda>r. ev_seq r = q) (events s))))"
    if "eventRecipients q e n s = (v, n')" for v
  proof (rule readN_rule [OF that [unfolded eventRecipients_def]])
    show "wp e (bindT (scanT None None None (\<lambda>s. concat (map (\<lambda>r. dr_recipients (ev_draft r)) (filter (\<lambda>r. ev_seq r = q) (events s))))
          (\<lambda>raw. bindT (askT (\<lambda>e n. ParseUserID e raw)) (\<lambda>v. case v of Inl _ \<Rightarrow> raiseT None | Inr u \<Rightarrow> retT u)))
        (\<lambda>us. retT (Some (NewRecipients us))))
      (\<lambda>v t. \<forall>us. v = Some us \<longrightarrow> us = NewRecipients (concat (map (\<lambda>r. dr_recipients (ev_draft r)) (filter (\<lambda>r. ev_seq r = q) (events s)))))
      (\<lambda>v g. \<forall>us. v = Some us \<longrightarrow> us = NewRecipients (concat (map (\<lambda>r. dr_recipients (ev_draft r)) (filter (\<lambda>r. ev_seq r = q) (events s))))) s"
      by (intro wp_bind wp_scan_rel [where P = "\<lambda>raw u. u = raw"] wp_ask wp_case_sum wp_raise wp_ret)
         (auto simp: event_id_defs dest: id_exact [OF assms(1)] same)
  qed
  with assms(2) show ?thesis by blast
qed

lemma scanRecorded_from:
  "\<lbrakk>scanRecorded rs e n s = (stored, k, n'); v \<in> set stored\<rbrakk>
    \<Longrightarrow> \<exists>r \<in> set rs. parseStoredEventColumns e r (ob_occurred s (ev_seq r)) = Some v"
  by (induction rs arbitrary: n stored k) (fastforce split: prod.splits if_splits option.splits)+

lemma rebuildDrafts_from:
  "\<lbrakk>rebuildDrafts vs e n s = (drafts, k, n'); d \<in> set drafts\<rbrakk>
    \<Longrightarrow> \<exists>v \<in> set vs. \<exists>m us m'. eventRecipients (nat (se_cursor v)) e m s = (Some us, m') \<and> d = eventDraft (se_event v) us"
  by (induction vs arbitrary: n drafts k) (fastforce split: prod.splits option.splits)+

lemma NewRecipients_fixed: "distinct us \<Longrightarrow> NewRecipients us = us"
  by (simp add: NewRecipients_def newRecipientsLoop_fresh)

text \<open>The rows of the event table: unique ids and sequence numbers, recipients without duplicates.\<close>

definition recorded_ok :: "outbox \<Rightarrow> bool" where
  "recorded_ok s \<longleftrightarrow> events_ok (ob_db s) \<and> distinct (map (\<lambda>r. dr_id (ev_draft r)) (events s)) \<and>
     (\<forall>r \<in> set (events s). distinct (dr_recipients (ev_draft r)))"

lemma recorded_seqs: "recorded_ok s \<Longrightarrow> distinct (map ev_seq (events s))"
  by (auto simp: recorded_ok_def events_ok_def strict_sorted_iff)

lemma rebuilt_recorded:
  assumes "recorded_ok s" "exactIDs e" "r \<in> set (events s)" "eventRecipients (ev_seq r) e m s = (Some us, m')"
  shows "us = dr_recipients (ev_draft r)"
proof -
  have "filter (\<lambda>x. ev_seq x = ev_seq r) (events s) = [r]"
    using filter_member [OF recorded_seqs [OF assms(1)] assms(3)] .
  with recipients_exact [OF assms(2,4)] assms(1,3) show ?thesis by (simp add: recorded_ok_def NewRecipients_fixed)
qed

text \<open>A sweep retires rows past the limit and counts an attempt for the rows it claims; then it lists their drafts.\<close>

definition claimed :: "int \<Rightarrow> nat \<Rightarrow> outbox \<Rightarrow> outbox" where
  "claimed cutoff limit s = countAttempts (ev_seq ` set (staleBatch cutoff limit (retireExhausted cutoff s))) (retireExhausted cutoff s)"

lemma events_claimed [simp]: "events (countAttempts qs s) = events s" "ob_db (countAttempts qs s) = ob_db s"
  by (simp_all add: countAttempts_def)

lemma staleBatch_events: "r \<in> set (staleBatch cutoff limit s) \<Longrightarrow> r \<in> set (events s) \<and> stale cutoff s r"
  by (auto simp: staleBatch_def dest!: in_set_takeD)

lemma ListRecorded_effect:
  assumes "ListRecordedBefore cutoff limit e n s = (res, n', s')"
  shows "s' = s \<or> s' = retireExhausted cutoff s \<or> s' = claimed cutoff limit s"
  using assms unfolding ListRecordedBefore_def claimed_def Let_def by (auto split: if_splits prod.splits)

lemma ListRecorded_all:
  "ListRecordedBefore cutoff limit e n s = (Inr p, n', s') \<Longrightarrow> s' = claimed cutoff limit s"
  unfolding ListRecordedBefore_def claimed_def Let_def by (auto split: if_splits prod.splits)

lemma ListRecorded_drafts:
  assumes list: "ListRecordedBefore cutoff limit e n s = (Inr (drafts, k), n', s')" and exact: "exactIDs e"
    and ok: "recorded_ok s'" and d: "d \<in> set drafts"
  shows "d \<in> ev_draft ` set (staleBatch cutoff limit (retireExhausted cutoff s))"
proof -
  define batch where "batch = staleBatch cutoff limit (retireExhausted cutoff s)"
  from list obtain stored skipped n1 skipped' where s': "s' = countAttempts (ev_seq ` set batch) (retireExhausted cutoff s)"
    and scan: "scanRecorded batch e (Suc (Suc n)) s' = (stored, skipped, n1)"
    and drafts: "rebuildDrafts (sort_key se_cursor stored) e (Suc n1) s' = (drafts, skipped', n')"
    unfolding ListRecordedBefore_def Let_def batch_def by (auto split: if_splits prod.splits)
  from rebuildDrafts_from [OF drafts d] obtain v m us m' where v: "v \<in> set stored"
    and us: "eventRecipients (nat (se_cursor v)) e m s' = (Some us, m')" "d = eventDraft (se_event v) us" by auto
  from scanRecorded_from [OF scan v] parseStored_exact [OF exact]
  obtain r where r: "r \<in> set batch" "v = storedEvent r (ob_occurred s' (ev_seq r))" by blast
  then have ev: "r \<in> set (events s')" using staleBatch_events by (fastforce simp: s' batch_def)
  have "us = dr_recipients (ev_draft r)"
    using rebuilt_recorded [OF ok exact ev] us(1) r(2) by (simp add: storedEvent_def)
  with us(2) r(2) have "d = ev_draft r" by (simp add: storedEvent_def eventDraft_stored)
  with r(1) show ?thesis by (simp add: batch_def)
qed

section \<open>Interleaving\<close>

text \<open>
  A worker is one run of the recorder's loop body for a draft: the recipients still to be
  notified, and whether every leg so far succeeded.  \<open>step\<close> lets any number of workers make
  progress one call at a time, beside transactions that record events or change other tables,
  the two statements of a sweep, readers of the inbox, the claims and attempts of webhook
  dispatchers, and crashes that lose a worker.  A sweep's second statement starts workers for any
  of the rows it returns: a malformed row is skipped, and one whose sweeper stops is lost.  An
  attempt may concern a delivery claimed at any time before; all it takes from the claim is an
  attempt count that is not negative.
\<close>

record worker =
  wk_draft :: Draft
  wk_left :: "UserID list"
  wk_completed :: bool

definition startWorker :: "Draft \<Rightarrow> worker" where
  "startWorker draft = \<lparr>wk_draft = draft,
     wk_left = (case NotificationRuleFor (dr_kind draft) of NoNotification \<Rightarrow> [] | NotifyAs _ \<Rightarrow> dr_recipients draft),
     wk_completed = True\<rparr>"

definition withRows :: "delivery_row list \<Rightarrow> outbox \<Rightarrow> outbox" where
  "withRows rows s = s\<lparr>ob_deliveries := map2 (\<lambda>x r. x\<lparr>ed_row := r\<rparr>) (ob_deliveries s) rows\<rparr>"

inductive step :: "outbox \<times> worker list \<Rightarrow> outbox \<times> worker list \<Rightarrow> bool" where
  record_event: "insertDomainEvent v us s = Some s' \<Longrightarrow> step (s, ws) (s', ws)"
| other_tables: "\<lbrakk>domain_events d = events s; next_event_seq d = next_event_seq (ob_db s)\<rbrakk>
    \<Longrightarrow> step (s, ws) (s\<lparr>ob_db := d, ob_subscriptions := subs\<rparr>, ws)"
| inline: "r \<in> set (events s) \<Longrightarrow> step (s, ws) (s, startWorker (ev_draft r) # ws)"
| retire: "step (s, ws) (retireExhausted cutoff s, ws)"
| claim: "set drafts \<subseteq> ev_draft ` set (staleBatch cutoff limit s)
    \<Longrightarrow> step (s, ws) (countAttempts (ev_seq ` set (staleBatch cutoff limit s)) s, map startWorker drafts @ ws)"
| notify: "\<lbrakk>wk_left w = u # us; NotificationRuleFor (dr_kind (wk_draft w)) = NotifyAs kind;
      notifyLeg (wk_draft w) kind u e n s = (r, n', s')\<rbrakk>
    \<Longrightarrow> step (s, as @ w # bs) (s', as @ w\<lparr>wk_left := us, wk_completed := wk_completed w \<and> \<not> notifyRejected r\<rparr> # bs)"
| dispatch: "\<lbrakk>wk_left w = []; wk_completed w; EventStore_Dispatch (dr_id (wk_draft w)) e n s = (r, n', s')\<rbrakk>
    \<Longrightarrow> step (s, as @ w # bs) (s', as @ bs)"
| crash: "step (s, as @ w # bs) (s, as @ bs)"
| mark_read: "NotificationStore_MarkRead u i e n s = (r, n', s') \<Longrightarrow> step (s, ws) (s', ws)"
| claim_due: "\<lbrakk>ClaimDueDeliveries k hold e n (map ed_row (ob_deliveries s)) = (c, n', rows); exactIDs e\<rbrakk>
    \<Longrightarrow> step (s, ws) (withRows rows s, ws)"
| attempt: "\<lbrakk>attemptDelivery dp x e n (map ed_row (ob_deliveries s)) = (b, n', rows); 0 \<le> cw_attempts x\<rbrakk>
    \<Longrightarrow> step (s, ws) (withRows rows s, ws)"

section \<open>The invariant\<close>

definition informed :: "outbox \<Rightarrow> Draft \<Rightarrow> UserID set \<Rightarrow> bool" where
  "informed s draft us \<longleftrightarrow> (\<forall>u \<in> us. u \<noteq> ActorUserID (dr_actor draft) \<longrightarrow> notified s (dr_id draft) u)"

definition fannedOut :: "outbox \<Rightarrow> Draft \<Rightarrow> bool" where
  "fannedOut s draft \<longleftrightarrow> NotificationRuleFor (dr_kind draft) = NoNotification \<or> informed s draft (set (dr_recipients draft))"

definition dispatched_ok :: "outbox \<Rightarrow> bool" where
  "dispatched_ok s \<longleftrightarrow> (\<forall>r \<in> set (events s). ev_state r = DispatchStateDispatched \<longrightarrow> fannedOut s (ev_draft r))"

definition sourceOf :: "outbox \<Rightarrow> Notification \<Rightarrow> Draft \<Rightarrow> bool" where
  "sourceOf s x d \<longleftrightarrow> d \<in> ev_draft ` set (events s) \<and> nt_source x = FromEvent (dr_id d) \<and>
     NotificationRuleFor (dr_kind d) = NotifyAs (nt_kind x) \<and>
     nt_recipient x \<in> set (dr_recipients d) \<and> nt_recipient x \<noteq> ActorUserID (dr_actor d)"

abbreviation inboxKey :: "Notification \<Rightarrow> EventRef \<times> UserID" where
  "inboxKey x \<equiv> (nt_source x, nt_recipient x)"

definition inbox_ok :: "outbox \<Rightarrow> bool" where
  "inbox_ok s \<longleftrightarrow> distinct (map inboxKey (ob_notifications s)) \<and> (\<forall>x \<in> set (ob_notifications s). \<exists>d. sourceOf s x d)"

definition deliveries_ok :: "outbox \<Rightarrow> bool" where
  "deliveries_ok s \<longleftrightarrow> distinct (map deliveryKey (ob_deliveries s)) \<and> walk_ok (map ed_row (ob_deliveries s)) \<and>
     (\<forall>x \<in> set (ob_deliveries s). \<exists>r \<in> set (events s). ev_seq r = ed_event x \<and> ev_state r = DispatchStateDispatched)"

definition attempts_ok :: "outbox \<Rightarrow> bool" where
  "attempts_ok s \<longleftrightarrow> (\<forall>r \<in> set (events s). ev_state r = DispatchStateFailed \<longrightarrow>
     MaxEventDispatchAttempts \<le> ob_attempts s (ev_seq r))"

definition working :: "outbox \<Rightarrow> worker \<Rightarrow> bool" where
  "working s w \<longleftrightarrow> wk_draft w \<in> ev_draft ` set (events s) \<and> set (wk_left w) \<subseteq> set (dr_recipients (wk_draft w)) \<and>
     (wk_completed w \<longrightarrow> NotificationRuleFor (dr_kind (wk_draft w)) = NoNotification \<or>
        informed s (wk_draft w) (set (dr_recipients (wk_draft w)) - set (wk_left w)))"

definition outbox_ok :: "outbox \<times> worker list \<Rightarrow> bool" where
  "outbox_ok c \<longleftrightarrow> (case c of (s, ws) \<Rightarrow> recorded_ok s \<and> dispatched_ok s \<and> inbox_ok s \<and> deliveries_ok s \<and> attempts_ok s \<and>
     list_all (working s) ws)"

text \<open>
  What only looks at recorded drafts and inbox rows survives every step: drafts stay
  recorded and inbox rows stay.
\<close>

definition grows :: "outbox \<Rightarrow> outbox \<Rightarrow> bool" where
  "grows s s' \<longleftrightarrow> ev_draft ` set (events s) \<subseteq> ev_draft ` set (events s') \<and> (\<forall>i u. notified s i u \<longrightarrow> notified s' i u)"

lemma informed_mono: "\<lbrakk>grows s s'; informed s d us\<rbrakk> \<Longrightarrow> informed s' d us"
  by (auto simp: grows_def informed_def)

lemma fannedOut_mono: "\<lbrakk>grows s s'; fannedOut s d\<rbrakk> \<Longrightarrow> fannedOut s' d"
  by (auto simp: fannedOut_def intro: informed_mono)

lemma working_mono: "\<lbrakk>grows s s'; working s w\<rbrakk> \<Longrightarrow> working s' w"
  using informed_mono by (fastforce simp: working_def grows_def)

lemma workers_mono: "\<lbrakk>grows s s'; list_all (working s) ws\<rbrakk> \<Longrightarrow> list_all (working s') ws"
  by (auto simp: list_all_iff intro: working_mono)

lemma sourceOf_mono: "\<lbrakk>grows s s'; sourceOf s x d\<rbrakk> \<Longrightarrow> sourceOf s' x d"
  by (auto simp: sourceOf_def grows_def)

lemma working_start: "d \<in> ev_draft ` set (events s) \<Longrightarrow> working s (startWorker d)"
  by (cases "NotificationRuleFor (dr_kind d)") (auto simp: working_def startWorker_def informed_def)

lemma working_finished:
  "\<lbrakk>working s w; wk_left w = []; wk_completed w\<rbrakk> \<Longrightarrow> fannedOut s (wk_draft w)"
  by (auto simp: working_def fannedOut_def)

section \<open>Every step keeps the invariant\<close>

definition rowsOf :: "outbox \<Rightarrow> (nat \<times> Draft) list \<times> nat" where
  "rowsOf s = (map (\<lambda>r. (ev_seq r, ev_draft r)) (events s), next_event_seq (ob_db s))"

lemma recorded_cong:
  assumes "rowsOf s' = rowsOf s"
  shows "recorded_ok s' = recorded_ok s"
proof -
  have "recorded_ok s = (sorted_wrt (<) (map fst (fst (rowsOf s))) \<and> (\<forall>x \<in> set (fst (rowsOf s)). fst x < snd (rowsOf s)) \<and>
      distinct (map (\<lambda>x. dr_id (snd x)) (fst (rowsOf s))) \<and> (\<forall>x \<in> set (fst (rowsOf s)). distinct (dr_recipients (snd x))))" for s
    by (auto simp: recorded_ok_def events_ok_def rowsOf_def comp_def)
  then show ?thesis by (simp only: assms)
qed

lemma drafts_cong:
  assumes "rowsOf s' = rowsOf s"
  shows "ev_draft ` set (events s') = ev_draft ` set (events s)"
proof -
  have "ev_draft ` set (events s) = snd ` set (fst (rowsOf s))" for s by (auto simp: rowsOf_def image_iff)
  then show ?thesis by (simp only: assms)
qed

lemma rowsOf_update [simp]: "rowsOf (updateEvents p (ev_state_update f) s) = rowsOf s"
  by (simp add: rowsOf_def updateEvents_def)

lemma updateEvents_simps [simp]:
  "events (updateEvents p f s) = updateWhere p f (events s)"
  "ob_notifications (updateEvents p f s) = ob_notifications s" "ob_deliveries (updateEvents p f s) = ob_deliveries s"
  "ob_attempts (updateEvents p f s) = ob_attempts s" "ob_occurred (updateEvents p f s) = ob_occurred s"
  by (simp_all add: updateEvents_def)

lemma grows_rows: "\<lbrakk>rowsOf s' = rowsOf s; ob_notifications s' = ob_notifications s\<rbrakk> \<Longrightarrow> grows s s'"
  using drafts_cong [of s' s] by (simp add: grows_def notified_def)

lemma inbox_mono: "\<lbrakk>inbox_ok s; grows s s'; ob_notifications s' = ob_notifications s\<rbrakk> \<Longrightarrow> inbox_ok s'"
  using sourceOf_mono by (fastforce simp: inbox_ok_def)

lemma dispatched_mono: "\<lbrakk>dispatched_ok s; grows s s'; events s' = events s\<rbrakk> \<Longrightarrow> dispatched_ok s'"
  by (auto simp: dispatched_ok_def intro: fannedOut_mono)

text \<open>Steps that leave the event rows alone.\<close>

lemma outbox_ok_events:
  assumes "outbox_ok (s, ws)" "events s' = events s" "next_event_seq (ob_db s') = next_event_seq (ob_db s)" "ob_attempts s' = ob_attempts s"
    "\<And>i u. notified s i u \<Longrightarrow> notified s' i u"
    "inbox_ok s'" "deliveries_ok s'"
  shows "outbox_ok (s', ws)"
proof -
  have rows: "rowsOf s' = rowsOf s" using assms(2,3) by (simp add: rowsOf_def)
  have g: "grows s s'" using assms(2,5) by (simp add: grows_def)
  show ?thesis
    using assms recorded_cong [OF rows] dispatched_mono [OF _ g assms(2)] workers_mono [OF g]
    by (auto simp: outbox_ok_def attempts_ok_def)
qed

lemma record_event_ok:
  assumes ok: "outbox_ok (s, ws)" and ins: "insertDomainEvent v us s = Some s'"
  shows "outbox_ok (s', ws)"
proof -
  define row where "row = \<lparr>ev_seq = next_event_seq (ob_db s), ev_draft = eventDraft v us, ev_state = DispatchStateRecorded\<rparr>"
  from ins have fresh: "oe_id v \<notin> (\<lambda>r. dr_id (ev_draft r)) ` set (events s)" "distinct us"
    and s': "events s' = events s @ [row]" "next_event_seq (ob_db s') = Suc (next_event_seq (ob_db s))"
      "ob_attempts s' = (ob_attempts s)(next_event_seq (ob_db s) := 0)"
      "ob_notifications s' = ob_notifications s" "ob_deliveries s' = ob_deliveries s"
    by (auto simp: insertDomainEvent_def insertEvent_def Let_def row_def eventDraft_def split: if_splits)
  have below: "\<forall>r \<in> set (events s). ev_seq r < next_event_seq (ob_db s)"
    using ok by (simp add: outbox_ok_def recorded_ok_def events_ok_def)
  have g: "grows s s'" using s' by (auto simp: grows_def notified_def)
  have "recorded_ok s'"
    using ok fresh below by (auto simp: outbox_ok_def recorded_ok_def events_ok_def s' row_def eventDraft_def sorted_wrt_append)
  moreover have "dispatched_ok s'"
    using ok g by (auto simp: outbox_ok_def dispatched_ok_def s' row_def intro: fannedOut_mono)
  moreover have "deliveries_ok s'"
    using ok by (auto simp: outbox_ok_def deliveries_ok_def s')
  moreover have "attempts_ok s'"
    using ok below by (auto simp: outbox_ok_def attempts_ok_def s' row_def MaxEventDispatchAttempts_def)
  ultimately show ?thesis
    using ok inbox_mono [OF _ g s'(4)] workers_mono [OF g] by (simp add: outbox_ok_def)
qed

lemma retire_ok:
  assumes "outbox_ok (s, ws)"
  shows "outbox_ok (retireExhausted cutoff s, ws)"
proof -
  let ?t = "retireExhausted cutoff s"
  have rows: "rowsOf ?t = rowsOf s" and inbox: "ob_notifications ?t = ob_notifications s"
    by (simp_all add: retireExhausted_def)
  note g = grows_rows [OF rows inbox]
  have "dispatched_ok ?t"
    using assms g by (auto simp: outbox_ok_def dispatched_ok_def retireExhausted_def set_updateWhere stale_def intro: fannedOut_mono)
  moreover have "deliveries_ok ?t"
    using assms by (fastforce simp: outbox_ok_def deliveries_ok_def retireExhausted_def set_updateWhere stale_def)
  moreover have "attempts_ok ?t"
    using assms by (auto simp: outbox_ok_def attempts_ok_def retireExhausted_def set_updateWhere stale_def)
  ultimately show ?thesis
    using assms recorded_cong [OF rows] inbox_mono [OF _ g inbox] workers_mono [OF g] by (simp add: outbox_ok_def)
qed

lemma claim_ok:
  assumes "outbox_ok (s, ws)" "set drafts \<subseteq> ev_draft ` set (staleBatch cutoff limit s)"
  shows "outbox_ok (countAttempts qs s, map startWorker drafts @ ws)"
proof -
  have "outbox_ok (countAttempts qs s, ws)"
    using assms(1) by (auto simp: outbox_ok_def recorded_ok_def dispatched_ok_def fannedOut_def informed_def notified_def inbox_ok_def
        sourceOf_def deliveries_ok_def countAttempts_def attempts_ok_def list_all_iff working_def)
  moreover have "working (countAttempts qs s) (startWorker d)" if "d \<in> set drafts" for d
    using that assms(2) staleBatch_events by (fastforce simp: countAttempts_def intro!: working_start)
  ultimately show ?thesis by (auto simp: outbox_ok_def list_all_iff)
qed

text \<open>
  After the retirement the rows that remain due have attempts left, so a sweep that no other
  sweep disturbs counts no row past the limit.
\<close>

lemma retired_below:
  assumes "r \<in> set (events (retireExhausted cutoff s))" "stale cutoff (retireExhausted cutoff s) r"
  shows "ob_attempts s (ev_seq r) < MaxEventDispatchAttempts"
  using assms by (auto simp: retireExhausted_def set_updateWhere stale_def split: if_splits)

lemma sweep_counts:
  assumes "ListRecordedBefore cutoff limit e n s = (res, n', s')" "ob_attempts s' q \<noteq> ob_attempts s q"
  shows "ob_attempts s' q = ob_attempts s q + 1 \<and> ob_attempts s' q \<le> MaxEventDispatchAttempts"
proof -
  let ?t = "retireExhausted cutoff s"
  have "ob_attempts ?t = ob_attempts s" by (simp add: retireExhausted_def)
  with ListRecorded_effect [OF assms(1)] assms(2) have "s' = claimed cutoff limit s" by metis
  with assms(2) \<open>ob_attempts ?t = ob_attempts s\<close> obtain r where r: "r \<in> set (staleBatch cutoff limit ?t)" "q = ev_seq r"
    and "ob_attempts s' q = ob_attempts s q + 1"
    by (auto simp: claimed_def countAttempts_def split: if_splits)
  moreover from staleBatch_events [OF r(1)] r(2) have "ob_attempts s q < MaxEventDispatchAttempts"
    using retired_below by blast
  ultimately show ?thesis by simp
qed

lemma notified_key: "notified s i u \<longleftrightarrow> (FromEvent i, u) \<in> inboxKey ` set (ob_notifications s)"
  unfolding notified_def image_iff by (metis Pair_inject)

lemma notify_ok:
  assumes ok: "outbox_ok (s, as @ w # bs)" and w: "wk_left w = u # us" "NotificationRuleFor (dr_kind (wk_draft w)) = NotifyAs kind"
    and run: "notifyLeg (wk_draft w) kind u e n s = (r, n', s')"
  shows "outbox_ok (s', as @ w\<lparr>wk_left := us, wk_completed := wk_completed w \<and> \<not> notifyRejected r\<rparr> # bs)"
proof -
  from notifyLeg_effect(1) [OF run] have same: "ob_db s' = ob_db s" "ob_attempts s' = ob_attempts s" "ob_deliveries s' = ob_deliveries s"
    and more: "\<And>i v. notified s i v \<Longrightarrow> notified s' i v"
    by (auto simp: leg_def notified_def)
  have g: "grows s s'" using same(1) more by (simp add: grows_def)
  have wk: "working s w" using ok by (simp add: outbox_ok_def)
  have inbox: "inbox_ok s'"
  proof (cases "s' = s")
    case True
    with ok show ?thesis by (simp add: outbox_ok_def)
  next
    case False
    with notifyLeg_effect(1) [OF run] obtain x where s': "ob_notifications s' = ob_notifications s @ [x]" and
      x: "nt_source x = FromEvent (dr_id (wk_draft w))" "nt_recipient x = u" "nt_kind x = kind" "u \<noteq> ActorUserID (dr_actor (wk_draft w))"
      "\<not> notified s (dr_id (wk_draft w)) u" by (auto simp: leg_def)
    have "sourceOf s' x (wk_draft w)" using wk w x same(1) by (auto simp: sourceOf_def working_def)
    moreover have "inboxKey x \<notin> inboxKey ` set (ob_notifications s)" using x by (simp add: notified_key)
    moreover have "inbox_ok s" using ok by (simp add: outbox_ok_def)
    ultimately show ?thesis
      using sourceOf_mono [OF g] unfolding inbox_ok_def s' by fastforce
  qed
  have "deliveries_ok s'" using ok same by (simp add: outbox_ok_def deliveries_ok_def)
  from outbox_ok_events [OF ok _ _ same(2) more inbox this] same(1) have "outbox_ok (s', as @ w # bs)" by simp
  moreover have "working s' (w\<lparr>wk_left := us, wk_completed := wk_completed w \<and> \<not> notifyRejected r\<rparr>)"
    using working_mono [OF g wk] w notifyLeg_effect(2) [OF run] by (auto simp: working_def informed_def)
  ultimately show ?thesis by (simp add: outbox_ok_def)
qed

lemma added_walk:
  assumes "added q s t" "walk_ok (map ed_row (ob_deliveries s))"
  shows "walk_ok (map ed_row (ob_deliveries t))"
  using assms by (auto simp: added_def walk_ok_def MaxAttempts_def comp_def)

lemma complete_ok:
  assumes ok: "outbox_ok (s, ws)" and com: "completes i s s'" and out: "\<And>r. \<lbrakk>r \<in> set (events s); dr_id (ev_draft r) = i\<rbrakk> \<Longrightarrow> fannedOut s (ev_draft r)"
  shows "outbox_ok (s', ws)"
proof -
  from com obtain r t where r: "r \<in> set (events s)" "dr_id (ev_draft r) = i" "ev_state r = DispatchStateRecorded"
    and add: "added (ev_seq r) s t" and s': "markDispatched (ev_seq r) t = Some s'"
    by (auto simp: completes_def dest: rowWhere_SomeD)
  from add have t: "ob_db t = ob_db s" "ob_notifications t = ob_notifications s" "ob_attempts t = ob_attempts s"
    by (auto simp: added_def)
  have rows: "rowsOf s' = rowsOf s" and inbox: "ob_notifications s' = ob_notifications s" and att: "ob_attempts s' = ob_attempts s"
    using s' t by (auto simp: rowsOf_def updateEvents_def)
  note g = grows_rows [OF rows inbox]
  have ev: "events s' = updateWhere (\<lambda>x. ev_seq x = ev_seq r \<and> ev_state x = DispatchStateRecorded) (ev_state_update (\<lambda>_. DispatchStateDispatched)) (events s)"
    using s' t by auto
  have only: "x = r" if "x \<in> set (events s)" "ev_seq x = ev_seq r" for x
    using ok that r(1) by (metis (no_types, lifting) case_prod_conv distinct_map inj_onD outbox_ok_def recorded_seqs)
  have "fannedOut s' (ev_draft x)" if "x \<in> set (events s)" "ev_seq x = ev_seq r" for x
    using only [OF that] fannedOut_mono [OF g out [OF r(1,2)]] by simp
  then have "dispatched_ok s'"
    using ok fannedOut_mono [OF g] by (auto simp: outbox_ok_def dispatched_ok_def ev set_updateWhere)
  moreover have "deliveries_ok s'"
  proof -
    from s' have "ob_deliveries s' = ob_deliveries t" by auto
    moreover have "\<exists>x \<in> set (events s'). ev_seq x = ev_seq r \<and> ev_state x = DispatchStateDispatched"
      unfolding ev set_updateWhere by (rule bexI [OF _ imageI [OF r(1)]]) (simp add: r(3))
    moreover have "\<exists>y \<in> set (events s'). ev_seq y = ev_seq x \<and> ev_state y = DispatchStateDispatched"
      if "x \<in> set (events s)" "ev_state x = DispatchStateDispatched" for x
      unfolding ev set_updateWhere by (rule bexI [OF _ imageI [OF that(1)]]) (simp add: that(2))
    ultimately show ?thesis
      using ok add added_walk [OF add] by (fastforce simp: outbox_ok_def deliveries_ok_def added_def)
  qed
  moreover have "attempts_ok s'"
    using ok by (auto simp: outbox_ok_def attempts_ok_def att ev set_updateWhere)
  ultimately show ?thesis
    using ok recorded_cong [OF rows] inbox_mono [OF _ g inbox] workers_mono [OF g] by (simp add: outbox_ok_def)
qed

lemma dispatch_ok:
  assumes ok: "outbox_ok (s, as @ w # bs)" and w: "wk_left w = []" "wk_completed w"
    and run: "EventStore_Dispatch (dr_id (wk_draft w)) e n s = (r, n', s')"
  shows "outbox_ok (s', as @ bs)"
proof -
  have rest: "outbox_ok (s, as @ bs)" and wk: "working s w" using ok by (auto simp: outbox_ok_def)
  have "fannedOut s (ev_draft x)" if "x \<in> set (events s)" "dr_id (ev_draft x) = dr_id (wk_draft w)" for x
  proof -
    have "distinct (map (\<lambda>r. dr_id (ev_draft r)) (events s))" using ok by (simp add: outbox_ok_def recorded_ok_def)
    with that wk have "ev_draft x = wk_draft w" by (auto simp: working_def distinct_map inj_on_def)
    with working_finished [OF wk w] show ?thesis by simp
  qed
  with Dispatch_effect [OF run] rest complete_ok [OF rest] show ?thesis by blast
qed

lemma mark_read_ok:
  assumes ok: "outbox_ok (s, ws)" and run: "NotificationStore_MarkRead u i e n s = (r, n', s')"
  shows "outbox_ok (s', ws)"
proof -
  from run have s': "s' = s \<or> s' = s\<lparr>ob_notifications := updateWhere (\<lambda>x. nt_id x = i \<and> nt_recipient x = u) (nt_state_update (\<lambda>_. StateRead)) (ob_notifications s)\<rparr>"
    by (auto simp: NotificationStore_MarkRead_def Let_def split: if_splits prod.splits sum.splits list.splits)
  have "inbox_ok s'"
    using s' ok by (auto simp: outbox_ok_def inbox_ok_def sourceOf_def set_updateWhere comp_def)
  moreover have "map inboxKey (ob_notifications s') = map inboxKey (ob_notifications s)" using s' by auto
  then have "notified s' j v" if "notified s j v" for j v
    using that unfolding notified_key by (metis list.set_map)
  moreover have "deliveries_ok s'" using s' ok by (auto simp: outbox_ok_def deliveries_ok_def)
  moreover have "ob_db s' = ob_db s" "ob_attempts s' = ob_attempts s" using s' by auto
  ultimately show ?thesis using outbox_ok_events [OF ok] by simp
qed

lemma withRows_maps:
  assumes "tags rows = tags (map ed_row xs)"
  shows "map ed_row (map2 (\<lambda>x r. x\<lparr>ed_row := r\<rparr>) xs rows) = rows"
    "map deliveryKey (map2 (\<lambda>x r. x\<lparr>ed_row := r\<rparr>) xs rows) = map deliveryKey xs"
    "map ed_event (map2 (\<lambda>x r. x\<lparr>ed_row := r\<rparr>) xs rows) = map ed_event xs"
proof -
  have "length xs = length rows" using arg_cong [OF assms, of length] by (simp add: tags_def)
  then have "tags rows = tags (map ed_row xs) \<Longrightarrow> map ed_row (map2 (\<lambda>x r. x\<lparr>ed_row := r\<rparr>) xs rows) = rows \<and>
     map deliveryKey (map2 (\<lambda>x r. x\<lparr>ed_row := r\<rparr>) xs rows) = map deliveryKey xs \<and>
     map ed_event (map2 (\<lambda>x r. x\<lparr>ed_row := r\<rparr>) xs rows) = map ed_event xs"
    by (induction xs rows rule: list_induct2) (simp_all add: tags_def)
  with assms show "map ed_row (map2 (\<lambda>x r. x\<lparr>ed_row := r\<rparr>) xs rows) = rows"
    "map deliveryKey (map2 (\<lambda>x r. x\<lparr>ed_row := r\<rparr>) xs rows) = map deliveryKey xs"
    "map ed_event (map2 (\<lambda>x r. x\<lparr>ed_row := r\<rparr>) xs rows) = map ed_event xs" by blast+
qed

lemma deliver_ok:
  assumes ok: "outbox_ok (s, ws)" and tags: "tags rows = tags (map ed_row (ob_deliveries s))" and walk: "walk_ok rows"
  shows "outbox_ok (withRows rows s, ws)"
proof -
  define ys where "ys = map2 (\<lambda>x r. x\<lparr>ed_row := r\<rparr>) (ob_deliveries s) rows"
  note maps = withRows_maps [OF tags, folded ys_def]
  have "ed_event ` set ys = ed_event ` set (ob_deliveries s)" using arg_cong [OF maps(3), of set] by simp
  then have "\<exists>x \<in> set (ob_deliveries s). ed_event y = ed_event x" if "y \<in> set ys" for y using that by blast
  then have "\<exists>r \<in> set (events s). ev_seq r = ed_event y \<and> ev_state r = DispatchStateDispatched" if "y \<in> set ys" for y
    using ok that by (fastforce simp: outbox_ok_def deliveries_ok_def)
  moreover have "ob_deliveries (withRows rows s) = ys" "ob_db (withRows rows s) = ob_db s" by (simp_all add: withRows_def ys_def)
  moreover have "distinct (map deliveryKey ys)" using ok unfolding maps(2) by (simp add: outbox_ok_def deliveries_ok_def)
  ultimately have "deliveries_ok (withRows rows s)"
    using walk unfolding deliveries_ok_def by (metis maps(1))
  moreover have "inbox_ok (withRows rows s)" using ok by (simp add: outbox_ok_def inbox_ok_def withRows_def sourceOf_def)
  moreover have "notified (withRows rows s) i u = notified s i u" for i u by (simp add: notified_def withRows_def)
  ultimately show ?thesis by (intro outbox_ok_events [OF ok]) (simp_all add: withRows_def)
qed

lemma claim_due_ok:
  assumes ok: "outbox_ok (s, ws)" and run: "ClaimDueDeliveries k hold e n (map ed_row (ob_deliveries s)) = (c, n', rows)" and exact: "exactIDs e"
  shows "outbox_ok (withRows rows s, ws)"
proof -
  have walk: "walk_ok (map ed_row (ob_deliveries s))" using ok by (simp add: outbox_ok_def deliveries_ok_def)
  with claim_step [OF run walk exact] walk_cong(1) have "walk_ok rows" by blast
  with deliver_ok [OF ok claim_tags [OF run]] show ?thesis .
qed

lemma attempt_ok:
  assumes ok: "outbox_ok (s, ws)" and run: "attemptDelivery dp x e n (map ed_row (ob_deliveries s)) = (b, n', rows)" and x: "0 \<le> cw_attempts x"
  shows "outbox_ok (withRows rows s, ws)"
proof -
  have "walk_ok (map ed_row (ob_deliveries s))" using ok by (simp add: outbox_ok_def deliveries_ok_def)
  with deliver_ok [OF ok attempt_tags [OF run]] attempt_walk [OF _ x run] show ?thesis .
qed

theorem step_ok: "step c c' \<Longrightarrow> outbox_ok c \<Longrightarrow> outbox_ok c'"
proof (induction rule: step.induct)
  case (other_tables d s ws subs)
  then show ?case
    by (intro outbox_ok_events [OF other_tables.prems]) (auto simp: outbox_ok_def inbox_ok_def deliveries_ok_def sourceOf_def notified_def)
next
  case (inline r s ws)
  then show ?case using working_start [of "ev_draft r" s] by (simp add: outbox_ok_def)
next
  case (crash s as w bs)
  then show ?case by (simp add: outbox_ok_def)
qed (rule record_event_ok retire_ok claim_ok notify_ok dispatch_ok mark_read_ok claim_due_ok attempt_ok; assumption)+

lemma steps_ok: "step\<^sup>*\<^sup>* c c' \<Longrightarrow> outbox_ok c \<Longrightarrow> outbox_ok c'"
  by (induction rule: rtranclp_induct) (auto intro: step_ok)

section \<open>The recorder and the sweep are interleavings\<close>

text \<open>\<open>later s s'\<close>: the rows of \<open>s\<close> with new ones behind them, whose sequence numbers are higher.\<close>

definition later :: "outbox \<Rightarrow> outbox \<Rightarrow> bool" where
  "later s s' \<longleftrightarrow> (\<exists>rows. fst (rowsOf s') = fst (rowsOf s) @ rows \<and> (\<forall>x \<in> set rows. snd (rowsOf s) \<le> fst x)) \<and>
     snd (rowsOf s) \<le> snd (rowsOf s') \<and> (\<forall>q < snd (rowsOf s). ob_occurred s' q = ob_occurred s q)"

lemma later_same: "\<lbrakk>rowsOf s' = rowsOf s; ob_occurred s' = ob_occurred s\<rbrakk> \<Longrightarrow> later s s'"
  by (simp add: later_def)

lemma later_trans:
  assumes "later s s'" "later s' s''"
  shows "later s s''"
proof -
  from assms obtain xs ys where "fst (rowsOf s') = fst (rowsOf s) @ xs" "\<forall>x \<in> set xs. snd (rowsOf s) \<le> fst x"
    "fst (rowsOf s'') = fst (rowsOf s') @ ys" "\<forall>x \<in> set ys. snd (rowsOf s') \<le> fst x" "snd (rowsOf s) \<le> snd (rowsOf s')"
    unfolding later_def by blast
  then have "fst (rowsOf s'') = fst (rowsOf s) @ (xs @ ys) \<and> (\<forall>x \<in> set (xs @ ys). snd (rowsOf s) \<le> fst x)" by auto
  with assms show ?thesis unfolding later_def by (metis (no_types, lifting) order.strict_trans2 order_trans)
qed

lemma retire_rows: "rowsOf (retireExhausted cutoff s) = rowsOf s" "ob_occurred (retireExhausted cutoff s) = ob_occurred s"
  "rowsOf (claimed cutoff limit s) = rowsOf s" "ob_occurred (claimed cutoff limit s) = ob_occurred s"
  "rowsOf (countAttempts qs s) = rowsOf s" "ob_occurred (countAttempts qs s) = ob_occurred s"
  by (simp_all add: claimed_def countAttempts_def rowsOf_def retireExhausted_def updateEvents_def)

lemma completes_rows: "completes i s s' \<Longrightarrow> rowsOf s' = rowsOf s \<and> ob_occurred s' = ob_occurred s"
  by (auto simp: completes_def added_def rowsOf_def updateEvents_def)

lemma step_later: "step (s, ws) (s', ws') \<Longrightarrow> later s s'"
proof (induction "(s, ws)" "(s', ws')" arbitrary: s ws s' ws' rule: step.induct)
  case (record_event v us s s')
  then show ?case
    by (auto simp: insertDomainEvent_def insertEvent_def Let_def later_def rowsOf_def split: if_splits)
next
  case (other_tables d s subs)
  then show ?case by (simp add: later_same rowsOf_def)
next
  case (notify w u us kind e n s r n' s' as bs)
  then show ?case using notifyLeg_effect(1) by (fastforce simp: leg_def rowsOf_def intro!: later_same)
next
  case (dispatch w e n s r n' s' as bs)
  then show ?case using Dispatch_effect completes_rows later_same by metis
next
  case (mark_read u i e n s r n' s' ws)
  then show ?case
    by (intro later_same) (auto simp: NotificationStore_MarkRead_def Let_def rowsOf_def split: if_splits prod.splits sum.splits list.splits)
qed (simp_all add: later_same retire_rows, simp_all add: later_same withRows_def rowsOf_def)

lemma steps_later: "step\<^sup>*\<^sup>* c c' \<Longrightarrow> later (fst c) (fst c')"
proof (induction rule: rtranclp_induct)
  case base
  show ?case by (simp add: later_same)
next
  case (step c c')
  then show ?case using step_later later_trans by (metis prod.collapse)
qed

lemma later_drafts:
  assumes "later s s'"
  shows "ev_draft ` set (events s) \<subseteq> ev_draft ` set (events s')"
proof -
  have "ev_draft ` set (events s) = snd ` set (fst (rowsOf s))" for s by (auto simp: rowsOf_def image_iff)
  moreover from assms obtain rows where "fst (rowsOf s') = fst (rowsOf s) @ rows" by (auto simp: later_def)
  ultimately show ?thesis by (simp add: image_Un)
qed

text \<open>The code of the recorder runs one worker after the other.\<close>

lemma legs_steps:
  assumes "NotificationRuleFor (dr_kind (wk_draft w)) = NotifyAs kind"
    "notifyLegs (wk_draft w) kind (wk_left w) (wk_completed w) e n s = (c, n', s')"
  shows "step\<^sup>*\<^sup>* (s, w # ws) (s', w\<lparr>wk_left := [], wk_completed := c\<rparr> # ws)"
  using assms
proof (induction "wk_left w" arbitrary: w n s)
  case Nil
  then have "s' = s" "w\<lparr>wk_left := [], wk_completed := c\<rparr> = w" by (simp_all flip: Nil.hyps)
  then show ?case by simp
next
  case (Cons u us)
  obtain r n1 s1 where leg: "notifyLeg (wk_draft w) kind u e n s = (r, n1, s1)" by (metis prod_cases3)
  define w1 where "w1 = w\<lparr>wk_left := us, wk_completed := wk_completed w \<and> \<not> notifyRejected r\<rparr>"
  have "notifyLegs (wk_draft w1) kind (wk_left w1) (wk_completed w1) e n1 s1 = (c, n', s')"
    using Cons.prems(2) by (simp add: w1_def leg flip: Cons.hyps(2))
  from Cons.hyps(1) [OF _ _ this] Cons.prems(1)
  have "step\<^sup>*\<^sup>* (s1, w1 # ws) (s', w1\<lparr>wk_left := [], wk_completed := c\<rparr> # ws)" by (simp add: w1_def)
  moreover have "step (s, w # ws) (s1, w1 # ws)"
    using step.notify [OF Cons.hyps(2) [symmetric] Cons.prems(1) leg, of "[]" ws] by (simp add: w1_def)
  ultimately show ?case by (simp add: w1_def converse_rtranclp_into_rtranclp)
qed

lemma fanOut_steps:
  assumes "fanOutNotifications draft e n s = (c, n', s')"
  shows "step\<^sup>*\<^sup>* (s, startWorker draft # ws) (s', \<lparr>wk_draft = draft, wk_left = [], wk_completed = c\<rparr> # ws)"
proof (cases "NotificationRuleFor (dr_kind draft)")
  case NoNotification
  with assms show ?thesis by (simp add: fanOutNotifications_def startWorker_def)
next
  case (NotifyAs kind)
  then have "notifyLegs (wk_draft (startWorker draft)) kind (wk_left (startWorker draft)) (wk_completed (startWorker draft)) e n s = (c, n', s')"
    using assms by (simp add: fanOutNotifications_def startWorker_def)
  from legs_steps [OF _ this, of ws] NotifyAs show ?thesis by (simp add: startWorker_def)
qed

lemma worker_steps:
  assumes "fanOutNotifications draft e n s = (c, n1, s1)" "s2 = (if c then snd (snd (EventStore_Dispatch (dr_id draft) e n1 s1)) else s1)"
  shows "step\<^sup>*\<^sup>* (s, startWorker draft # ws) (s2, ws)"
proof -
  let ?w = "\<lparr>wk_draft = draft, wk_left = [], wk_completed = c\<rparr>"
  obtain r n2 t where run: "EventStore_Dispatch (dr_id draft) e n1 s1 = (r, n2, t)" by (metis prod_cases3)
  have "step (s1, [] @ ?w # ws) (s2, [] @ ws)"
    using assms(2) run step.dispatch [of ?w e n1 s1 r n2 t "[]" ws] step.crash [of s1 "[]" ?w ws] by (cases c) simp_all
  with fanOut_steps [OF assms(1), of ws] show ?thesis by (simp add: rtranclp.rtrancl_into_rtrancl)
qed

lemma workers_steps:
  "Recorder_Dispatch drafts e n s = (n', s') \<Longrightarrow> step\<^sup>*\<^sup>* (s, map startWorker drafts @ ws) (s', ws)"
proof (induction drafts arbitrary: n s)
  case (Cons draft drafts)
  obtain c n1 s1 where fan: "fanOutNotifications draft e n s = (c, n1, s1)" by (metis prod_cases3)
  obtain r n2 s2 where run: "EventStore_Dispatch (dr_id draft) e n1 s1 = (r, n2, s2)" by (metis prod_cases3)
  from Cons.prems obtain m where "Recorder_Dispatch drafts e m (if c then s2 else s1) = (n', s')"
    by (auto simp: fan run split: if_splits)
  from Cons.IH [OF this] worker_steps [OF fan refl, of "map startWorker drafts @ ws"] show ?case
    by (simp add: run rtranclp_trans split: if_splits)
qed simp

lemma inline_steps:
  assumes "set drafts \<subseteq> ev_draft ` set (events s)"
  shows "step\<^sup>*\<^sup>* (s, ws) (s, map startWorker drafts @ ws)"
  using assms
proof (induction drafts)
  case (Cons d drafts)
  then obtain r where "r \<in> set (events s)" "d = ev_draft r" by auto
  then have "step (s, map startWorker drafts @ ws) (s, startWorker d # map startWorker drafts @ ws)" by (auto intro: step.inline)
  with Cons show ?case by (simp add: rtranclp.rtrancl_into_rtrancl)
qed simp

theorem recorder_interleaves:
  assumes "Recorder_Dispatch drafts e n s = (n', s')" "set drafts \<subseteq> ev_draft ` set (events s)"
  shows "step\<^sup>*\<^sup>* (s, ws) (s', ws)"
  using inline_steps [OF assms(2)] workers_steps [OF assms(1)] by (rule rtranclp_trans)

lemma list_steps:
  assumes "ListRecordedBefore cutoff limit e n s = (res, n', s')" "exactIDs e" "recorded_ok s"
  shows "step\<^sup>*\<^sup>* (s, ws) (s', (case res of Inl _ \<Rightarrow> [] | Inr (drafts, _) \<Rightarrow> map startWorker drafts) @ ws)"
proof -
  let ?t = "retireExhausted cutoff s"
  have retired: "step\<^sup>*\<^sup>* (s, ws) (?t, ws)" by (rule r_into_rtranclp) (rule step.retire)
  have all: "step\<^sup>*\<^sup>* (s, ws) (claimed cutoff limit s, map startWorker drafts @ ws)"
    if "set drafts \<subseteq> ev_draft ` set (staleBatch cutoff limit ?t)" for drafts
    using retired step.claim [OF that, of ws] unfolding claimed_def Let_def by (rule rtranclp.rtrancl_into_rtrancl)
  show ?thesis
  proof (cases res)
    case (Inl reason)
    from ListRecorded_effect [OF assms(1)] retired all [of "[]"] have "step\<^sup>*\<^sup>* (s, ws) (s', ws)" by fastforce
    with Inl show ?thesis by simp
  next
    case (Inr p)
    then obtain drafts k where res: "res = Inr (drafts, k)" by (cases p) auto
    have s': "s' = claimed cutoff limit s" by (rule ListRecorded_all [OF assms(1) [unfolded res]])
    have "rowsOf s' = rowsOf s" by (simp add: s' retire_rows)
    with assms(3) have "recorded_ok s'" using recorded_cong by blast
    then have "set drafts \<subseteq> ev_draft ` set (staleBatch cutoff limit ?t)"
      using ListRecorded_drafts [OF assms(1) [unfolded res] assms(2)] by blast
    from all [OF this] show ?thesis by (simp add: res s')
  qed
qed

theorem sweep_interleaves:
  assumes "sweepRecordedEvents e n s = (res, n', s')" "exactIDs e" "recorded_ok s"
  shows "step\<^sup>*\<^sup>* (s, ws) (s', ws)"
proof -
  obtain r n1 s1 where list: "ListRecordedBefore (clock e n - eventDispatchGracePeriod) eventDispatchSweepBatch e (Suc n) s = (r, n1, s1)"
    by (metis prod_cases3)
  note first = list_steps [OF list assms(2,3), of ws]
  show ?thesis
  proof (cases r)
    case (Inl reason)
    with assms(1) first show ?thesis by (auto simp: sweepRecordedEvents_def list)
  next
    case (Inr p)
    then obtain drafts k where r: "r = Inr (drafts, k)" by (cases p) auto
    obtain n2 s2 where run: "Recorder_Dispatch drafts e n1 s1 = (n2, s2)" by fastforce
    with assms(1) have "s' = s2" by (simp add: sweepRecordedEvents_def list r)
    with first workers_steps [OF run, of ws] show ?thesis by (simp add: r)
  qed
qed

text \<open>A pass of the webhook dispatcher is a sequence of claims and attempts.\<close>

lemma withRows_rows:
  assumes "tags rows = tags (map ed_row (ob_deliveries s))"
  shows "map ed_row (ob_deliveries (withRows rows s)) = rows"
  using withRows_maps(1) [OF assms] by (simp add: withRows_def)

lemma withRows_again:
  assumes "tags rows = tags (map ed_row (ob_deliveries s))"
  shows "withRows rows' (withRows rows s) = withRows rows' s"
proof -
  have "length (ob_deliveries s) = length rows" using arg_cong [OF assms, of length] by (simp add: tags_def)
  then have "map2 (\<lambda>x r. x\<lparr>ed_row := r\<rparr>) (map2 (\<lambda>x r. x\<lparr>ed_row := r\<rparr>) (ob_deliveries s) rows) rows' =
      map2 (\<lambda>x r. x\<lparr>ed_row := r\<rparr>) (ob_deliveries s) rows'"
    by (intro nth_equalityI) auto
  then show ?thesis by (simp add: withRows_def)
qed

lemma withRows_self: "withRows (map ed_row (ob_deliveries s)) s = s"
proof -
  have "map2 (\<lambda>x r. x\<lparr>ed_row := r\<rparr>) xs (map ed_row xs) = xs" for xs :: "event_delivery list"
    by (induction xs) simp_all
  then show ?thesis by (simp add: withRows_def)
qed

lemma attemptAll_steps:
  assumes "attemptAll dp xs e n rows = (k, n', rows')" "\<forall>x \<in> set xs. 0 \<le> cw_attempts x" "tags rows = tags (map ed_row (ob_deliveries s))"
  shows "step\<^sup>*\<^sup>* (withRows rows s, ws) (withRows rows' s, ws)"
  using assms
proof (induction xs arbitrary: n rows k n' rows')
  case (Cons x xs)
  obtain b n1 rows1 where a: "attemptDelivery dp x e n rows = (b, n1, rows1)" by (metis prod_cases3)
  obtain k' n2 rows2 where all: "attemptAll dp xs e n1 rows1 = (k', n2, rows2)" by (metis prod_cases3)
  have "step (withRows rows s, ws) (withRows rows1 (withRows rows s), ws)"
    using a Cons.prems(2) withRows_rows [OF Cons.prems(3)] by (auto intro: step.attempt)
  moreover have "tags rows1 = tags (map ed_row (ob_deliveries s))" using attempt_tags [OF a] Cons.prems(3) by simp
  with Cons.IH [OF all] Cons.prems(2) have "step\<^sup>*\<^sup>* (withRows rows1 s, ws) (withRows rows2 s, ws)" by simp
  moreover have "rows' = rows2" using Cons.prems(1) by (simp add: a all)
  ultimately show ?case unfolding withRows_again [OF Cons.prems(3)] by (simp add: converse_rtranclp_into_rtranclp)
qed simp

lemma runBatches_steps:
  assumes "runBatches b dp att del e n rows = (res, n', rows')" "exactIDs e" "walk_ok rows" "tags rows = tags (map ed_row (ob_deliveries s))"
  shows "step\<^sup>*\<^sup>* (withRows rows s, ws) (withRows rows' s, ws)"
  using assms(1,3,4)
proof (induction b arbitrary: att del n rows)
  case (Suc b)
  obtain c n1 rows1 where cl: "ClaimDueDeliveries claimBatchSize claimHold e n rows = (c, n1, rows1)" by (metis prod_cases3)
  note claim = claim_step [OF cl Suc.prems(2) assms(2)]
  then have ok1: "walk_ok rows1" using Suc.prems(2) walk_cong(1) by blast
  have tags1: "tags rows1 = tags (map ed_row (ob_deliveries s))" using claim_tags [OF cl] Suc.prems(3) by simp
  have "step (withRows rows s, ws) (withRows rows1 (withRows rows s), ws)"
    using cl assms(2) withRows_rows [OF Suc.prems(3)] by (auto intro: step.claim_due)
  then have first: "step\<^sup>*\<^sup>* (withRows rows s, ws) (withRows rows1 s, ws)" unfolding withRows_again [OF Suc.prems(3)] by blast
  show ?case
  proof (cases c)
    case (Inl reason)
    with Suc.prems(1) first show ?thesis by (auto simp: cl)
  next
    case (Inr claimed)
    obtain k n2 rows2 where all: "attemptAll dp claimed e n1 rows1 = (k, n2, rows2)" by (metis prod_cases3)
    have cs: "claims claimed rows1" using claim Inr by simp
    then have "\<forall>x \<in> set claimed. 0 \<le> cw_attempts x" using ok1 by (fastforce simp: claims_def claimedRow_def walk_ok_def)
    with first attemptAll_steps [OF all _ tags1, of ws] have second: "step\<^sup>*\<^sup>* (withRows rows s, ws) (withRows rows2 s, ws)"
      using rtranclp_trans by fast
    have "walk_ok rows2" "tags rows2 = tags (map ed_row (ob_deliveries s))"
      using attemptAll_walk [OF ok1 cs all] attemptAll_tags [OF all] tags1 by simp_all
    with Suc.IH [of _ _ n2 rows2] Suc.prems(1) second show ?thesis
      by (auto simp: cl Inr all split: if_splits intro: rtranclp_trans)
  qed
qed simp

theorem deliveries_interleave:
  assumes "RunOnce dp e n (map ed_row (ob_deliveries s)) = (res, n', rows')" "exactIDs e" "deliveries_ok s"
  shows "step\<^sup>*\<^sup>* (s, ws) (withRows rows' s, ws)"
proof -
  have "walk_ok (map ed_row (ob_deliveries s))" using assms(3) by (simp add: deliveries_ok_def)
  from runBatches_steps [OF assms(1) [unfolded RunOnce_def] assms(2) this refl] show ?thesis by (simp only: withRows_self)
qed

end
