(* ===== verification/Feeds.thy ===== *)
theory Feeds
  imports Dispatch
begin

text \<open>
  The cursor feeds of \<open>internal/db/event_store.go\<close>.  A reader keeps the last cursor it saw and
  asks for what comes after it; the rows recorded before keep their place and new ones come
  behind them, so that reading on shows every event of the reader once and in order.
\<close>

section \<open>Feeds by cursor\<close>

text \<open>The feed of a user after a cursor: the recorded events addressed to the user, in order.\<close>

definition feedOf :: "UserID \<Rightarrow> int \<Rightarrow> outbox \<Rightarrow> StoredEvent list" where
  "feedOf u c s = map (\<lambda>(q, d). \<lparr>se_event = Draft_Event d (ob_occurred s q), se_cursor = int q, se_actor_name = None\<rparr>)
     (filter (\<lambda>(q, d). u \<in> set (dr_recipients d) \<and> c < int q) (fst (rowsOf s)))"

text \<open>The actor of every event is a user: the column references the table.\<close>

definition actorsKnown :: "outbox \<Rightarrow> bool" where
  "actorsKnown s \<longleftrightarrow> distinct (map us_id (users (ob_db s))) \<and>
     (\<forall>r \<in> set (events s). ActorUserID (dr_actor (ev_draft r)) \<in> us_id ` set (users (ob_db s)))"

lemma sort_key_sorted: "sorted (map f xs) \<Longrightarrow> sort_key f xs = xs"
  by (induction xs) (auto simp: insort_is_Cons)

lemma feedRows_listed:
  assumes "recorded_ok s" "actorsKnown s"
  shows "map (\<lambda>(r, at, u). storedEvent r at) (feedRows (\<lambda>r. u \<in> set (dr_recipients (ev_draft r))) c s) = feedOf u c s"
proof -
  have single: "\<exists>x. filter (\<lambda>v. us_id v = ActorUserID (dr_actor (ev_draft r))) (users (ob_db s)) = [x]" if "r \<in> set (events s)" for r
  proof -
    from assms(2) that obtain x where "x \<in> set (users (ob_db s))" "us_id x = ActorUserID (dr_actor (ev_draft r))"
      by (auto simp: actorsKnown_def image_iff)
    with filter_member [of us_id "users (ob_db s)" x] assms(2) show ?thesis by (auto simp: actorsKnown_def)
  qed
  have rows: "map (\<lambda>(r, at, u). storedEvent r at) (concat (map (\<lambda>r. map (\<lambda>u. (r, ob_occurred s (ev_seq r), u))
         (filter (\<lambda>v. us_id v = ActorUserID (dr_actor (ev_draft r))) (users (ob_db s)))) xs)) =
      map (\<lambda>r. storedEvent r (ob_occurred s (ev_seq r))) xs" if "set xs \<subseteq> set (events s)" for xs
    using that
  proof (induction xs)
    case (Cons r xs)
    with single [of r] show ?case by auto
  qed simp
  let ?p = "\<lambda>r. u \<in> set (dr_recipients (ev_draft r)) \<and> c < int (ev_seq r)"
  have "sorted_wrt (<) (map ev_seq (events s))" using assms(1) by (simp add: recorded_ok_def events_ok_def)
  then have "sorted (map ev_seq (filter ?p (events s)))"
    by (metis sorted_filter strict_sorted_imp_sorted)
  then have "sort_key ev_seq (filter ?p (events s)) = filter ?p (events s)" by (rule sort_key_sorted)
  then show ?thesis
    using rows [of "filter ?p (events s)"]
    by (simp add: feedRows_def feedOf_def rowsOf_def filter_map comp_def storedEvent_def)
qed

lemma listed_map: "list_all2 (\<lambda>r v. g v = f r) rs vs \<Longrightarrow> map g vs = map f rs"
  by (induction rule: list_all2_induct) simp_all

lemma scan_listed:
  assumes "exactIDs e" "scanEnrichedFeedEvent e row = Some v"
  shows "WithoutEnrichment v = (case row of (r, occurredAt, u) \<Rightarrow> storedEvent r occurredAt)"
  using assms(2)
  by (cases row) (auto simp: WithoutEnrichment_def storedEvent_def split: option.splits sum.splits dest!: parseStored_exact [OF assms(1)])

lemma feed_page:
  assumes "listEnrichedFeedPage owned after page e n s = (Inr shown, n')" "exactIDs e"
  shows "map WithoutEnrichment shown = map (\<lambda>(r, occurredAt, u). storedEvent r occurredAt) (sqlPage page (feedRows owned (afterSequence after) s))"
proof -
  let ?rows = "sqlPage page (feedRows owned (afterSequence after) s)"
  have "\<forall>vs. res = Inr vs \<longrightarrow> map WithoutEnrichment vs = map (\<lambda>(r, occurredAt, u). storedEvent r occurredAt) ?rows"
    if "listEnrichedFeedPage owned after page e n s = (res, n')" for res
  proof (rule readN_rule [OF that [unfolded listEnrichedFeedPage_def]], intro wp_bind wp_scan_rel
      [where P = "\<lambda>row v. WithoutEnrichment v = (case row of (r, occurredAt, u) \<Rightarrow> storedEvent r occurredAt)"]
      wp_ask wp_case_option wp_raise wp_ret, goal_cases)
    case (5 row m x)
    then show ?case using scan_listed [OF assms(2)] by simp
  next
    case (6 vs)
    then show ?case using listed_map by blast
  qed simp_all
  with assms(1) show ?thesis by blast
qed

lemma feed_listed:
  assumes "ListForRecipient u after page e n s = (Inr shown, n')" "exactIDs e" "recorded_ok s" "actorsKnown s"
  shows "map WithoutEnrichment shown = sqlPage page (feedOf u (afterSequence after) s)"
  using feed_page [OF assms(1) [unfolded ListForRecipient_def] assms(2)]
  by (simp add: sqlPage_def take_map drop_map flip: feedRows_listed [OF assms(3,4)])

lemma filter_after:
  assumes "sorted_wrt (<) (map f xs)" "0 < k" "k \<le> length xs"
  shows "filter (\<lambda>x. (f (xs ! (k - 1)) :: 'b :: linorder) < f x) xs = drop k xs"
proof -
  have less: "f (xs ! i) < f (xs ! j)" if "i < j" "j < length xs" for i j
    using assms(1) that by (simp add: sorted_wrt_iff_nth_less)
  have "filter (\<lambda>x. f (xs ! (k - 1)) < f x) (take k xs) = []"
  proof (rule filter_False, intro ballI notI)
    fix x assume "x \<in> set (take k xs)" "f (xs ! (k - 1)) < f x"
    then obtain i where "i < k" "i < length xs" "x = xs ! i" by (auto simp: in_set_conv_nth)
    show False
    proof (cases "i = k - 1")
      case True
      with \<open>x = xs ! i\<close> \<open>f (xs ! (k - 1)) < f x\<close> show False by simp
    next
      case False
      with \<open>i < k\<close> assms(2,3) have "f (xs ! i) < f (xs ! (k - 1))" by (intro less) arith+
      with \<open>x = xs ! i\<close> \<open>f (xs ! (k - 1)) < f x\<close> show False by simp
    qed
  qed
  moreover have "filter (\<lambda>x. f (xs ! (k - 1)) < f x) (drop k xs) = drop k xs"
  proof (rule filter_True, intro ballI)
    fix x assume "x \<in> set (drop k xs)"
    then obtain j where "j < length xs - k" "x = xs ! (k + j)" using assms(3) by (auto simp: in_set_conv_nth)
    with less [of "k - 1" "k + j"] assms(2) show "f (xs ! (k - 1)) < f x" by simp
  qed
  ultimately show ?thesis by (metis append_take_drop_id filter_append self_append_conv2)
qed

lemma feedOf_sorted:
  assumes "recorded_ok s"
  shows "sorted_wrt (<) (map se_cursor (feedOf u c s))"
proof -
  have "sorted_wrt (<) (map (\<lambda>x. int (fst x)) (filter p (fst (rowsOf s))))" for p
    using assms by (auto simp: recorded_ok_def events_ok_def rowsOf_def sorted_wrt_map comp_def intro!: sorted_wrt_filter)
  then show ?thesis by (simp add: feedOf_def comp_def case_prod_beta)
qed

lemma feedOf_after: "c \<le> c' \<Longrightarrow> feedOf u c' s = filter (\<lambda>v. c' < se_cursor v) (feedOf u c s)"
  by (auto simp: feedOf_def filter_map comp_def case_prod_beta intro!: arg_cong [where f = "map _"] filter_cong)

lemma feedOf_bound: "v \<in> set (feedOf u c s) \<Longrightarrow> c < se_cursor v"
  by (auto simp: feedOf_def)

text \<open>What has been recorded keeps its place: the feed of a later state starts with the feed of the earlier one.\<close>

lemma feedOf_later:
  assumes "later s s'" "recorded_ok s"
  shows "\<exists>new. feedOf u c s' = feedOf u c s @ new"
proof -
  from assms(1) obtain rows where rows: "fst (rowsOf s') = fst (rowsOf s) @ rows" and occ: "\<And>q. q < snd (rowsOf s) \<Longrightarrow> ob_occurred s' q = ob_occurred s q"
    by (auto simp: later_def)
  have "q < snd (rowsOf s)" if "(q, d) \<in> set (fst (rowsOf s))" for q d
    using assms(2) that by (auto simp: recorded_ok_def events_ok_def rowsOf_def)
  with occ have "map (\<lambda>(q, d). \<lparr>se_event = Draft_Event d (ob_occurred s' q), se_cursor = int q, se_actor_name = None\<rparr>) (filter p (fst (rowsOf s))) =
      map (\<lambda>(q, d). \<lparr>se_event = Draft_Event d (ob_occurred s q), se_cursor = int q, se_actor_name = None\<rparr>) (filter p (fst (rowsOf s)))" for p
    by auto
  then show ?thesis by (simp add: feedOf_def rows)
qed

definition resumeAfter :: "Cursor \<Rightarrow> StoredEvent list \<Rightarrow> Cursor" where
  "resumeAfter c shown = (if shown = [] then c else se_cursor (last shown))"

lemma resume_feed:
  assumes "later s s'" "recorded_ok s" "recorded_ok s'" "map WithoutEnrichment shown = take k (feedOf u c s)"
  shows "feedOf u c s' = map WithoutEnrichment shown @ feedOf u (resumeAfter c shown) s'"
proof (cases "shown = []")
  case True
  then show ?thesis by (simp add: resumeAfter_def)
next
  case False
  let ?f = "feedOf u c s'"
  obtain new where f: "?f = feedOf u c s @ new" using feedOf_later [OF assms(1,2)] by blast
  define m where "m = length shown"
  have len: "m = min (length (feedOf u c s)) k" using arg_cong [OF assms(4), of length] by (simp add: m_def)
  then have "take m (feedOf u c s) = take k (feedOf u c s)" by (cases "length (feedOf u c s) \<le> k") (simp_all add: min_def)
  with len have pre: "map WithoutEnrichment shown = take m ?f" "m \<le> length ?f" using assms(4) by (auto simp: f)
  have pos: "0 < m" using False by (simp add: m_def)
  have "se_cursor (last shown) = se_cursor (last (map WithoutEnrichment shown))"
    using False by (simp add: last_map WithoutEnrichment_def)
  also have "last (map WithoutEnrichment shown) = ?f ! (m - 1)"
    using pre pos by (subst last_conv_nth) auto
  finally have cur: "resumeAfter c shown = se_cursor (?f ! (m - 1))" using False by (simp add: resumeAfter_def)
  have "?f ! (m - 1) \<in> set ?f" using pre(2) pos by (intro nth_mem) simp
  then have "c \<le> resumeAfter c shown" using feedOf_bound cur by fastforce
  from feedOf_after [OF this] filter_after [OF feedOf_sorted [OF assms(3)] pos, of u c] pre(2)
  have "feedOf u (resumeAfter c shown) s' = drop m ?f" by (simp add: cur)
  with pre(1) show ?thesis by simp
qed

end
