(* ===== verification/Sweep.thy ===== *)
theory Sweep
  imports Dispatch
begin

text \<open>
  The recovery sweep of \<open>cmd/sharecrop/lifecycle.go\<close> makes progress: when the database answers
  and identifiers are new, one pass dispatches every stale event that has attempts left.
\<close>

section \<open>A sweep without failures\<close>

text \<open>From the call \<open>n\<close> on, the generator gives identifiers that are not in the tables, none twice.\<close>

definition freshFrom :: "env \<Rightarrow> nat \<Rightarrow> outbox \<Rightarrow> bool" where
  "freshFrom e n s \<longleftrightarrow> (\<forall>m \<ge> n. \<exists>i. uuid_new e m = Inr i \<and> i \<notin> nt_id ` set (ob_notifications s) \<and> i \<notin> deliveryID ` set (ob_deliveries s)) \<and>
     inj_on (uuid_new e) {n..}"

lemma fresh_later: "\<lbrakk>freshFrom e n s; n \<le> n'; ob_notifications s' = ob_notifications s; ob_deliveries s' = ob_deliveries s\<rbrakk> \<Longrightarrow> freshFrom e n' s'"
  by (auto simp: freshFrom_def intro: inj_on_subset)

lemma fresh_used:
  assumes "freshFrom e n s" "n < n'" "uuid_new e n = Inr i"
    "nt_id ` set (ob_notifications s') \<subseteq> insert i (nt_id ` set (ob_notifications s))"
    "deliveryID ` set (ob_deliveries s') \<subseteq> insert i (deliveryID ` set (ob_deliveries s))"
  shows "freshFrom e n' s'"
proof -
  have "\<exists>j. uuid_new e m = Inr j \<and> j \<notin> nt_id ` set (ob_notifications s') \<and> j \<notin> deliveryID ` set (ob_deliveries s')" if "n' \<le> m" for m
  proof -
    have "n \<le> m" using assms(2) that by simp
    with assms(1) obtain j where j: "uuid_new e m = Inr j" "j \<notin> nt_id ` set (ob_notifications s)" "j \<notin> deliveryID ` set (ob_deliveries s)"
      unfolding freshFrom_def by blast
    moreover have "j \<noteq> i"
    proof
      assume "j = i"
      with j(1) assms(3) have "uuid_new e m = uuid_new e n" by simp
      with assms(1,2) that have "m = n" by (auto simp: freshFrom_def dest: inj_onD)
      with that assms(2) show False by simp
    qed
    ultimately show ?thesis using assms(4,5) by blast
  qed
  moreover have "inj_on (uuid_new e) {n'..}" using assms(1,2) by (auto simp: freshFrom_def intro: inj_on_subset)
  ultimately show ?thesis by (simp add: freshFrom_def)
qed

lemma notifyLeg_live:
  assumes "fault e = (\<lambda>_. False)" "freshFrom e n s" "notifyLeg d kind u e n s = (r, n', s')"
  shows "\<not> notifyRejected r \<and> n \<le> n' \<and> freshFrom e n' s' \<and> ob_db s' = ob_db s \<and> ob_occurred s' = ob_occurred s"
proof -
  obtain i where i: "uuid_new e n = Inr i" "i \<notin> nt_id ` set (ob_notifications s)" using assms(2) by (auto simp: freshFrom_def)
  have fresh: "freshFrom e (Suc (Suc (Suc n))) t" if "nt_id ` set (ob_notifications t) \<subseteq> insert i (nt_id ` set (ob_notifications s))"
    "ob_deliveries t = ob_deliveries s" for t
    using that by (intro fresh_used [OF assms(2) _ i(1)]) auto
  show ?thesis
    using assms(1,3) i(2) fresh [of s'] assms(2) unfolding notifyLeg_def Notify_def NotificationStore_Create_def Let_def
    by (auto simp: NewNotificationID_def i(1) split: if_splits)
qed

lemma legs_live:
  "\<lbrakk>fault e = (\<lambda>_. False); freshFrom e n s; notifyLegs d kind us c e n s = (c', n', s')\<rbrakk>
    \<Longrightarrow> c' = c \<and> n \<le> n' \<and> freshFrom e n' s' \<and> ob_db s' = ob_db s \<and> ob_occurred s' = ob_occurred s"
proof (induction us arbitrary: c n s)
  case (Cons u us)
  obtain r n1 s1 where leg: "notifyLeg d kind u e n s = (r, n1, s1)" by (metis prod_cases3)
  note live = notifyLeg_live [OF Cons.prems(1,2) leg]
  from Cons.IH [OF Cons.prems(1), of n1 s1 c] Cons.prems(3) live show ?case by (auto simp: leg)
qed auto

lemma fanOut_live:
  assumes "fault e = (\<lambda>_. False)" "freshFrom e n s" "fanOutNotifications d e n s = (c, n', s')"
  shows "c \<and> n \<le> n' \<and> freshFrom e n' s' \<and> ob_db s' = ob_db s \<and> ob_occurred s' = ob_occurred s"
proof (cases "NotificationRuleFor (dr_kind d)")
  case (NotifyAs kind)
  with legs_live [OF assms(1,2), of d kind "dr_recipients d" True c n' s'] assms(3) show ?thesis by (simp add: fanOutNotifications_def)
qed (use assms in \<open>simp add: fanOutNotifications_def\<close>)

lemma run_mapT_rows:
  assumes "fault e = (\<lambda>_. False)"
  shows "mapT rs (\<lambda>r. bindT (queryT b (\<lambda>_. r)) retT) e n s = (Cont rs, n + length rs, s)"
  using assms by (induction rs arbitrary: n) (simp_all add: run_rules)

lemma run_scan_rows:
  assumes "fault e = (\<lambda>_. False)"
  shows "scanT a b c rows retT e n s = (Cont (rows s), n + length (rows s) + 2, s)"
  by (simp add: scanT_def run_rules run_mapT_rows [OF assms] assms)

lemma inserts_live:
  assumes "fault e = (\<lambda>_. False)"
  shows "freshFrom e n s \<Longrightarrow> \<exists>k n' s'. mapT subs (\<lambda>sub. bindT (askT NewWebhookDeliveryID) (\<lambda>r. case r of
        Inl _ \<Rightarrow> raiseT ()
      | Inr i \<Rightarrow> countT () (\<lambda>s. if hasDelivery sub q s then 0 else 1) (insertDelivery i sub q now))) e n s = (Cont k, n', s') \<and>
    n \<le> n' \<and> freshFrom e n' s'"
proof (induction subs arbitrary: n s)
  case Nil
  then show ?case by (simp add: run_rules)
next
  case (Cons sub subs)
  obtain i where i: "uuid_new e n = Inr i" "i \<notin> deliveryID ` set (ob_deliveries s)" using Cons.prems by (auto simp: freshFrom_def)
  then obtain s1 where s1: "insertDelivery i sub q now s = Some s1" by (cases "hasDelivery sub q s") (simp_all add: insertDelivery_def)
  then have "freshFrom e (Suc (Suc n)) s1"
    by (intro fresh_used [OF Cons.prems _ i(1)])
       (auto simp: insertDelivery_def pendingDelivery_def Let_def split: if_splits)
  from Cons.IH [OF this] i(1) s1 show ?case
    by (auto simp: run_rules NewWebhookDeliveryID_def assms dest: Suc_leD)
qed

lemma expand_live:
  assumes "fault e = (\<lambda>_. False)" "freshFrom e n s"
  shows "\<exists>k n' s'. expandWebhookDeliveries q e n s = (Cont k, n', s') \<and> n \<le> n' \<and> freshFrom e n' s'"
proof -
  let ?m = "Suc n + length (matchingSubscriptions q s) + 2"
  have "freshFrom e ?m s" by (rule fresh_later [OF assms(2)]) simp_all
  from inserts_live [OF assms(1) this, of "matchingSubscriptions q s" q "clock e n"]
  obtain k n' s' where "mapT (matchingSubscriptions q s) (\<lambda>sub. bindT (askT NewWebhookDeliveryID) (\<lambda>r. case r of
        Inl _ \<Rightarrow> raiseT ()
      | Inr i \<Rightarrow> countT () (\<lambda>s. if hasDelivery sub q s then 0 else 1) (insertDelivery i sub q (clock e n)))) e ?m s = (Cont k, n', s')"
    "?m \<le> n'" "freshFrom e n' s'" by blast
  then show ?thesis
    unfolding expandWebhookDeliveries_def by (simp add: run_rules run_scan_rows assms(1))
qed

text \<open>Without failures a dispatch completes a recorded event.\<close>

definition settledAs :: "DispatchState \<Rightarrow> outbox \<Rightarrow> Draft \<Rightarrow> bool" where
  "settledAs st s d \<longleftrightarrow> (\<exists>r \<in> set (events s). ev_draft r = d \<and> ev_state r = st)"

lemma completes_state:
  assumes "completes i s s'" "settledAs st s d"
  shows "settledAs st s' d \<or> st = DispatchStateRecorded \<and> settledAs DispatchStateDispatched s' d"
proof -
  from assms obtain q r where s': "events s' = updateWhere (\<lambda>r. ev_seq r = q \<and> ev_state r = DispatchStateRecorded)
      (ev_state_update (\<lambda>_. DispatchStateDispatched)) (events s)"
    and r: "r \<in> set (events s)" "ev_draft r = d" "ev_state r = st"
    by (auto simp: completes_def settledAs_def added_def)
  let ?r = "if ev_seq r = q \<and> ev_state r = DispatchStateRecorded then ev_state_update (\<lambda>_. DispatchStateDispatched) r else r"
  have "?r \<in> set (events s')" unfolding s' set_updateWhere by (rule imageI [OF r(1)])
  with r show ?thesis unfolding settledAs_def by (cases "ev_seq r = q \<and> ev_state r = DispatchStateRecorded") fastforce+
qed

lemma completes_settled: "\<lbrakk>completes i s s'; settledAs st s d; st \<noteq> DispatchStateRecorded\<rbrakk> \<Longrightarrow> settledAs st s' d"
  using completes_state by blast

lemma Dispatch_live:
  assumes quiet: "fault e = (\<lambda>_. False)" and fresh: "freshFrom e n s" and run: "EventStore_Dispatch i e n s = (res, n', s')"
    and ok: "recorded_ok s"
  shows "n \<le> n' \<and> freshFrom e n' s' \<and> (settledAs DispatchStateRecorded s d \<and> dr_id d = i \<longrightarrow> settledAs DispatchStateDispatched s' d)"
proof (cases "\<exists>r \<in> set (events s). dr_id (ev_draft r) = i \<and> ev_state r = DispatchStateRecorded")
  case False
  have row: "ev_state r \<noteq> DispatchStateRecorded" if "rowWhere (\<lambda>r. dr_id (ev_draft r) = i) (events s) = Some r" for r
    using rowWhere_SomeD [OF that] False by blast
  have "s' = s \<and> n \<le> n'"
  proof (cases "rowWhere (\<lambda>r. dr_id (ev_draft r) = i) (events s)")
    case None
    then show ?thesis using run quiet by (auto simp: EventStore_Dispatch_def runN_def run_rules)
  next
    case (Some r)
    with row have "ev_state r = DispatchStateDispatched \<or> ev_state r = DispatchStateFailed" by (cases "ev_state r") auto
    with Some show ?thesis using run quiet by (auto simp: EventStore_Dispatch_def runN_def run_rules)
  qed
  with False fresh show ?thesis by (auto simp: settledAs_def intro: fresh_later)
next
  case True
  then obtain r where r: "r \<in> set (events s)" "dr_id (ev_draft r) = i" "ev_state r = DispatchStateRecorded" by blast
  have only: "x = r" if "x \<in> set (events s)" "dr_id (ev_draft x) = i" for x
    using ok that r(1,2) by (auto simp: recorded_ok_def distinct_map inj_on_def)
  have row: "rowWhere (\<lambda>r. dr_id (ev_draft r) = i) (events s) = Some r"
  proof (cases "rowWhere (\<lambda>r. dr_id (ev_draft r) = i) (events s)")
    case None
    with r(1,2) show ?thesis by (auto simp: rowWhere_None)
  next
    case (Some x)
    with only rowWhere_SomeD [OF Some] show ?thesis by blast
  qed
  have "freshFrom e (Suc (Suc n)) s" by (rule fresh_later [OF fresh]) simp_all
  from expand_live [OF quiet this] obtain k m t where ex: "expandWebhookDeliveries (ev_seq r) e (Suc (Suc n)) s = (Cont k, m, t)"
    "Suc (Suc n) \<le> m" "freshFrom e m t" by blast
  have s': "markDispatched (ev_seq r) t = Some s'" "n' = Suc (Suc m)"
    using run quiet by (auto simp: EventStore_Dispatch_def runN_def run_rules row r(3) ex(1))
  have "ob_db t = ob_db s" using wp_expand [of e "ev_seq r" s] ex(1) by (auto simp: wp_def added_def dest!: spec [of _ "Suc (Suc n)"])
  then have ev: "events s' = updateWhere (\<lambda>x. ev_seq x = ev_seq r \<and> ev_state x = DispatchStateRecorded) (ev_state_update (\<lambda>_. DispatchStateDispatched)) (events s)"
    using s'(1) by auto
  have "settledAs DispatchStateDispatched s' (ev_draft r)"
    unfolding settledAs_def ev set_updateWhere by (rule bexI [OF _ imageI [OF r(1)]]) (simp add: r(3))
  moreover have "freshFrom e n' s'" by (rule fresh_later [OF ex(3)]) (use s' in auto)
  moreover have "d = ev_draft r" if "settledAs DispatchStateRecorded s d" "dr_id d = i"
    using that only by (auto simp: settledAs_def)
  ultimately show ?thesis using ex(2) s'(2) by auto
qed

lemma Recorder_live:
  assumes quiet: "fault e = (\<lambda>_. False)"
  shows "\<lbrakk>freshFrom e n s; recorded_ok s; Recorder_Dispatch drafts e n s = (n', s')\<rbrakk>
    \<Longrightarrow> rowsOf s' = rowsOf s \<and> ob_occurred s' = ob_occurred s \<and>
      (settledAs st s d \<and> st \<noteq> DispatchStateRecorded \<longrightarrow> settledAs st s' d) \<and>
      (settledAs DispatchStateRecorded s d \<and> d \<in> set drafts \<longrightarrow> settledAs DispatchStateDispatched s' d)"
proof (induction drafts arbitrary: n s st)
  case (Cons x drafts)
  obtain c n1 s1 where fan: "fanOutNotifications x e n s = (c, n1, s1)" by (metis prod_cases3)
  obtain r n2 s2 where run: "EventStore_Dispatch (dr_id x) e n1 s1 = (r, n2, s2)" by (metis prod_cases3)
  note f = fanOut_live [OF quiet Cons.prems(1) fan]
  have ok1: "recorded_ok s1" and rows1: "rowsOf s1 = rowsOf s" using f Cons.prems(2) by (simp_all add: recorded_ok_def rowsOf_def)
  have s1: "settledAs st s1 d = settledAs st s d" for st using f by (simp add: settledAs_def)
  note live = Dispatch_live [OF quiet _ run ok1, of d]
  have rows2: "rowsOf s2 = rowsOf s" "ob_occurred s2 = ob_occurred s"
    using Dispatch_effect [OF run] completes_rows rows1 f by metis+
  have kept: "settledAs st s2 d \<or> st = DispatchStateRecorded \<and> settledAs DispatchStateDispatched s2 d" if "settledAs st s d" for st
    using Dispatch_effect [OF run] completes_state [of "dr_id x" s1 s2 st d] s1 that by auto
  have "recorded_ok s2" using recorded_cong [OF rows2(1)] Cons.prems(2) by simp
  moreover have "Recorder_Dispatch drafts e n2 s2 = (n', s')" using Cons.prems(3) f by (simp add: fan run)
  moreover have "freshFrom e n2 s2" using live f by blast
  ultimately have IH: "rowsOf s' = rowsOf s2 \<and> ob_occurred s' = ob_occurred s2 \<and>
      (settledAs st s2 d \<and> st \<noteq> DispatchStateRecorded \<longrightarrow> settledAs st s' d) \<and>
      (settledAs DispatchStateRecorded s2 d \<and> d \<in> set drafts \<longrightarrow> settledAs DispatchStateDispatched s' d)" for st
    using Cons.IH by blast
  have "settledAs DispatchStateDispatched s2 d" if "settledAs DispatchStateRecorded s d" "d = x"
    using live f s1 that by blast
  then show ?case using IH [of st] IH [of DispatchStateDispatched] rows2 kept [of st] kept [of DispatchStateRecorded] by auto
qed auto

lemma parse_quiet: "quiet e \<Longrightarrow> parseRef (\<lambda>x. fromIDResult (uuid_parse e x)) v = Some v"
  by (cases v) (simp_all add: quiet_def)

lemma parseStored_quiet:
  assumes "quiet e"
  shows "parseStoredEventColumns e r occurredAt = Some (storedEvent r occurredAt)"
proof -
  have subject: "parseSubject e x = Some x" for x
    using parse_quiet [OF assms] unfolding parseSubject_def event_id_defs by simp
  show ?thesis
    using assms by (cases "dr_actor (ev_draft r)")
      (simp_all add: parseStoredEventColumns_def Let_def subject event_id_defs quiet_def storedEvent_def Draft_Event_def WithoutEnrichment_def)
qed

lemma eventRecipients_quiet:
  assumes "quiet e"
  shows "\<exists>us n'. eventRecipients q e n s = (Some us, n') \<and> n \<le> n'"
proof -
  have faults: "fault e = (\<lambda>_. False)" using assms by (simp add: quiet_def)
  have "scanT (None :: UserID list option) None None (\<lambda>s. concat (map (\<lambda>r. dr_recipients (ev_draft r)) (filter (\<lambda>r. ev_seq r = q) (events s))))
      (\<lambda>raw. bindT (askT (\<lambda>e n. ParseUserID e raw)) (\<lambda>v. case v of Inl _ \<Rightarrow> raiseT None | Inr u \<Rightarrow> retT u)) e n s =
     (Cont (map id (concat (map (\<lambda>r. dr_recipients (ev_draft r)) (filter (\<lambda>r. ev_seq r = q) (events s))))),
      n + 2 * length (concat (map (\<lambda>r. dr_recipients (ev_draft r)) (filter (\<lambda>r. ev_seq r = q) (events s)))) + 2, s)"
    by (rule run_scan [OF faults]) (use assms in \<open>simp add: run_rules event_id_defs quiet_def\<close>)
  then show ?thesis by (simp only: eventRecipients_def readN_def run_bind run_ret prod.case outcome.case) simp
qed

lemma scanRecorded_quiet:
  assumes "quiet e" "scanRecorded rs e n s = (stored, k, n')"
  shows "set stored = (\<lambda>r. storedEvent r (ob_occurred s (ev_seq r))) ` set rs \<and> n \<le> n'"
  using assms(2)
proof (induction rs arbitrary: n stored k n')
  case (Cons r rs)
  obtain xs j m where rest: "scanRecorded rs e (Suc n) s = (xs, j, m)" by (metis prod_cases3)
  have "\<not> fault e n" using assms(1) by (simp add: quiet_def)
  with Cons.prems Cons.IH [OF rest] show ?case by (auto simp: rest parseStored_quiet [OF assms(1)])
qed simp

lemma rebuildDrafts_quiet:
  assumes "quiet e"
  shows "\<lbrakk>rebuildDrafts vs e n s = (drafts, k, n'); v \<in> set vs\<rbrakk>
    \<Longrightarrow> \<exists>m us m'. eventRecipients (nat (se_cursor v)) e m s = (Some us, m') \<and> eventDraft (se_event v) us \<in> set drafts"
proof (induction vs arbitrary: n drafts k)
  case (Cons x vs)
  obtain us m where us: "eventRecipients (nat (se_cursor x)) e n s = (Some us, m)" using eventRecipients_quiet [OF assms] by blast
  obtain ds j m' where rest: "rebuildDrafts vs e m s = (ds, j, m')" by (metis prod_cases3)
  from Cons.prems(1) have "drafts = eventDraft (se_event x) us # ds" "n' = m'" by (simp_all add: us rest)
  with Cons.IH [OF rest [folded \<open>n' = m'\<close>]] Cons.prems(2) us show ?case by fastforce
qed simp

lemma countAttempts_same [simp]:
  "ob_notifications (countAttempts qs s) = ob_notifications s" "ob_deliveries (countAttempts qs s) = ob_deliveries s"
  "rowsOf (countAttempts qs s) = rowsOf s"
  by (simp_all add: countAttempts_def rowsOf_def)

lemma rebuildDrafts_counter: "rebuildDrafts vs e n s = (drafts, k, n') \<Longrightarrow> quiet e \<Longrightarrow> n \<le> n'"
proof (induction vs arbitrary: n drafts k n')
  case (Cons v vs)
  obtain us m where us: "eventRecipients (nat (se_cursor v)) e n s = (us, m)" by fastforce
  obtain ds j m' where rest: "rebuildDrafts vs e m s = (ds, j, m')" by (metis prod_cases3)
  have "n \<le> m" using us eventRecipients_quiet [OF Cons.prems(2), of "nat (se_cursor v)" n s] by auto
  with Cons.IH [OF rest Cons.prems(2)] Cons.prems(1) show ?case by (auto simp: us rest split: option.splits)
qed simp

text \<open>Without failures the batch is listed whole.\<close>

lemma ListRecorded_live:
  assumes quiet: "quiet e" and ok: "recorded_ok s" and list: "ListRecordedBefore cutoff limit e n s = (res, n', s')"
  shows "s' = claimed cutoff limit s \<and> n \<le> n' \<and> (\<exists>drafts k. res = Inr (drafts, k) \<and>
    ev_draft ` set (staleBatch cutoff limit (retireExhausted cutoff s)) \<subseteq> set drafts)"
proof -
  define batch where "batch = staleBatch cutoff limit (retireExhausted cutoff s)"
  have faults: "fault e = (\<lambda>_. False)" and exact: "exactIDs e" using quiet by (simp_all add: quiet_def exactIDs_def)
  let ?t = "claimed cutoff limit s"
  obtain stored skipped n1 where scan: "scanRecorded batch e (Suc (Suc n)) ?t = (stored, skipped, n1)" by (metis prod_cases3)
  obtain drafts skipped' n2 where drafts: "rebuildDrafts (sort_key se_cursor stored) e (Suc n1) ?t = (drafts, skipped', n2)" by (metis prod_cases3)
  have res: "s' = ?t" "n' = n2" "res = Inr (drafts, skipped + skipped')"
    using list faults scan drafts by (simp_all add: ListRecordedBefore_def claimed_def batch_def Let_def)
  have okt: "recorded_ok ?t" using ok recorded_cong [OF retire_rows(3)] by simp
  have "ev_draft r \<in> set drafts" if "r \<in> set batch" for r
  proof -
    have r: "r \<in> set (events ?t)" using that staleBatch_events by (fastforce simp: batch_def claimed_def)
    define v where "v = storedEvent r (ob_occurred ?t (ev_seq r))"
    have "v \<in> set (sort_key se_cursor stored)" using scanRecorded_quiet [OF quiet scan] that by (auto simp: v_def)
    from rebuildDrafts_quiet [OF quiet drafts this] obtain m us m' where
      us: "eventRecipients (nat (se_cursor v)) e m ?t = (Some us, m')" "eventDraft (se_event v) us \<in> set drafts" by blast
    moreover have "us = dr_recipients (ev_draft r)" using rebuilt_recorded [OF okt exact r] us(1) by (simp add: v_def storedEvent_def)
    ultimately show ?thesis by (simp add: v_def storedEvent_def eventDraft_stored)
  qed
  moreover have "n \<le> n'" using scanRecorded_quiet [OF quiet scan] rebuildDrafts_counter [OF drafts quiet] res(2) by simp
  ultimately show ?thesis using res by (auto simp: batch_def)
qed

text \<open>Few enough stale rows are all in the batch; after the sweep none is left.\<close>

lemma staleBatch_all:
  assumes "length (filter (stale cutoff s) (events s)) \<le> limit" "r \<in> set (events s)" "stale cutoff s r"
  shows "r \<in> set (staleBatch cutoff limit s)"
  using assms by (simp add: staleBatch_def)

lemma retire_stale: "length (filter (stale cutoff (retireExhausted cutoff s)) (events (retireExhausted cutoff s))) \<le> length (filter (stale cutoff s) (events s))"
proof -
  have "length (filter (stale cutoff t) (updateWhere p (ev_state_update (\<lambda>_. DispatchStateFailed)) rows)) \<le> length (filter (stale cutoff s) rows)"
    if "ob_occurred t = ob_occurred s" for t p rows
    using that by (induction rows) (auto simp: stale_def)
  then show ?thesis by (simp add: retireExhausted_def)
qed

lemma retire_keeps:
  assumes "r \<in> set (events s)" "ob_attempts s (ev_seq r) < MaxEventDispatchAttempts"
  shows "r \<in> set (events (retireExhausted cutoff s))"
  using assms by (force simp: retireExhausted_def set_updateWhere image_iff)

lemma sweep_live:
  assumes quiet: "quiet e" and fresh: "freshFrom e n s" and ok: "recorded_ok s" and run: "sweepRecordedEvents e n s = (res, n', s')"
    and few: "length (filter (stale (clock e n - eventDispatchGracePeriod) s) (events s)) \<le> eventDispatchSweepBatch"
  shows "res = Inr ()" "\<And>r. r \<in> set (events s') \<Longrightarrow> \<not> stale (clock e n - eventDispatchGracePeriod) s' r"
    "\<And>r. \<lbrakk>r \<in> set (events s); stale (clock e n - eventDispatchGracePeriod) s r; ob_attempts s (ev_seq r) < MaxEventDispatchAttempts\<rbrakk>
      \<Longrightarrow> settledAs DispatchStateDispatched s' (ev_draft r)"
proof -
  define cutoff where "cutoff = clock e n - eventDispatchGracePeriod"
  let ?r = "retireExhausted cutoff s" and ?t = "claimed cutoff eventDispatchSweepBatch s"
  obtain l n1 s1 where list: "ListRecordedBefore cutoff eventDispatchSweepBatch e (Suc n) s = (l, n1, s1)" by (metis prod_cases3)
  from ListRecorded_live [OF quiet ok list] obtain drafts k where
    s1: "s1 = ?t" "Suc n \<le> n1" "l = Inr (drafts, k)" "ev_draft ` set (staleBatch cutoff eventDispatchSweepBatch ?r) \<subseteq> set drafts" by blast
  obtain n2 s2 where disp: "Recorder_Dispatch drafts e n1 ?t = (n2, s2)" by fastforce
  have s': "s' = s2" "res = Inr ()" using run list disp by (simp_all add: sweepRecordedEvents_def cutoff_def s1)
  show "res = Inr ()" by (fact s'(2))
  have same: "ob_notifications ?t = ob_notifications s" "ob_deliveries ?t = ob_deliveries s" by (simp_all add: claimed_def retireExhausted_def)
  have ev: "events ?t = events ?r" by (simp add: claimed_def)
  have okt: "recorded_ok ?t" using ok recorded_cong [OF retire_rows(3)] by simp
  have "fault e = (\<lambda>_. False)" "freshFrom e n1 ?t" using quiet fresh s1(2) same by (auto simp: quiet_def intro: fresh_later)
  note live = Recorder_live [OF this okt disp]
  have due: "settledAs DispatchStateDispatched s2 (ev_draft x)"
    if "x \<in> set (events ?t)" "ob_occurred s (ev_seq x) \<le> cutoff" "ev_state x = DispatchStateRecorded" for x
  proof -
    have "x \<in> set (staleBatch cutoff eventDispatchSweepBatch ?r)"
      using that few [folded cutoff_def] retire_stale [of cutoff s] by (intro staleBatch_all) (auto simp: ev stale_def retire_rows(2))
    moreover have "settledAs DispatchStateRecorded ?t (ev_draft x)" using that by (auto simp: settledAs_def)
    ultimately show ?thesis using live s1(4) by blast
  qed
  show "settledAs DispatchStateDispatched s' (ev_draft r)"
    if "r \<in> set (events s)" "stale (clock e n - eventDispatchGracePeriod) s r" "ob_attempts s (ev_seq r) < MaxEventDispatchAttempts" for r
    using due [of r] retire_keeps [OF that(1,3), of cutoff] that(2) [folded cutoff_def] s'(1) by (simp add: ev stale_def)
  have finished: "\<exists>st. st \<noteq> DispatchStateRecorded \<and> settledAs st s2 (ev_draft x)" if "x \<in> set (events ?t)" "ob_occurred s (ev_seq x) \<le> cutoff" for x
  proof (cases "ev_state x = DispatchStateRecorded")
    case True
    with due [OF that] show ?thesis by blast
  next
    case False
    then have "settledAs (ev_state x) ?t (ev_draft x)" using that(1) by (auto simp: settledAs_def)
    with False show ?thesis using live by blast
  qed
  show "\<not> stale (clock e n - eventDispatchGracePeriod) s' r" if "r \<in> set (events s')" for r
  proof
    assume st: "stale (clock e n - eventDispatchGracePeriod) s' r"
    have "(ev_seq r, ev_draft r) \<in> set (fst (rowsOf s2))" using that s'(1) by (simp add: rowsOf_def)
    then have "(ev_seq r, ev_draft r) \<in> set (fst (rowsOf ?t))" using live by simp
    then obtain x where x: "x \<in> set (events ?t)" "ev_seq x = ev_seq r" "ev_draft x = ev_draft r" by (auto simp: rowsOf_def)
    have "ob_occurred s (ev_seq x) \<le> cutoff" using st live x(2) s'(1) by (simp add: stale_def retire_rows(4) cutoff_def)
    from finished [OF x(1) this] x(3) obtain y where y: "y \<in> set (events s2)" "ev_draft y = ev_draft r" "ev_state y \<noteq> DispatchStateRecorded"
      by (auto simp: settledAs_def)
    have "recorded_ok s2" using okt live recorded_cong by blast
    with that y(1,2) s'(1) have "y = r" by (auto simp: recorded_ok_def distinct_map inj_on_def)
    with y(3) st show False by (simp add: stale_def)
  qed
qed

end
