(* ===== verification/Scenario.thy ===== *)
theory Scenario
  imports Feeds Sweep
begin

text \<open>
  A small concrete platform on which the properties are exercised: two users and
  an organization with their accounts, a funded and an unfunded task, a
  submission, a held collectible, and an environment whose database answers
  every statement.
\<close>

section \<open>Environment\<close>

definition calm :: env where
  "calm = \<lparr>fault = (\<lambda>_. False), uuid_parse = Inr, uuid_new = (\<lambda>n. Inr (''ev'' @ formatInt (int n))),
     clock = (\<lambda>_. 0), jsonb_text = Some, sha256_hex = id, entropy = (\<lambda>_. Some (replicate 32 (CHR ''r'')))\<rparr>"

lemma calm_quiet: "quiet calm"
  by (simp add: quiet_def calm_def)

section \<open>Evaluation\<close>

text \<open>Equations by which the runs below compute: white space as characters, and digits over integers.\<close>

lemma spaces_code [code]:
  "spaces = [[CHR 0x09], [CHR 0x0A], [CHR 0x0B], [CHR 0x0C], [CHR 0x0D], [CHR 0x20], [CHR 0xC2, CHR 0x85], [CHR 0xC2, CHR
     0xA0], [CHR 0xE1, CHR 0x9A, CHR 0x80], [CHR 0xE2, CHR 0x80, CHR 0x80], [CHR 0xE2, CHR 0x80, CHR 0x81], [CHR
     0xE2, CHR 0x80, CHR 0x82], [CHR 0xE2, CHR 0x80, CHR 0x83], [CHR 0xE2, CHR 0x80, CHR 0x84], [CHR 0xE2, CHR
     0x80, CHR 0x85], [CHR 0xE2, CHR 0x80, CHR 0x86], [CHR 0xE2, CHR 0x80, CHR 0x87], [CHR 0xE2, CHR 0x80, CHR
     0x88], [CHR 0xE2, CHR 0x80, CHR 0x89], [CHR 0xE2, CHR 0x80, CHR 0x8A], [CHR 0xE2, CHR 0x80, CHR 0xA8], [CHR
     0xE2, CHR 0x80, CHR 0xA9], [CHR 0xE2, CHR 0x80, CHR 0xAF], [CHR 0xE2, CHR 0x81, CHR 0x9F], [CHR 0xE3, CHR
     0x80, CHR 0x80]]"
  by (simp add: spaces_def space_codes_def char_of_def bit_Suc_0_iff)

definition intDigits :: "int \<Rightarrow> nat list" where
  "intDigits v = [nat (v div 262144), nat (v div 4096 mod 64), nat (v div 64 mod 64), nat (v mod 64)]"

lemma intDigits_of: "intDigits (int v) = [v div 262144, v div 4096 mod 64, v div 64 mod 64, v mod 64]"
  by (simp add: intDigits_def nat_div_distrib nat_mod_distrib)

lemma digits3_int:
  "digits3 [a, b, c] = intDigits (int (of_char a * 65536 + of_char b * 256 + of_char c))"
  "digits3 [a, b] = take 3 (intDigits (int (of_char a * 65536 + of_char b * 256)))"
  "digits3 [a] = take 2 (intDigits (int (of_char a * 65536)))"
  by (simp_all only: intDigits_of digits3.simps Let_def numeral_3_eq_3 numeral_2_eq_2 take_Suc_Cons take_0)

lemma digits3_code [code]:
  "digits3 [a, b, c] = intDigits (of_char a * 65536 + of_char b * 256 + of_char c)"
  "digits3 [a, b] = take 3 (intDigits (of_char a * 65536 + of_char b * 256))"
  "digits3 [a] = take 2 (intDigits (of_char a * 65536))"
  "digits3 [] = []"
  "digits3 (a # b # c # x # xs) = []"
  by (simp_all only: digits3_int digits3.simps of_nat_add of_nat_mult of_nat_numeral of_nat_of_char)

section \<open>Tables\<close>

definition draftFor :: "string \<Rightarrow> Kind \<Rightarrow> Draft" where
  "draftFor i k = \<lparr>dr_id = i, dr_kind = k, dr_actor = ActorUser ''alice'', dr_subject = NoSubjectRefs,
     dr_metadata = '''', dr_recipients = [''alice'']\<rparr>"

definition grantRow :: "string \<Rightarrow> CreditAccountID \<Rightarrow> int \<Rightarrow> ledger_row" where
  "grantRow i a v = \<lparr>le_id = i, le_account = a, le_kind = EntryKindSignupGrant, le_amount = v,
     le_task = None, le_key = None, le_note = None\<rparr>"

definition taskRow :: "TaskID \<Rightarrow> TaskState \<Rightarrow> RewardKind \<Rightarrow> int option \<Rightarrow> task_row" where
  "taskRow i st k a = \<lparr>tk_id = i, tk_state = st, tk_created_by = ''alice'', tk_organization = None,
     tk_reward_kind = k, tk_reward_amount = a, tk_participation = ParticipationPolicyOpen,
     tk_ttl_hours = 24, tk_expires_at = None, tk_series = None, tk_series_position = None,
     tk_owner_kind = OwnerKindUser, tk_user = Some ''alice'', tk_team = None, tk_type = TaskTypeGeneral,
     tk_assignee_scope = AssigneeScopeUser, tk_visibility = PublicVisibility, tk_response_schema = ''integer''\<rparr>"

definition platform :: db where
  "platform = \<lparr>
     credit_accounts = [\<lparr>ca_id = ''A'', ca_user = Some ''alice'', ca_organization = None\<rparr>,
                        \<lparr>ca_id = ''B'', ca_user = Some ''bob'', ca_organization = None\<rparr>,
                        \<lparr>ca_id = ''O'', ca_user = None, ca_organization = Some ''org''\<rparr>],
     ledger_entries = [grantRow ''g1'' ''A'' 100, grantRow ''g2'' ''B'' 100, grantRow ''g3'' ''O'' 1000,
        \<lparr>le_id = ''f2'', le_account = ''A'', le_kind = EntryKindTaskFund, le_amount = -20,
         le_task = Some ''t2'', le_key = Some ''k2'', le_note = None\<rparr>],
     task_funds = [\<lparr>tf_task = ''t2'', tf_account = ''A'', tf_amount = 20\<rparr>],
     task_fund_collectibles = [(''t2'', ''c1'')],
     tasks = [taskRow ''t1'' StateDraft RewardKindCredit (Some 30),
              taskRow ''t2'' StateOpen RewardKindBundle (Some 20),
              (taskRow ''t3'' StateDraft RewardKindNone None)\<lparr>tk_owner_kind := OwnerKindOrganization, tk_user := None, tk_organization := Some ''org''\<rparr>],
     submissions = [\<lparr>sb_id = ''s1'', sb_task = ''t2'', sb_user = ''bob'', sb_state = SubmissionStateSubmitted,
        sb_accepted_key = None, sb_changes_key = None, sb_review_key = None, sb_note = None, sb_reviewed_by = None, sb_response = ''1'', sb_created_at = 0\<rparr>],
     task_reservations = [],
     task_implementor_bans = [],
     collectibles = [\<lparr>co_id = ''c1'', co_state = CollectibleStateEscrowed, co_policy = TransferPolicyTransferableBetweenUsers,
        co_owner_kind = CollectibleOwnerKindUser, co_owner = ''alice'', co_organization = ''org''\<rparr>],
     organization_memberships = [\<lparr>mb_organization = ''org'', mb_user = ''alice'', mb_status = MembershipStatusActive,
        mb_roles = [''owner'']\<rparr>],
     team_members = [],
     task_series = [],
     agent_credentials = [''cred''],
     work_day_counters = [],
     domain_events = [],
     next_event_seq = 1,
     submission_receipt_tokens = [],
     submission_validation_errors = [],
     submission_sensitive_fields = [],
     submission_attachments = [],
     task_attachments = [],
     users = [\<lparr>us_id = ''alice'', us_email = ''alice@example.org'', us_display_name = ''Alice''\<rparr>,
              \<lparr>us_id = ''bob'', us_email = ''bob@example.org'', us_display_name = ''''\<rparr>],
     teams = []\<rparr>"

lemma platform_ok: "db_ok platform"
  by code_simp

lemma platform_credits: "totalCredits platform = 1200" "issued platform = 1200"
  by code_simp+

lemma platform_issued: "totalCredits platform = issued platform"
  by (simp add: platform_credits)

section \<open>Commands\<close>

definition fundT1 :: FundStoreCommand where
  "fundT1 = \<lparr>fc_entry = ''e1'', fc_funder = ''alice'', fc_task = ''t1'', fc_amount = 30, fc_key = ''k1'',
     fc_spend = NoSpendCharge, fc_draft = draftFor ''d1'' KindTaskFunded\<rparr>"

definition acceptS1 :: AcceptStoreCommand where
  "acceptS1 = \<lparr>ac_payout_entry = ''p1'', ac_refund_entry = ''r1'', ac_tip_debit = ''td'', ac_tip_credit = ''tc'',
     ac_reviewer = UserReviewer ''alice'', ac_task = ''t2'', ac_submission = ''s1'', ac_key = ''ka'',
     ac_credit = FullCreditReviewSelection, ac_tip = CreditTipSelection 5,
     ac_collectible_tip = NoCollectibleTipSelection, ac_spend = NoSpendCharge,
     ac_draft = draftFor ''d2'' KindSubmissionAccepted\<rparr>"

definition sendBob :: PeerTransferStoreCommand where
  "sendBob = \<lparr>pc_debit = ''x1'', pc_credit = ''x2'', pc_actor = ''alice'', pc_source = TransferFromSelf,
     pc_target = TransferToUser ''bob'', pc_amount = 40, pc_note = NoTransferNote, pc_key = ''ks'',
     pc_spend = NoSpendCharge, pc_draft = draftFor ''d3'' KindCreditsSent\<rparr>"

definition refundT2 :: RefundStoreCommand where
  "refundT2 = \<lparr>uc_entry = ''u1'', uc_requester = ''alice'', uc_task = ''t2'', uc_key = ''kr'',
     uc_draft = draftFor ''d4'' KindTaskCancelled\<rparr>"

definition grantBob :: GrantStoreCommand where
  "grantBob = \<lparr>gc_entry = ''v1'', gc_target = GrantToUser ''bob'', gc_amount = 50, gc_note = ''thanks'',
     gc_key = ''kg'', gc_draft = draftFor ''d5'' KindCreditGranted\<rparr>"

lemma fundT1_runs: "fst (FundTask fundT1 calm 0 platform) =
    TaskFunded \<lparr>fund_task = ''t1'', fund_account = ''A'', fund_amount = 30\<rparr> FirstExecution [draftFor ''d1'' KindTaskFunded]"
  by code_simp

lemma acceptS1_runs: "accepted (fst (AcceptSubmission acceptS1 calm 0 platform))"
  by code_simp

lemma sendBob_runs: "sent (fst (PeerTransfer sendBob calm 0 platform))"
  by code_simp

lemma refundT2_runs: "refunded (fst (RefundTask refundT2 calm 0 platform))"
  by code_simp

lemma grantBob_runs: "granted (fst (GrantCredits grantBob calm 0 platform))"
  by code_simp


lemma platform_custody: "custody_ok platform"
  by code_simp

lemma platform_canonical: "canonical calm d"
  by (simp add: canonical_def calm_def)

lemma platform_ids: "ids_ok platform" "distinct (map tk_id (tasks platform))"
  by code_simp+


text \<open>A day on the platform: a task is funded, a submission accepted, credits sent and granted.\<close>

definition day :: db where
  "day = execute (CmdGrantCredits grantBob) calm 300 (execute (CmdPeerTransfer sendBob) calm 200
     (execute (CmdAcceptSubmission acceptS1) calm 100 (execute (CmdFundTask fundT1) calm 0 platform)))"

lemma day_runs: "runs platform day"
  unfolding day_def
  by (intro runs.step runs.start platform_canonical)
     (simp_all add: acceptS1_def valid_tip_def sendBob_def grantBob_def)

lemma day_books: "spendableOf day ''A'' = 5"
  by code_simp

definition refusedS2 :: submission_row where
  "refusedS2 = \<lparr>sb_id = ''s2'', sb_task = ''t2'', sb_user = ''carol'', sb_state = SubmissionStateRejected,
     sb_accepted_key = None, sb_changes_key = None, sb_review_key = Some ''k9'', sb_note = None, sb_reviewed_by = Some ''alice'', sb_response = ''2'', sb_created_at = 0\<rparr>"

text \<open>Variants of the platform: a task to reserve, and a task past its expiry.\<close>

definition bookable :: db where
  "bookable = platform\<lparr>tasks := tasks platform @
     [(taskRow ''t4'' StateOpen RewardKindNone None)\<lparr>tk_participation := ParticipationPolicyReservationRequired\<rparr>]\<rparr>"

definition reserveT4 :: ReservationCommand where
  "reserveT4 = \<lparr>rc_task = ''t4'', rc_assignee = UserAssignee ''bob'', rc_requested_by = ''bob'',
     rc_origin = ReservedViaWorkCredential ''cred'' 2 (ReservationConcurrencyCapAtMost 1),
     rc_draft = draftFor ''d6'' KindReservationRequested\<rparr>"

definition overdue :: db where
  "overdue = platform\<lparr>tasks := updateWhere (\<lambda>r. tk_id r = ''t2'') (\<lambda>r. r\<lparr>tk_expires_at := Some 0\<rparr>) (tasks platform)\<rparr>"

definition withdrawn :: db where
  "withdrawn = platform\<lparr>tasks := updateWhere (\<lambda>r. tk_id r = ''t3'') (\<lambda>r. r\<lparr>tk_state := StateCancelled\<rparr>) (tasks platform)\<rparr>"

section \<open>Submissions and deliveries\<close>

text \<open>A decoder that knows one document, the schema of the platform's tasks.\<close>

definition readSchema :: "RawMessage \<Rightarrow> schemaDTO option" where
  "readSchema raw = (if raw = ''integer'' then Some \<lparr>dtoKind = ''integer'', dtoFields = [], dtoItem = '''', dtoValues = [],
     dtoValue = '''', dtoVariants = [], dtoSensitivity = \<lparr>dtoCategory = '''', dtoRetention = '''', dtoRedaction = ''''\<rparr>\<rparr> else None)"

definition answerT2 :: SubmitCommand where
  "answerT2 = \<lparr>sc_task = ''t2'', sc_submitter = ''bob'', sc_response = ''7'', sc_attachments = [],
     sc_budget = NoWorkBudgetCharge, sc_draft = draftFor ''d6'' KindSubmissionCreated\<rparr>"

abbreviation answered :: "SubmitResult \<times> nat \<times> db" where
  "answered \<equiv> Submit readSchema WorkerIsUser answerT2 calm 0 platform"

lemma answered_runs: "case fst answered of SubmissionCreated v tok \<Rightarrow> sm_state v = SubmissionStateSubmitted | SubmitRejected reason \<Rightarrow> False"
  by code_simp

lemma platform_attached: "attached_ok platform"
  by code_simp

text \<open>A task for one team, to which bob belongs.\<close>

definition teamPlatform :: db where
  "teamPlatform = platform\<lparr>tasks := map (\<lambda>r. r\<lparr>tk_visibility := TeamVisibility ''team''\<rparr>) (tasks platform), team_members := [(''team'', ''bob'')]\<rparr>"

text \<open>One delivery and a receiver that always fails.\<close>

definition deliveryD1 :: delivery_row where
  "deliveryD1 = \<lparr>wd_id = ''w1'', wd_subscription = ''h1'', wd_url = ''https://example.org/hook'', wd_actor_name = ''Alice'',
     wd_actor_email = ''alice@example.org'', wd_state = DeliveryStatePending, wd_attempts = 0, wd_next = 0, wd_status = ''''\<rparr>"

definition failing :: dispatcher where
  "failing = \<lparr>dp_network = (\<lambda>_ _. Response 500), dp_now = (\<lambda>_. 0), dp_jitter = (\<lambda>_. 0)\<rparr>"

text \<open>A decoder for the schema of an object with one sensitive field, and a submission to such a task.\<close>

definition readPerson :: "RawMessage \<Rightarrow> schemaDTO option" where
  "readPerson raw = (let none = \<lparr>dtoCategory = '''', dtoRetention = '''', dtoRedaction = ''''\<rparr>;
       plain = \<lparr>dtoKind = ''integer'', dtoFields = [], dtoItem = '''', dtoValues = [], dtoValue = '''', dtoVariants = [],
         dtoSensitivity = none\<rparr> in
     if raw = ''integer''
     then Some (plain\<lparr>dtoKind := ''object'', dtoFields := [\<lparr>dtoName = ''ssn'', dtoPresence = ''required'', dtoSchema = ''inner'',
       dtoFieldSensitivity = \<lparr>dtoCategory = ''pii'', dtoRetention = ''standard'', dtoRedaction = ''remove''\<rparr>\<rparr>]\<rparr>)
     else Some plain)"

definition personSchema :: Schema where
  "personSchema = ObjectSchema [ObjectField ''ssn'' FieldRequired IntegerSchema (Sensitive SensitivityPII RetentionStandard RedactionRemove)]"

definition personS1 :: Submission where
  "personS1 = \<lparr>sm_id = ''s1'', sm_task = ''t2'', sm_submitter = ''bob'', sm_display_name = ''bob'', sm_state = SubmissionStateSubmitted,
     sm_response = ''{\"ssn\":1}'', sm_attachments = [], sm_validation = ValidationPassed, sm_sensitive_fields = [],
     sm_review_note = '''', sm_created_at = 0\<rparr>"

lemma person_parses: "ParseSchemaJSON readPerson ''integer'' = Inr personSchema"
  by code_simp

lemma person_values: "ParseValueJSON ''{\"ssn\":1}'' = Inr (ObjectValue [(''ssn'', IntegerValue 1)])"
    "ParseValueJSON ''{\"ssn\":2}'' = Inr (ObjectValue [(''ssn'', IntegerValue 2)])"
  by code_simp+

section \<open>The task service\<close>

abbreviation noIssuer :: issuer where "noIssuer \<equiv> \<lambda>_ _. None"

lemma calm_exact: "exactIDs calm"
  by (simp add: exactIDs_def calm_def)

lemma cancelT2_runs: "case fst (Cancel (UserSubject ''alice'') ''t2'' calm 0 platform) of TaskStateChanged r \<Rightarrow> True | ChangeStateRejected reason \<Rightarrow> False"
  by code_simp

lemma bobReserves_runs:
  "case fst (reserveFor noIssuer ''bob'' WorkerIsUser ''t4'' (UserAssignee ''bob'') calm 0 bookable) of
     ReservationCreated v secret \<Rightarrow> True | ReservationRejected reason \<Rightarrow> False"
  by code_simp

definition booked :: db where
  "booked = snd (CreateReservation ''v4'' reserveT4 calm 0 bookable)"

lemma booked_ids: "distinct (map rv_id (task_reservations booked))"
  by code_simp

lemma bobReleases_runs:
  "case fst (CancelReservation (UserSubject ''bob'') ''t4'' ''v4'' calm 0 booked) of
     ReservationStateChanged v \<Rightarrow> True | ReservationStateChangeRejected reason \<Rightarrow> False"
  by code_simp

section \<open>The outbox\<close>

text \<open>An outbox over the platform with one subscription of bob's, and two events recorded in it.\<close>

definition hookH1 :: subscription_row where
  "hookH1 = \<lparr>ws_id = ''h1'', ws_owner = OwnerUser ''bob'', ws_audience = RecipientAudience, ws_state = StateActive,
     ws_kinds = [KindTaskFunded], ws_url = ''https://example.org/hook''\<rparr>"

definition emptyBox :: outbox where
  "emptyBox = \<lparr>ob_db = platform, ob_occurred = (\<lambda>_. 0), ob_attempts = (\<lambda>_. 0), ob_subscriptions = [hookH1], ob_deliveries = [],
     ob_notifications = []\<rparr>"

definition fundedDraft :: "string \<Rightarrow> Draft" where
  "fundedDraft i = (draftFor i KindTaskFunded)\<lparr>dr_recipients := [''alice'', ''bob'']\<rparr>"

definition mailbox1 :: outbox where
  "mailbox1 = the (insertDomainEvent (Draft_Event (fundedDraft ''n1'') (- seconds 20)) [''alice'', ''bob''] emptyBox)"

definition mailbox2 :: outbox where
  "mailbox2 = the (insertDomainEvent (Draft_Event (fundedDraft ''n2'') (- seconds 20)) [''alice'', ''bob''] mailbox1)"

lemma mailboxes_record:
  "insertDomainEvent (Draft_Event (fundedDraft ''n1'') (- seconds 20)) [''alice'', ''bob''] emptyBox = Some mailbox1"
  "insertDomainEvent (Draft_Event (fundedDraft ''n2'') (- seconds 20)) [''alice'', ''bob''] mailbox1 = Some mailbox2"
  by (simp_all add: mailbox2_def mailbox1_def insertDomainEvent_def insertEvent_def emptyBox_def platform_def Draft_Event_def
      eventDraft_def fundedDraft_def draftFor_def Let_def)

lemma mailbox_steps: "step\<^sup>*\<^sup>* (emptyBox, []) (mailbox1, [])" "step\<^sup>*\<^sup>* (mailbox1, []) (mailbox2, [])"
  using step.record_event [OF mailboxes_record(1)] step.record_event [OF mailboxes_record(2)] by blast+

lemma emptyBox_ok: "outbox_ok (emptyBox, [])"
  by (simp add: outbox_ok_def recorded_ok_def events_ok_def dispatched_ok_def inbox_ok_def deliveries_ok_def walk_ok_def attempts_ok_def
      emptyBox_def platform_def)

lemma mailbox_ok: "recorded_ok mailbox1" "recorded_ok mailbox2"
  using steps_ok [OF mailbox_steps(1) emptyBox_ok] steps_ok [OF rtranclp_trans [OF mailbox_steps] emptyBox_ok] by (simp_all add: outbox_ok_def)

lemma mailbox_actors: "actorsKnown mailbox1" "actorsKnown mailbox2"
  by code_simp+

definition firstPage :: Page where "firstPage = \<lparr>page_limit = 1, page_offset = 0\<rparr>"

lemma bobReads_runs:
  "case fst (ListForRecipient ''bob'' (After 0) firstPage calm 0 mailbox1) of Inl reason \<Rightarrow> False | Inr vs \<Rightarrow> map se_cursor vs = [1]"
  "case fst (ListForRecipient ''bob'' (After 1) firstPage calm 0 mailbox2) of Inl reason \<Rightarrow> False | Inr vs \<Rightarrow> map se_cursor vs = [2]"
  by code_simp+

lemma dispatch_runs: "map nt_recipient (ob_notifications (snd (Recorder_Dispatch [fundedDraft ''n1''] calm 0 mailbox1))) = [''bob'']"
    "map deliveryKey (ob_deliveries (snd (Recorder_Dispatch [fundedDraft ''n1''] calm 0 mailbox1))) = [(''h1'', 1)]"
  by code_simp+

lemma formatInt_inject: "formatInt (int m) = formatInt (int n) \<Longrightarrow> m = n"
  unfolding formatInt_def by (metis nat_digits_ok nat_int of_nat_less_0_iff)

lemma calm_fresh: "\<lbrakk>ob_notifications s = []; ob_deliveries s = []\<rbrakk> \<Longrightarrow> freshFrom calm n s"
  by (auto simp: freshFrom_def calm_def inj_on_def dest: formatInt_inject)

lemma mailbox_empty: "ob_notifications mailbox2 = []" "ob_deliveries mailbox2 = []"
  by code_simp+

lemma mailbox_stale: "length (filter (stale (clock calm 0 - eventDispatchGracePeriod) mailbox2) (events mailbox2)) = 2"
  by code_simp

end
