(* ===== verification/Spec2Isabelle.thy ===== *)
theory Spec2Isabelle
  imports Scenario
begin

text \<open>
  Sharecrop is a marketplace in which users and organizations publish tasks with rewards
  in credits or collectibles, workers (people or agents with credentials) reserve tasks
  and submit responses, and reviewers accept, send back or reject them.  The Go services
  under \<open>src/internal\<close> keep their state in SQL tables; a request runs one or a few
  transactions, and every change records an event for its audience.

  \<^bold>\<open>How the program is modelled.\<close>  The tables are a record of row lists (\<open>Database\<close>), with the
  unique and check constraints of the migrations built into the statements, and the foreign
  keys of submissions, attachments and their side tables with them.  A store
  method is a state-passing function in a transaction monad (\<open>Prelude\<close>): each SQL statement
  asks a fault oracle at a call counter, so that every \<open>err != nil\<close> branch is a branch of the
  model; a return before the commit rolls the tables back.  UUID generation and parsing,
  the clock, random bytes, SHA-256, the text form of a \<open>jsonb\<close> column and the replies of the
  network are parameters.  Errors are values of the source's own
  result types.  Row locks make transactions on the same rows serial, so a transaction is
  one step; methods that run several transactions are modelled as the sequence of them.

  \<^bold>\<open>Theories, bottom up.\<close>
  \<^item> \<open>Prelude\<close>: environment, transaction monad, weakest-precondition and evaluation rules,
    tables as row lists, \<open>int64\<close>, decimal printing and parsing, \<open>strings.TrimSpace\<close>.
  \<^item> \<open>Core\<close> (\<open>core\<close>): error codes, identifiers, pagination; the locale \<open>sealed_enum\<close> is the
    contract of every enumeration with \<open>String\<close> and \<open>Parse\<close>.
  \<^item> \<open>Organization\<close> (\<open>org/roles.go\<close>, \<open>orgactor\<close>, \<open>authz\<close>): roles, permissions, access; the locale
    \<open>permission_checker\<close> is what the services rely on.
  \<^item> \<open>Events\<close> (\<open>event\<close>): kinds, recipients, drafts, plans, cursors.
  \<^item> \<open>TaskValues\<close>, \<open>LedgerValues\<close> (\<open>task\<close>, \<open>ledger\<close>): the value types and state machines.
  \<^item> \<open>Database\<close>, \<open>Budget\<close> (\<open>db/work_budget_store.go\<close>): tables, statements, invariants, counters.
  \<^item> \<open>LedgerHelpers\<close>, \<open>TaskSettlement\<close>, \<open>Collectibles\<close>, \<open>LedgerStore\<close>
    (\<open>db/ledger_store_helpers.go\<close>, \<open>db/ledger_store.go\<close>, \<open>db/collectible_store.go\<close>): the ledger's and
    the collectibles' transactions.
  \<^item> \<open>TaskStore\<close> (\<open>db/task_store.go\<close>, \<open>db/task_lifecycle_sweeps.go\<close>): state changes, reservations,
    eligibility, expiry sweeps; \<open>TaskCreation\<close>: creating a task with its series, escrow and
    attachments.
  \<^item> \<open>Attachments\<close> (\<open>attachment\<close>), \<open>AuthValues\<close> (\<open>auth/values.go\<close>): base64 and data URLs, bounded
    contents; display names and verification states.
  \<^item> \<open>TxLogic\<close>: the locale \<open>tx_invariant\<close>, the contract of a table invariant with its step
    relation, under which composed transactions and methods keep the invariant.  It is
    interpreted by credit conservation (\<open>Conservation\<close>), escrow custody (\<open>Custody\<close>), verdicts
    and untouched views (\<open>Verdicts\<close>).
  \<^item> \<open>Platform\<close>: all commands as one machine and its runs; the locale \<open>store_invariant\<close> carries
    an invariant to every reachable state.
  \<^item> \<open>Effects\<close>, \<open>Outcomes\<close>: what single transactions do when they succeed.
  \<^item> \<open>Floats\<close>, \<open>Schema\<close>, \<open>SchemaParser\<close> (\<open>schema\<close>): decimal strings as \<open>strconv.ParseFloat\<close> accepts
    them; response schemas, validation, the index of sensitive fields, redaction; the
    schema parser, whose recursion the depth bound of 64 ends.  \<open>JsonText\<close>, \<open>JsonValues\<close>,
    \<open>JsonRoundtrip\<close> (\<open>schema/value.go\<close>, \<open>schema/encode.go\<close>, and what they use of \<open>encoding/json\<close>): responses
    as bytes, the token reader, reading and writing of values.
  \<^item> \<open>SubmissionValues\<close>, \<open>SubmissionStore\<close> (\<open>submission/models.go\<close>, \<open>submission/values.go\<close>,
    \<open>db/submission_store.go\<close>, \<open>db/submission_row_parse.go\<close>): states, receipts, the transaction that
    files a submission and the reads; \<open>Filing\<close>: what that transaction writes and that it is read
    back; \<open>SubmissionService\<close> (\<open>submission/service.go\<close>): permissions, submitting, receipts.
  \<^item> \<open>TaskService\<close> (\<open>task/service.go\<close>, the team reads of \<open>org/service.go\<close> and \<open>db/org_store.go\<close>): who owns,
    sees and may change a task, reserving for oneself or a team, cancelling a reservation.
  \<^item> \<open>Webhooks\<close> (\<open>webhookdispatch\<close>, \<open>db/webhook_store.go\<close>): claiming, posting and recording of
    deliveries, the retry walk and its end.
  \<^item> \<open>Outbox\<close> (\<open>db/event_store.go\<close>, \<open>event/recorder.go\<close>, \<open>notification\<close>, \<open>db/notification_store.go\<close>, the
    expansion in \<open>db/webhook_store.go\<close>, the sweep in \<open>cmd/sharecrop/lifecycle.go\<close>): recorded events,
    feeds, inbox rows, expansion into deliveries, dispatch and its recovery.  \<open>Dispatch\<close>: these
    calls, the two statements of a sweep and the claims and attempts of dispatchers interleaved
    one by one with crashes, and the invariant of every interleaving; \<open>Feeds\<close>:
    reading by cursor; \<open>Sweep\<close>: progress of the recovery sweep.
  \<^item> \<open>Scenario\<close>: a concrete platform and commands on which the properties are exercised.

  \<^bold>\<open>What is shown.\<close>  C1 to C4: over any run, with any database failures, credits are conserved
  up to grants, nobody is overdrawn, escrow is held only for tasks that can still be
  awarded (as long as acceptances pay in full or in part, as the front ends' do), verdicts are
  final, balances are not negative.  C5 to C12: the ledger
  transactions one by one, their rollbacks, effects, replays and authority.  C13 to C19: the
  task store, including a case in which the store does less than its comment promises.
  C20 and C23: access and paging.  C21, C22 and C37: the event outbox: a sweep without failures
  dispatches what is stale, feeds read by cursor are complete, and dispatch has its effects
  once under any interleaving.  C24, C25 and C28: the task service: state changes
  follow the task machine, reservations are guarded and cancelled by those who may.  C26, C27,
  C29 and C30: response schemas: validation against a declarative notion of conformity, redaction as
  non-interference, the bounds of parsed schemas, and a gap the duplicated fields open.  C31
  to C34: sensitive parts that redaction leaves in place, responses as text (round trip, bounds,
  what may trail).  C35, C36 and C38: submitting end to end, from the permission checks to the rows and
  back through the receipt, and a visibility that admits nobody.  C39 and C40: the retry walk
  of webhook deliveries ends after six recorded attempts; every attempt is recorded provided
  statements succeed and statuses are text the database accepts, and what happens when one is
  not.

  \<^bold>\<open>Not modelled.\<close>  Searches, the listings of tasks and ledger entries, creation of
  collectibles, management of organizations, teams, credentials and subscriptions, sessions,
  password hashing and OIDC, comments, moderation and privacy records, the HTTP, MCP and WASI
  front ends (decoding, routing, serialization) and the database drivers.  A foreign key that
  is not tracked is a failing statement, which the fault oracle covers.  Decoding one JSON document level into the
  schema parser's structs (reflection in \<open>encoding/json\<close>) is an argument of that parser.
  Loops run over lists already read, or a bounded number of times (the dispatcher's fifty
  batches per pass), so no fuel is needed; the recursions that are not structural (trimming,
  the JSON reader, redaction, schema parsing) have their termination proofs.
\<close>

section \<open>The platform as a whole\<close>

text \<open>C1: Whatever interleaving of store commands runs, each with its own pattern of
  database failures, the tables stay consistent, no account is overdrawn, and every
  credit of the platform is one that was issued: spendable balances and allocations add
  up to the grants.\<close>

theorem platform_accounting:
  assumes "runs d d'" "db_ok d" "totalCredits d = issued d"
  shows "db_ok d' \<and> totalCredits d' = issued d'"
  using accounting.runs_keep [OF assms(1), of 0] assms(2,3) by (simp add: accounted_def)

theorem platform_accounting_witness: "db_ok day \<and> totalCredits day = issued day"
  using platform_accounting [OF day_runs platform_ok platform_issued] .

text \<open>C2: Escrow custody holds in every reachable state: credits and collectibles are held
  only for tasks that can still be awarded and declare such a reward, a collectible is in
  the escrowed state exactly while a task holds it, and no two tasks hold the same one.  The
  commands are those that reach the store through the front ends (\<open>issuable\<close>), so that every
  acceptance pays in full or in part; an acceptance with the empty selection, which the
  service and the store would take, closes a bundle task with its credits still held.\<close>

theorem platform_custody_kept:
  assumes "runs d d'" "custody_ok d"
  shows "custody_ok d'"
  using escrow.runs_keep [OF assms] .

theorem platform_custody_kept_witness: "custody_ok day"
  using platform_custody_kept [OF day_runs platform_custody] .

text \<open>C3: A verdict on a submission is final: in every later state the submission is still
  there with its task and submitter, and unless it was awaiting review its row is
  unchanged.  This holds of a submission sent back for changes as well: it is not rejected
  later, although a comment of the migrations expects that.\<close>

theorem verdicts_final:
  assumes "runs d d'" "distinct (map sb_id (submissions d))" "s \<in> set (submissions d)"
    "sb_state s \<noteq> SubmissionStateSubmitted"
  shows "s \<in> set (submissions d')"
  using runs_verdicts [OF assms(1,2)] assms(3,4) by (auto simp: verdicts_def reviewed_def)

theorem verdicts_final_witness:
  "refusedS2 \<in> set (submissions (execute (CmdAcceptSubmission acceptS1) calm 0
     (platform\<lparr>submissions := submissions platform @ [refusedS2]\<rparr>)))"
proof -
  let ?d = "platform\<lparr>submissions := submissions platform @ [refusedS2]\<rparr>"
  have "runs ?d (execute (CmdAcceptSubmission acceptS1) calm 0 ?d)"
    by (intro runs.step runs.start platform_canonical) (simp add: acceptS1_def valid_tip_def)
  moreover have "distinct (map sb_id (submissions ?d))" by code_simp
  ultimately show ?thesis by (rule verdicts_final) (simp_all add: refusedS2_def)
qed

text \<open>C4: No balance a user or an organization reads is negative, in any reachable state.\<close>

theorem balances_nonnegative:
  assumes "runs d d'" "db_ok d" "totalCredits d = issued d"
  shows "(BalanceOf u e n d' = Inr b \<longrightarrow> 0 \<le> spendable b \<and> 0 \<le> allocated b) \<and>
     (OrganizationBalance i e n d' = Inr b \<longrightarrow> 0 \<le> spendable b \<and> 0 \<le> allocated b)"
proof -
  have "db_ok d'" using accounting.runs_keep [OF assms(1), of 0] assms(2,3) by (simp add: accounted_def)
  then show ?thesis by (auto simp: BalanceOf_def OrganizationBalance_def dest: readBalance_nonneg)
qed

theorem balances_nonnegative_witness:
  "\<exists>b. BalanceOf ''alice'' calm 0 platform = Inr b \<and> 0 \<le> spendable b \<and> 0 \<le> allocated b"
proof -
  have "BalanceOf ''alice'' calm 0 platform = Inr \<lparr>spendable = 80, allocated = 20\<rparr>" by code_simp
  with balances_nonnegative [OF runs.start platform_ok platform_issued, of "''alice''" calm 0] show ?thesis by blast
qed

section \<open>The ledger store\<close>

text \<open>C5: A ledger command that is not carried out changes nothing of the books: every
  rejection, and every database failure at any statement, rolls the transaction back.\<close>

theorem rejections_roll_back:
  assumes "db_ok d"
  shows "(\<not> funded (fst (FundTask fc e n d)) \<longrightarrow> books (snd (FundTask fc e n d)) = books d) \<and>
    (\<not> funded (fst (FundTaskFromOrganization oc e n d)) \<longrightarrow> books (snd (FundTaskFromOrganization oc e n d)) = books d) \<and>
    (valid_tip (ac_tip ac) \<and> \<not> accepted (fst (AcceptSubmission ac e n d)) \<longrightarrow> books (snd (AcceptSubmission ac e n d)) = books d) \<and>
    (\<not> changesRequested (fst (RequestChanges qc e n d)) \<longrightarrow> books (snd (RequestChanges qc e n d)) = books d) \<and>
    (valid_tip (jc_tip jc) \<and> \<not> rejected (fst (RejectSubmission jc e n d)) \<longrightarrow> books (snd (RejectSubmission jc e n d)) = books d) \<and>
    (\<not> refunded (fst (RefundTask uc e n d)) \<longrightarrow> books (snd (RefundTask uc e n d)) = books d) \<and>
    (0 < pc_amount pc \<and> \<not> sent (fst (PeerTransfer pc e n d)) \<longrightarrow> books (snd (PeerTransfer pc e n d)) = books d)"
  using FundTask_safe [OF surjective_pairing assms, of fc e n] FundTaskFromOrganization_safe [OF surjective_pairing assms, of oc e n]
    AcceptSubmission_safe [OF surjective_pairing assms, of ac e n] RequestChanges_safe [OF surjective_pairing assms, of qc e n]
    RejectSubmission_safe [OF surjective_pairing assms, of jc e n] RefundTask_safe [OF surjective_pairing assms, of uc e n]
    PeerTransfer_safe [OF surjective_pairing assms, of pc e n]
  by simp

theorem rejections_roll_back_witness:
  "books (snd (FundTask (fundT1\<lparr>fc_amount := 500\<rparr>) calm 0 platform)) = books platform"
proof -
  have "\<not> funded (fst (FundTask (fundT1\<lparr>fc_amount := 500\<rparr>) calm 0 platform))" by code_simp
  with rejections_roll_back [OF platform_ok] show ?thesis by blast
qed

text \<open>C6: Funding a task for the first time: it was a draft of the funder with no fund, the
  account could pay the declared reward, and exactly one fund row and one ledger entry
  were written.\<close>

theorem funding_effect:
  assumes "FundTask c e n d = (TaskFunded f FirstExecution ds, d')"
  shows "fundedEffect c d d'"
  using FundTask_effect [OF assms] .

theorem funding_effect_witness: "fundedEffect fundT1 platform (snd (FundTask fundT1 calm 0 platform))"
  using funding_effect [OF fst_pair [OF fundT1_runs]] .

text \<open>C7: Repeating a funding command with its idempotency key answers with the recorded
  fund, marks the answer a replay, and changes no table.\<close>

theorem funding_replays:
  assumes "FundTask c e n d = (TaskFunded f FirstExecution ds, d')" "quiet e'"
  shows "FundTask c e' m d' = (TaskFunded \<lparr>fund_task = fc_task c, fund_account = the (userAccount d (fc_funder c)),
     fund_amount = fc_amount c\<rparr> IdempotentReplay [], d')"
  using FundTask_replays [OF assms] .

theorem funding_replays_witness:
  "snd (FundTask fundT1 calm 50 (snd (FundTask fundT1 calm 0 platform))) = snd (FundTask fundT1 calm 0 platform)"
  using funding_replays [OF fst_pair [OF fundT1_runs] calm_quiet] by simp



text \<open>C9: Only who may review a task reviews it: the creator, a member of the owning
  organization whose roles grant the review permission, or the owning organization's
  credential.  This covers accepting, requesting changes and rejecting.\<close>

theorem reviews_authorized:
  "(accepted (fst (AcceptSubmission ac e n d)) \<longrightarrow> mayReview d (ac_task ac) (ac_reviewer ac)) \<and>
   (changesRequested (fst (RequestChanges qc e n d)) \<longrightarrow> mayReview d (qc_task qc) (qc_reviewer qc)) \<and>
   (rejected (fst (RejectSubmission jc e n d)) \<longrightarrow> mayReview d (jc_task jc) (jc_reviewer jc))"
  using AcceptSubmission_authorized [OF surjective_pairing] RequestChanges_authorized [OF surjective_pairing]
    RejectSubmission_authorized [OF surjective_pairing] by blast

theorem reviews_authorized_witness: "mayReview platform ''t2'' (UserReviewer ''alice'')"
  using reviews_authorized [THEN conjunct1, rule_format, OF acceptS1_runs] by (simp add: acceptS1_def)

text \<open>C10: A grant issues exactly its amount; a replayed or rejected grant issues nothing.\<close>

theorem grants_issue:
  assumes "GrantCredits c e n d = (r, d')" "db_ok d" "0 < gc_amount c"
  shows "case r of CreditsGranted i a us FirstExecution ds \<Rightarrow>
      a = gc_amount c \<and> db_ok d' \<and> totalCredits d' = totalCredits d + a \<and> issued d' = issued d + a
    | _ \<Rightarrow> books d' = books d"
  using GrantCredits_post [OF assms] by (simp add: grantPost_def split: GrantResult.splits Execution.splits)

theorem grants_issue_witness: "totalCredits (snd (GrantCredits grantBob calm 0 platform)) = 1250"
proof -
  have "fst (GrantCredits grantBob calm 0 platform) =
      CreditsGranted ''v1'' 50 [''bob''] FirstExecution [WithRecipients (draftFor ''d5'' KindCreditGranted) [''bob'']]"
    by code_simp
  then show ?thesis
    using grants_issue [OF surjective_pairing platform_ok, of grantBob calm 0] platform_credits by (simp add: grantBob_def)
qed



text \<open>C12: A refund is asked for by the owner or the active implementor of a task that is not
  yet awarded, and returns the whole allocation to the account it came from.\<close>

theorem refund_effect:
  assumes "RefundTask c e n d = (TaskRefunded f FirstExecution ds, d')"
  shows "refundedEffect c d d'"
  using RefundTask_effect [OF assms] .

theorem refund_effect_witness: "refundedEffect refundT2 platform (snd (RefundTask refundT2 calm 0 platform))"
proof -
  have "fst (RefundTask refundT2 calm 0 platform) = TaskRefunded \<lparr>fund_task = ''t2'', fund_account = ''A'', fund_amount = 20\<rparr>
      FirstExecution [WithRecipients (draftFor ''d4'' KindTaskCancelled) []]" by code_simp
  then show ?thesis by (rule refund_effect [OF fst_pair])
qed

section \<open>The task store\<close>

text \<open>C13: A task is opened only with its declared reward in escrow: the allocated credits
  are the declared amount, and a collectible is held when one is promised.\<close>

theorem opened_tasks_backed:
  assumes "ChangeTaskState t StateOpen plan e n d = (ChangeTaskStateStoreAccepted r ds, d')"
  shows "tk_state r = StateOpen \<and> r \<in> set (tasks d') \<and> rewardBacked t d'"
  using ChangeTaskState_changed [OF assms] by (simp add: changed_def)

theorem opened_tasks_backed_witness:
  "rewardBacked ''t1'' (snd (ChangeTaskState ''t1'' StateOpen NoEvent calm 0 (snd (FundTask fundT1 calm 0 platform))))"
proof -
  let ?d = "snd (FundTask fundT1 calm 0 platform)"
  have "(case fst (ChangeTaskState ''t1'' StateOpen NoEvent calm 0 ?d) of ChangeTaskStateStoreAccepted r ds \<Rightarrow> True | _ \<Rightarrow> False)"
    by code_simp
  then obtain r ds where run: "fst (ChangeTaskState ''t1'' StateOpen NoEvent calm 0 ?d) = ChangeTaskStateStoreAccepted r ds"
    by (cases "fst (ChangeTaskState ''t1'' StateOpen NoEvent calm 0 ?d)") auto
  from opened_tasks_backed [OF fst_pair [OF run]] show ?thesis by simp
qed



text \<open>C15: A completed expiry sweep leaves no overdue task open, for any time the clock had
  reached before the sweep began.\<close>

theorem expiry_sweep_complete:
  assumes "ExpireDueTasks e n d = (ExpireDueTasksCompleted ds, d')"
    "distinct (map tk_id (tasks d))" "\<forall>m. now \<le> clock e m"
  shows "\<forall>r \<in> set (tasks d'). tk_state r = StateOpen \<longrightarrow> \<not> due now r"
  using ExpireDueTasks_complete [OF assms] .

theorem expiry_sweep_complete_witness:
  "filter (\<lambda>r. tk_state r = StateOpen \<and> due 0 r) (tasks (snd (ExpireDueTasks calm 0 overdue))) = []"
proof -
  have "(case fst (ExpireDueTasks calm 0 overdue) of ExpireDueTasksCompleted ds \<Rightarrow> length ds = 1 | _ \<Rightarrow> False)"
    by code_simp
  then obtain ds where run: "fst (ExpireDueTasks calm 0 overdue) = ExpireDueTasksCompleted ds"
    by (cases "fst (ExpireDueTasks calm 0 overdue)") auto
  have "distinct (map tk_id (tasks overdue))" by code_simp
  from expiry_sweep_complete [OF fst_pair [OF run] this, of 0] show ?thesis by (simp add: calm_def filter_empty_conv)
qed

text \<open>C16: A reservation is made only on an open task that requires one, whose series does
  not block it, for an assignee who is not banned; it is active, names that assignee in the
  columns of its kind and in no others, carries its requester and its credential, and lapses
  after the task's reservation time.\<close>

theorem reservation_guards:
  assumes "CreateReservation i c e n d = (CreateReservationStoreAccepted v, d')"
  shows "reservationMade i c e d'"
  using CreateReservation_made [OF assms] .

theorem reservation_guards_witness: "reservationMade ''v4'' reserveT4 calm (snd (CreateReservation ''v4'' reserveT4 calm 0 bookable))"
proof -
  have "(case fst (CreateReservation ''v4'' reserveT4 calm 0 bookable) of CreateReservationStoreAccepted r \<Rightarrow> True | _ \<Rightarrow> False)"
    by code_simp
  then obtain r where run: "fst (CreateReservation ''v4'' reserveT4 calm 0 bookable) = CreateReservationStoreAccepted r"
    by (cases "fst (CreateReservation ''v4'' reserveT4 calm 0 bookable)") auto
  from reservation_guards [OF fst_pair [OF run]] show ?thesis .
qed


text \<open>C17: Who may submit: the check decides exactly that the task exists, its series does not
  block it, the submitter is not banned, and the task is open to everyone or the submitter
  (or a team of theirs) holds the active reservation.  A failing database never makes a
  submitter eligible.\<close>

theorem eligibility_decides:
  "(fst (CheckSubmissionEligibility t u e n d) = SubmissionEligible \<longrightarrow>
      eligible t u (snd (snd (CheckSubmissionEligibility t u e n d)))) \<and>
   (quiet e' \<longrightarrow> (fst (readN (eligibilityQueries t u) e' m d) = SubmissionEligible \<longleftrightarrow> eligible t u d))"
  by (cases "CheckSubmissionEligibility t u e n d") (auto simp: eligibility_exact dest: eligibility_sound)

theorem eligibility_decides_witness:
  "eligible ''t2'' ''bob'' platform \<and> \<not> eligible ''t4'' ''bob'' bookable"
proof -
  have "fst (readN (eligibilityQueries ''t2'' ''bob'') calm 0 platform) = SubmissionEligible"
    "fst (readN (eligibilityQueries ''t4'' ''bob'') calm 0 bookable) \<noteq> SubmissionEligible" by code_simp+
  then show ?thesis using eligibility_decides [THEN conjunct2, rule_format, OF calm_quiet] by blast
qed

text \<open>C18: An implementation's legal task states form a machine in which a closed, cancelled or
  expired task stays as it is, every other state can move, and each transition function of
  the code allows exactly one kind of step.\<close>

theorem settled_tasks_stay:
  "(settled s \<and> task_step\<^sup>*\<^sup>* s t \<longrightarrow> t = s) \<and> (\<not> settled s \<longrightarrow> (\<exists>t. task_step s t))"
  using settled_stays [of s t] by (cases s) (auto simp: settled_def task_step_iff transition_defs)

theorem settled_tasks_stay_witness: "settled StateExpired \<and> \<not> task_step\<^sup>*\<^sup>* StateExpired StateOpen"
  using settled_tasks_stay [of StateExpired StateOpen] by (simp add: settled_def)

text \<open>C19: The store itself does not hold a task to that machine: asked to open a cancelled
  task without a reward, it opens it, whatever else the tables hold, as long as no statement
  fails and the event to record is new.  The service validates the transition on an earlier
  read, outside the transaction, so a cancel that commits in between is undone.\<close>

theorem store_reopens_cancelled:
  assumes "quiet e" "filter (\<lambda>r. tk_id r = t) (tasks d) = [r]" "tk_state r = StateCancelled" "tk_reward_kind r = RewardKindNone"
    "\<And>draft. plan = Record draft \<Longrightarrow> dr_id draft \<notin> (\<lambda>x. dr_id (ev_draft x)) ` set (domain_events d)"
  shows "\<exists>ds d'. ChangeTaskState t StateOpen plan e n d = (ChangeTaskStateStoreAccepted (r\<lparr>tk_state := StateOpen\<rparr>) ds, d') \<and>
     filter (\<lambda>r. tk_id r = t) (tasks d') = [r\<lparr>tk_state := StateOpen\<rparr>]"
  using ChangeTaskState_opens [OF assms(1,2,4,5)] .

theorem store_reopens_cancelled_witness:
  "inState StateCancelled ''t3'' withdrawn \<and>
   inState StateOpen ''t3'' (snd (ChangeTaskState ''t3'' StateOpen NoEvent calm 0 withdrawn))"
proof -
  define r where "r = hd (filter (\<lambda>r. tk_id r = ''t3'') (tasks withdrawn))"
  have "inState StateCancelled ''t3'' withdrawn" by code_simp
  moreover have "length (filter (\<lambda>r. tk_id r = ''t3'') (tasks withdrawn)) = 1" by code_simp
  then have "filter (\<lambda>r. tk_id r = ''t3'') (tasks withdrawn) = [r]"
    by (cases "filter (\<lambda>r. tk_id r = ''t3'') (tasks withdrawn)") (simp_all add: r_def)
  moreover have "tk_state r = StateCancelled" "tk_reward_kind r = RewardKindNone" unfolding r_def by code_simp+
  ultimately obtain ds d' where run: "ChangeTaskState ''t3'' StateOpen NoEvent calm 0 withdrawn =
      (ChangeTaskStateStoreAccepted (r\<lparr>tk_state := StateOpen\<rparr>) ds, d')" "filter (\<lambda>r. tk_id r = ''t3'') (tasks d') = [r\<lparr>tk_state := StateOpen\<rparr>]"
    using store_reopens_cancelled [OF calm_quiet, of "''t3''" withdrawn r NoEvent 0] by auto
  then have "inState StateOpen ''t3'' d'" using filter_one [OF run(2)] unfolding inState_def by (intro bexI [of _ "r\<lparr>tk_state := StateOpen\<rparr>"]) auto
  with run(1) \<open>inState StateCancelled ''t3'' withdrawn\<close> show ?thesis by simp
qed

section \<open>Organizations\<close>

text \<open>C20: Access to an organization is granted exactly to its own credential and to users one
  of whose roles grants the permission; guests and other organizations are never let in.\<close>

theorem organization_access:
  "RequireOrganizationAccess actor i (\<lambda>i u. CheckPermission (roles i u)) p reason why = Granted \<longleftrightarrow>
     actor = OrgSubject i \<or>
     (\<exists>u. actor = UserSubject u \<and> (\<exists>r \<in> set (roles i u). roleGrantsPermission r p = PermissionGranted))"
  by (rule member_roles.access_granted_iff)

section \<open>Values on the wire\<close>

text \<open>Printing and parsing are inverse for the closed enumerations of the domain: task
  states, ledger entry kinds, event kinds, roles, reservation states and dispatch states;
  and a text that no value prints to is rejected.\<close>

theorem enum_roundtrips:
  "ParseState (TaskState_String ts) = Inr ts \<and> ParseEntryKind (EntryKind_String ek) = Inr ek \<and>
   ParseKind (Kind_String k) = Inr k \<and> ParseRole (Role_String r) = Inr r \<and>
   ParseReservationState (ReservationState_String rs) = Inr rs \<and>
   ParseDispatchState (DispatchState_String ds) = Inr ds \<and> ParseTaskType (TaskType_String tt) = Inr tt \<and>
   ((\<exists>err. ParseState raw = Inl err) \<longleftrightarrow> raw \<notin> range TaskState_String) \<and>
   ((\<exists>err. ParseKind raw = Inl err) \<longleftrightarrow> raw \<notin> range Kind_String)"
  by (simp add: ParseTaskType_String task_state.parse_rejects event_kind.parse_rejects)

text \<open>An event cursor survives its wire form: what a page hands out is what the next
  request resumes from.\<close>

theorem cursor_roundtrip:
  assumes "0 \<le> c" "int64 c"
  shows "ParseCursor (Cursor_String c) = Inr c"
  using ParseCursor_roundtrip [OF assms] .

theorem cursor_roundtrip_witness: "ParseCursor (Cursor_String 9223372036854775807) = Inr 9223372036854775807"
  by (rule cursor_roundtrip) (simp_all add: int64_def)

text \<open>C23: Paging with one probed row: the window shows the same rows as the page itself, and
  a next page is announced exactly when rows remain, beginning right after the window.\<close>

theorem probe_window:
  assumes "NewPage l off = Inr page" "int64 (page_offset page + page_limit page)"
  shows "(case ProbeListWindow (int (length (sqlPage (Probe page) rows))) page of (visible, next) \<Rightarrow>
      take (nat visible) (sqlPage (Probe page) rows) = sqlPage page rows \<and>
      (if nat (page_offset page) + nat (page_limit page) < length rows
       then next = page_offset page + page_limit page else next = 0))"
proof -
  have b: "1 \<le> page_limit page" "page_limit page \<le> 200" "0 \<le> page_offset page"
    using assms(1) by (auto simp: NewPage_def pageLimitMaximum_def split: if_splits)
  then have "int64 (page_limit page + 1)" by (simp add: int64_def)
  with b assms(2) show ?thesis
    by (auto simp: ProbeListWindow_def sqlPage_def Probe_def nat_add_distrib min_def) (rule take_all [symmetric], simp, arith)
qed

theorem probe_window_witness:
  "ProbeListWindow (int (length (sqlPage (Probe \<lparr>page_limit = 2, page_offset = 1\<rparr>) [1::int, 2, 3, 4]))) \<lparr>page_limit = 2, page_offset = 1\<rparr>
     = (2, 3)"
  using probe_window [of 2 1 "\<lparr>page_limit = 2, page_offset = 1\<rparr>" "[1::int, 2, 3, 4]"]
  by (simp add: NewPage_def pageLimitMaximum_def int64_def ProbeListWindow_def sqlPage_def Probe_def wrap64_def)

text \<open>The recipients of an event are each notified once, in order of first mention, and
  nobody is lost.\<close>

theorem recipients_once:
  "distinct (NewRecipients us) \<and> set (NewRecipients us) = set us \<and> NewRecipients (NewRecipients us) = NewRecipients us"
  by simp

text \<open>Which budget a submission charges: a signed-in user and a task credential charge
  none, nor does work on a reserved task; any other agent credential must be enabled, must
  be allowed the task's type and reward, and is charged against its daily limit.\<close>

theorem submission_budget:
  "WorkBudgetForSubmission (WorkerViaCredential cred policy) participation type reward = Inr charge \<longleftrightarrow>
     (if participation = ParticipationPolicyReservationRequired then charge = NoWorkBudgetCharge
      else \<exists>budget. policy = CredentialWorkEnabled budget \<and> charge = ChargeDailyTaskBudget cred (DailyTaskLimit budget) \<and>
        (\<forall>ts. Types budget = OnlyWorkTaskTypes ts \<longrightarrow> type \<in> set ts) \<and>
        (\<forall>m. RewardFloor budget = WorkRewardFloorAtLeast m \<longrightarrow> m \<le> creditRewardOf reward))"
  by (auto simp: WorkBudgetForSubmission_def checkWorkPolicyAgainstTask_def Let_def Allows_iff
      split: CredentialWorkPolicy.splits WorkTaskTypeCheck.splits WorkRewardFloor.splits if_splits)

theorem submission_budget_witness:
  "WorkBudgetForSubmission (WorkerViaCredential ''c'' (CredentialWorkEnabled \<lparr>DailyTaskLimit = 3,
      Concurrent = NoReservationConcurrencyCap, Types = AnyWorkTaskType, RewardFloor = WorkRewardFloorAtLeast 5\<rparr>))
     ParticipationPolicyOpen TaskTypeGeneral (CreditRewardSpec 5) = Inr (ChargeDailyTaskBudget ''c'' 3)"
  by (simp add: submission_budget)

section \<open>Responses and their schemas\<close>

text \<open>C26: Validation decides conformity: a response is accepted exactly when it conforms to its
  task's schema.\<close>

theorem response_validation: "Validate s v = ValidationAccepted \<longleftrightarrow> conforms s v"
  by (rule Validate_conforms)

text \<open>C27: Redaction hides what it acts on: two responses that differ only in the values of
  sensitive object fields and in strings marked for replacement, outside unions, are redacted
  to the same response, and redacting again changes nothing.  The sensitive parts it does not
  act on are the subject of C31.\<close>

theorem redaction_hides:
  assumes "agree s v w"
  shows "RedactSensitive s v = RedactSensitive s w \<and> RedactSensitive s (RedactSensitive s v) = RedactSensitive s v"
  using redact_noninterference [OF assms] redact_idempotent(1) by (simp add: RedactSensitive_def)

theorem redaction_hides_witness:
  "let s = ObjectSchema [ObjectField ''ssn'' FieldRequired IntegerSchema (Sensitive SensitivityPII RetentionStandard RedactionReplace)] in
   RedactSensitive s (ObjectValue [(''ssn'', IntegerValue 1)]) = RedactSensitive s (ObjectValue [(''ssn'', IntegerValue 2)])"
proof -
  let ?s = "ObjectSchema [ObjectField ''ssn'' FieldRequired IntegerSchema (Sensitive SensitivityPII RetentionStandard RedactionReplace)]"
  have "agree ?s (ObjectValue [(''ssn'', IntegerValue 1)]) (ObjectValue [(''ssn'', IntegerValue 2)])"
    by (rule agree_object) auto
  then show ?thesis using redaction_hides by (simp only: Let_def)
qed

text \<open>Redaction touches only what the index lists: a response whose objects name no field
  twice and that has no sensitive field is returned as it is.\<close>

theorem redaction_indexed:
  assumes "unambiguous v" "BuildSensitiveIndex s v = []"
  shows "RedactSensitive s v = v"
  using redact_unindexed(1) assms by (simp add: RedactSensitive_def BuildSensitiveIndex_def)

theorem redaction_indexed_witness:
  "RedactSensitive (ArraySchema (StringSchema NotSensitive)) (ArrayValue [StringValue ''a'', NullValue])
     = ArrayValue [StringValue ''a'', NullValue]"
  by (rule redaction_indexed) (simp_all add: BuildSensitiveIndex_def)

text \<open>C29: Whatever the document, a schema that is accepted nests at most 64 levels, names each
  field, and has no empty enumeration or union.\<close>

theorem parsed_schemas_bounded:
  assumes "ParseSchemaJSON unmarshal raw = Inr s"
  shows "schema_ok s \<and> schema_depth s \<le> 64"
  using parse_well_formed(1) [OF assms [unfolded ParseSchemaJSON_def]] by (simp add: maxNestingDepth_def)

theorem parsed_schemas_bounded_witness: "schema_depth (ArraySchema (EnumSchema [''yes'', ''no''])) \<le> 64"
proof -
  let ?none = "\<lparr>dtoCategory = '''', dtoRetention = '''', dtoRedaction = ''''\<rparr>"
  let ?dto = "\<lambda>kind. \<lparr>dtoKind = kind, dtoFields = [], dtoItem = ''inner'', dtoValues = [''yes'', ''no''],
     dtoValue = '''', dtoVariants = [], dtoSensitivity = ?none\<rparr>"
  let ?unmarshal = "\<lambda>raw. Some (?dto (if raw = ''inner'' then ''enum'' else ''array''))"
  have "ParseSchemaJSON ?unmarshal ''outer'' = Inr (ArraySchema (EnumSchema [''yes'', ''no'']))"
    by (simp add: ParseSchemaJSON_def parseSchemaRaw.simps parseEnumSchema_def maxNestingDepth_def)
  then show ?thesis using parsed_schemas_bounded by blast
qed

text \<open>C30: Validation depends on the first occurrence of each field name alone, at every depth
  and under every schema: further occurrences of a name, whatever their values, change
  nothing.  The column the response is stored in keeps the last occurrence, which is
  therefore not validated.\<close>

theorem duplicate_fields_unvalidated:
  assumes "sameFirst v w"
  shows "Validate s v = Validate s w \<and>
    (\<forall>object n x others. findObjectField object n \<noteq> None \<longrightarrow>
       Validate s (ObjectValue (object @ (n, x) # others)) = Validate s (ObjectValue (object @ others)))"
  using Validate_sameFirst [OF assms] Validate_sameFirst [OF sameFirst_repeated] by blast

theorem duplicate_fields_unvalidated_witness:
  "let s = ArraySchema (ObjectSchema [ObjectField ''n'' FieldRequired IntegerSchema NotSensitive]) in
   Validate s (ArrayValue [ObjectValue [(''n'', IntegerValue 1), (''n'', NullValue)]]) = ValidationAccepted \<and>
   Validate s (ArrayValue [ObjectValue [(''n'', NullValue)]]) \<noteq> ValidationAccepted"
proof -
  let ?o = "ObjectSchema [ObjectField ''n'' FieldRequired IntegerSchema NotSensitive]"
  have "sameFirst (ObjectValue ([(''n'', IntegerValue 1)] @ (''n'', NullValue) # [])) (ObjectValue ([(''n'', IntegerValue 1)] @ []))"
    by (rule sameFirst_repeated) simp
  then have "sameFirst (ArrayValue [ObjectValue [(''n'', IntegerValue 1), (''n'', NullValue)]]) (ArrayValue [ObjectValue [(''n'', IntegerValue 1)]])"
    by (intro sameFirst_array) simp
  from duplicate_fields_unvalidated [OF this, of "ArraySchema ?o"] show ?thesis
    by (simp add: Validate_def validateInteger_def Let_def)
qed

text \<open>C31: Redaction leaves two kinds of sensitive parts in place.  Wherever a response has a
  value under a string schema marked for removal, or under a union, and no field on the way is
  itself sensitive, the redacted response has that value unchanged at the same place; the
  string is nevertheless listed, at its path, in the index of sensitive fields.\<close>

theorem removable_strings_kept:
  assumes "reaches s v t w path" "t = StringSchema (Sensitive c r RedactionRemove) \<or> t = UnionSchema variants"
  shows "reaches s (RedactSensitive s v) t w path \<and>
    (t = StringSchema (Sensitive c r RedactionRemove) \<longrightarrow>
       \<lparr>sfPath = path, sfSensitivity = Sensitive c r RedactionRemove\<rparr> \<in> set (BuildSensitiveIndex s v))"
proof -
  have "redactAt t w = w" using assms(2) by auto
  with reaches_redacted [OF assms(1)] have "reaches s (RedactSensitive s v) t w path" by (simp add: RedactSensitive_def)
  with reaches_indexed [OF assms(1), where p = "[]"] show ?thesis by (simp add: BuildSensitiveIndex_def RootPath_def)
qed

theorem removable_strings_kept_witness:
  "let item = StringSchema (Sensitive SensitivitySecret RetentionStandard RedactionRemove);
       s = ObjectSchema [ObjectField ''keys'' FieldRequired (ArraySchema item) NotSensitive];
       v = ObjectValue [(''keys'', ArrayValue [StringValue ''a'', StringValue ''b''])] in
   reaches s (RedactSensitive s v) item (StringValue ''b'') [''keys''] \<and>
   \<lparr>sfPath = [''keys''], sfSensitivity = Sensitive SensitivitySecret RetentionStandard RedactionRemove\<rparr> \<in> set (BuildSensitiveIndex s v)"
proof -
  let ?item = "StringSchema (Sensitive SensitivitySecret RetentionStandard RedactionRemove)"
  have "reaches ?item (StringValue ''b'') ?item (StringValue ''b'') []" by (rule reaches_here)
  then have "reaches (ArraySchema ?item) (ArrayValue [StringValue ''a'', StringValue ''b'']) ?item (StringValue ''b'') []"
    by (rule reaches_item [rotated]) simp
  then have "reaches (ObjectSchema [ObjectField ''keys'' FieldRequired (ArraySchema ?item) NotSensitive])
      (ObjectValue [(''keys'', ArrayValue [StringValue ''a'', StringValue ''b''])]) ?item (StringValue ''b'') [''keys'']"
    by (intro reaches_field [where f = "ObjectField ''keys'' FieldRequired (ArraySchema ?item) NotSensitive"]) simp_all
  from removable_strings_kept [OF this] show ?thesis by (simp only: Let_def) simp
qed

section \<open>The JSON text of a response\<close>

text \<open>C32: A response read from any text survives being written and read again, and so does its
  redacted form: what the receipt lookup returns is a response again.\<close>

theorem response_roundtrip:
  assumes "ParseValueJSON raw = Inr v"
  shows "ParseValueJSON (EncodeValueJSON v) = Inr v \<and>
    ParseValueJSON (EncodeValueJSON (RedactSensitive s v)) = Inr (RedactSensitive s v)"
proof -
  have "fits 0 v" using ParseValueJSON_fits [OF assms] by (simp add: fits_def)
  then show ?thesis
    using redact_fits(1) [of 0 v s] ParseValueJSON_Encode by (simp add: fits_def RedactSensitive_def)
qed

theorem response_roundtrip_witness:
  "ParseValueJSON (EncodeValueJSON (ArrayValue [IntegerValue (-12), StringValue ''a'']))
     = Inr (ArrayValue [IntegerValue (-12), StringValue ''a''])"
proof -
  have "ParseValueJSON (''[ -12 , '' @ [quote] @ ''a'' @ [quote] @ '']'') = Inr (ArrayValue [IntegerValue (-12), StringValue ''a''])"
    by code_simp
  from response_roundtrip [OF this] show ?thesis by blast
qed

text \<open>C33: Whatever the text, a response that is read nests at most 64 levels, its arrays have at
  most 4096 items and its objects at most 1024 fields, each with a trimmed, non-empty name,
  and all its texts are valid UTF-8; the reader always answers.\<close>

theorem response_bounds:
  assumes "ParseValueJSON raw = Inr v"
  shows "portable v \<and> value_depth v \<le> 64"
  using ParseValueJSON_fits [OF assms] by (simp add: maxNestingDepth_def)

theorem response_bounds_witness: "value_depth (ObjectValue [(''k'', ArrayValue [NullValue])]) \<le> 64"
proof -
  have "ParseValueJSON (''{'' @ [quote] @ '' k'' @ [quote] @ '':[null]}'') = Inr (ObjectValue [(''k'', ArrayValue [NullValue])])"
    by code_simp
  from response_bounds [OF this] show ?thesis by blast
qed

text \<open>C34: The check for trailing text misses closing brackets: the text of any response that was
  read, followed by blanks, a closing bracket or brace and anything at all, is accepted as that
  response.  Other text behind a blank is refused.\<close>

theorem trailing_brackets_ignored:
  assumes "ParseValueJSON raw = Inr v" "list_all isSpace blank"
  shows "(c \<in> {CHR '']'', CHR ''}''} \<longrightarrow> ParseValueJSON (EncodeValueJSON v @ blank @ c # text) = Inr v) \<and>
    (blank \<noteq> [] \<and> \<not> isSpace c \<and> c \<notin> {CHR '']'', CHR ''}''} \<longrightarrow>
       ParseValueJSON (EncodeValueJSON v @ blank @ c # text) = Inl (badResponse ''response JSON has trailing values''))"
proof -
  note follow = ParseValueJSON_followed [OF conjunct1 [OF ParseValueJSON_fits [OF assms(1)]] conjunct2 [OF ParseValueJSON_fits [OF assms(1)]]]
  have skip: "dropWhile isSpace (blank @ c # text) = c # text" if "\<not> isSpace c"
    using assms(2) that by (induction blank) simp_all
  have brackets: "\<not> isSpace c" if "c \<in> {CHR '']'', CHR ''}''}" using that by (auto simp: isSpace_def)
  have "stops (blank @ c # text)" if "blank \<noteq> [] \<or> c \<in> {CHR '']'', CHR ''}''}"
    using assms(2) that by (cases blank) (auto simp: stops_def isSpace_def is_digit_def)
  with follow [of "blank @ c # text"] skip brackets show ?thesis by (auto simp: More_def)
qed

theorem trailing_brackets_ignored_witness:
  "ParseValueJSON (''1 } of no'') = Inr (IntegerValue 1) \<and> ParseValueJSON ''1 2'' = Inl (badResponse ''response JSON has trailing values'')"
proof -
  have one: "ParseValueJSON ''1'' = Inr (IntegerValue 1)" "EncodeValueJSON (IntegerValue 1) = ''1''" by code_simp+
  have "list_all isSpace '' ''" "\<not> isSpace (CHR ''2'')" by (simp_all add: isSpace_def)
  with trailing_brackets_ignored [OF one(1), of "'' ''" "CHR ''}''" "'' of no''"] trailing_brackets_ignored [OF one(1), of "'' ''" "CHR ''2''" "[]"]
  show ?thesis by (simp add: one(2))
qed

section \<open>Submitting\<close>

text \<open>C35: A submission is created only for a task that exists and is open, that the submitter
  may see and is eligible for, with a response that parses under the task's schema, and within
  the worker's budget rules: where they ask for a charge, one task is charged to the
  credential's counter of the day, which stays within its limit, and to no other counter.  What is
  recorded is the submitter's response, in the row in its \<open>jsonb\<close> text, awaiting review exactly
  when it conforms to the schema and invalid otherwise, with its attachments, the validation
  errors and the sensitive fields; the submitter's active reservation is marked submitted
  exactly in the first case.\<close>

theorem submission_admitted:
  assumes "Submit unmarshal origin c e n d = (SubmissionCreated v tok, n', d')"
  shows "\<exists>r s w d1 budget. admitted unmarshal origin c d d1 r s w budget \<and> recorded e c s w v d1 d' \<and> charged e budget d1 d'"
  using Submit_recorded [OF assms] .

theorem submission_admitted_witness:
  "\<exists>v tok r s w d1 budget. answered = (SubmissionCreated v tok, snd answered) \<and>
     admitted readSchema WorkerIsUser answerT2 platform d1 r s w budget \<and> recorded calm answerT2 s w v d1 (snd (snd answered)) \<and>
     charged calm budget d1 (snd (snd answered))"
proof -
  obtain v tok where run: "fst answered = SubmissionCreated v tok"
    using answered_runs by (cases "fst answered") auto
  then have pair: "answered = (SubmissionCreated v tok, snd answered)" by (simp add: prod_eq_iff)
  then have "answered = (SubmissionCreated v tok, fst (snd answered), snd (snd answered))" by simp
  from submission_admitted [OF this] pair show ?thesis by blast
qed

text \<open>C36: The receipt handed to the submitter finds the submission again: the token has the
  form the receipt endpoint accepts, and looking it up returns the created submission with the
  sensitive parts of its stored response redacted.  The database's jsonb text form is any
  text the column returns for the response.\<close>

theorem receipt_roundtrip:
  assumes "Submit unmarshal origin c e n d = (SubmissionCreated v tok, n', d')"
    and "attached_ok d" "ids_ok d" "quiet e" "\<forall>a \<in> set (sc_attachments c). valid_attachment a"
    and "jsonb_text e (sc_response c) = Some response" "NewResponseSource response = Inr response"
      "ParseValueJSON response = Inr stored"
  shows "\<exists>r s. filter (\<lambda>r. tk_id r = sc_task c) (tasks d) = [r] \<and> ParseSchemaJSON unmarshal (tk_response_schema r) = Inr s \<and>
     ParseReceiptTokenPlain tok = Inr tok \<and>
     fst (FindByReceipt unmarshal tok e k d') = Inr (v\<lparr>sm_response := EncodeValueJSON (RedactSensitive s stored)\<rparr>)"
  using submit_receipt [OF assms] .

theorem receipt_roundtrip_witness:
  "\<exists>v tok. fst answered = SubmissionCreated v tok \<and> ParseReceiptTokenPlain tok = Inr tok \<and>
     (\<exists>x. fst (FindByReceipt readSchema tok calm 0 (snd (snd answered))) = Inr x \<and> sm_id x = sm_id v)"
proof -
  obtain v tok where run: "fst answered = SubmissionCreated v tok"
    using answered_runs by (cases "fst answered") auto
  then have "answered = (SubmissionCreated v tok, fst (snd answered), snd (snd answered))" by (simp add: prod_eq_iff)
  moreover have "\<forall>a \<in> set (sc_attachments answerT2). valid_attachment a" "jsonb_text calm (sc_response answerT2) = Some ''7''"
    by (simp_all add: answerT2_def calm_def)
  moreover have "NewResponseSource ''7'' = Inr ''7''" "ParseValueJSON ''7'' = Inr (IntegerValue 7)" by code_simp+
  ultimately have "\<exists>r s. ParseReceiptTokenPlain tok = Inr tok \<and>
      fst (FindByReceipt readSchema tok calm 0 (snd (snd answered))) = Inr (v\<lparr>sm_response := EncodeValueJSON (RedactSensitive s (IntegerValue 7))\<rparr>)"
    using receipt_roundtrip [OF _ platform_attached platform_ids(1) calm_quiet] by blast
  with run show ?thesis by auto
qed

text \<open>What a receipt shows does not depend on the parts of the response that redaction acts on:
  two submissions to a task that differ only there read the same, in every environment.\<close>

theorem receipt_hides:
  assumes "filter (\<lambda>r. tk_id r = sm_task x) (tasks d) = [r]" "ParseSchemaJSON unmarshal (tk_response_schema r) = Inr s"
    "ParseValueJSON (sm_response x) = Inr v" "ParseValueJSON response = Inr v'" "agree s v v'"
  shows "redactedSubmission unmarshal x e n d = redactedSubmission unmarshal (x\<lparr>sm_response := response\<rparr>) e n d"
  using redacted_hides [OF assms] .

theorem receipt_hides_witness:
  "redactedSubmission readPerson personS1 calm 0 platform =
     redactedSubmission readPerson (personS1\<lparr>sm_response := ''{\"ssn\":2}''\<rparr>) calm 0 platform"
proof -
  let ?r = "taskRow ''t2'' StateOpen RewardKindBundle (Some 20)"
  have "filter (\<lambda>r. tk_id r = sm_task personS1) (tasks platform) = [?r]"
    by (simp add: platform_def personS1_def taskRow_def)
  moreover have "ParseSchemaJSON readPerson (tk_response_schema ?r) = Inr personSchema" by (simp add: taskRow_def person_parses)
  moreover have "ParseValueJSON (sm_response personS1) = Inr (ObjectValue [(''ssn'', IntegerValue 1)])"
    by (simp add: personS1_def person_values)
  moreover have "agree personSchema (ObjectValue [(''ssn'', IntegerValue 1)]) (ObjectValue [(''ssn'', IntegerValue 2)])"
    unfolding personSchema_def by (rule agree_object) auto
  ultimately show ?thesis using receipt_hides [OF _ _ _ person_values(2)] by blast
qed

text \<open>C38: A task shown to a team accepts no submission from the team: whoever did not create
  it is turned away, team member or not, although the task is open and its reward in order.\<close>

theorem team_tasks_closed:
  assumes "quiet e" "filter (\<lambda>r. tk_id r = sc_task c) (tasks d) = [r]" "tk_visibility r = TeamVisibility team"
    "tk_state r = StateOpen" "rewardOf d r = Inr reward" "tk_created_by r \<noteq> sc_submitter c"
  shows "fst (Submit unmarshal origin c e n d) = SubmitRejected viewDenied \<and> snd (snd (Submit unmarshal origin c e n d)) = d"
proof -
  obtain n1 where "FindTask (sc_task c) e n d = (FindTaskStoreAccepted r, n1)"
    using fst_pair [OF FindTask_quiet [OF assms(1,2)]] by blast
  then show ?thesis using team_visibility_denies [OF assms(3,6)] assms(4,5) by (simp add: Submit_def)
qed

theorem team_tasks_closed_witness:
  "(''team'', ''bob'') \<in> set (team_members teamPlatform) \<and>
   fst (Submit readSchema WorkerIsUser answerT2 calm 0 teamPlatform) = SubmitRejected viewDenied"
proof -
  let ?r = "(taskRow ''t2'' StateOpen RewardKindBundle (Some 20))\<lparr>tk_visibility := TeamVisibility ''team''\<rparr>"
  have "filter (\<lambda>r. tk_id r = sc_task answerT2) (tasks teamPlatform) = [?r]"
    by (simp add: teamPlatform_def platform_def answerT2_def taskRow_def)
  moreover have "\<exists>reward. rewardOf teamPlatform ?r = Inr reward"
  proof -
    have "(case rewardOf teamPlatform ?r of Inl _ \<Rightarrow> False | Inr _ \<Rightarrow> True)" by code_simp
    then show ?thesis by (auto split: sum.splits)
  qed
  ultimately show ?thesis
    using team_tasks_closed [OF calm_quiet, of answerT2 teamPlatform ?r "''team''"]
    by (auto simp: taskRow_def answerT2_def teamPlatform_def)
qed

section \<open>Webhook deliveries\<close>

text \<open>C39: Each delivery comes to an end.  Over any number of passes of the dispatcher, with any
  replies and any failures, the attempts of a delivery that are recorded in its row use up the
  attempts it had left, at most six: there are at most six, and fewer than six as long as it is
  pending.  When no statement fails and the statuses are text the database accepts, every
  attempt is recorded, so at most six requests are made.  A completed pass reports the number
  of its attempts.\<close>

theorem deliveries_end:
  assumes "walk_ok rows" "exactIDs e" "passes dps e n rows = (posted, n', rows')"
  shows "count_list posted (i, True) + remainingOf i rows' \<le> remainingOf i rows \<and> remainingOf i rows \<le> 6 \<and>
    ((\<exists>r \<in> set rows'. wd_id r = i \<and> wd_state r = DeliveryStatePending) \<longrightarrow> count_list posted (i, True) < 6) \<and>
    (fault e = (\<lambda>_. False) \<and> list_all clean dps \<longrightarrow> length (filter (\<lambda>p. fst p = i) posted) \<le> 6) \<and>
    (\<forall>dp m t a k m' t'. RunOnce dp e m t = (RunCompleted a k, m', t') \<longrightarrow> a = length (runPosts maxClaimBatchesPerRun dp e m t))"
proof -
  have step: "walk_ok rows'" "count_list posted (i, True) + remainingOf i rows' \<le> remainingOf i rows"
    "fault e = (\<lambda>_. False) \<and> list_all clean dps \<longrightarrow> (\<forall>p \<in> set posted. snd p)"
    using passes_step [OF assms(2,1,3)] by blast+
  have six: "remainingOf i rows \<le> 6" using remainingOf_bound(1) [OF assms(1), of i] by (simp add: MaxAttempts_def)
  have "0 < remainingOf i rows'" if "r \<in> set rows'" "wd_id r = i" "wd_state r = DeliveryStatePending" for r
    using remainingOf_bound(2) [OF step(1) that] .
  moreover have "length (filter (\<lambda>p. fst p = i) posted) \<le> 6" if "fault e = (\<lambda>_. False)" "list_all clean dps"
    using step(2,3) six that logged_attempts [of posted i] by simp
  moreover have "RunOnce dp e m t = (RunCompleted a k, m', t') \<longrightarrow> a = length (runPosts maxClaimBatchesPerRun dp e m t)" for dp m t a k m' t'
    using runPosts_length by (fastforce simp: RunOnce_def)
  ultimately show ?thesis using step(2) six by fastforce
qed

theorem deliveries_end_witness:
  "length (filter (\<lambda>p. fst p = ''w1'') (fst (passes [failing, failing] calm 0 [deliveryD1]))) \<le> 6"
proof -
  have "utf8 (formatInt 500)" "utf8 ''blocked: url is not https''" by code_simp+
  then have "list_all clean [failing, failing]" by (simp add: clean_def failing_def postDelivery_def)
  moreover have "walk_ok [deliveryD1]" by code_simp
  moreover have "fault calm = (\<lambda>_. False)" using calm_quiet by (simp add: quiet_def)
  moreover obtain posted n' rows' where "passes [failing, failing] calm 0 [deliveryD1] = (posted, n', rows')" by (metis prod_cases3)
  ultimately show ?thesis using deliveries_end [of "[deliveryD1]" calm "[failing, failing]" 0 posted n' rows' "''w1''"] calm_exact by simp
qed

text \<open>C40: The cut of a long status may fall inside a character.  A transport error whose text
  is valid but whose first 120 bytes are not leaves the delivery as it was: the attempt is not
  counted, so the delivery is retried when its claim lapses and never becomes dead.\<close>

theorem cut_status_uncounted:
  assumes "take 8 (cw_url x) = ''https://''" "dp_network dp n x = NoResponse (OtherError message)"
    "length message > lastStatusLimit" "\<not> utf8 (take lastStatusLimit message)" "\<not> hasSubstring ''webhook dial blocked'' message"
  shows "attemptDelivery dp x e n rows = (False, Suc (Suc n), rows)"
proof -
  have post: "postDelivery dp n x = (take lastStatusLimit message, False)" using assms by (simp add: postDelivery_def boundedStatus_def)
  then show ?thesis using attempt_refused [of dp n x e rows] assms(4) by simp
qed

theorem cut_status_uncounted_witness:
  "let message = replicate 119 (CHR ''x'') @ [CHR 0xC3, CHR 0xA9] in utf8 message \<and>
     attemptDelivery (failing\<lparr>dp_network := \<lambda>_ _. NoResponse (OtherError message)\<rparr>)
       \<lparr>cw_id = ''w1'', cw_subscription = ''h1'', cw_url = ''https://example.org/hook'', cw_attempts = 5, cw_actor = ''Alice''\<rparr>
       calm 0 [deliveryD1\<lparr>wd_attempts := 5\<rparr>] = (False, 2, [deliveryD1\<lparr>wd_attempts := 5\<rparr>])"
proof -
  let ?message = "replicate 119 (CHR ''x'') @ [CHR 0xC3, CHR 0xA9]"
  have "utf8 ?message" "\<not> utf8 (take lastStatusLimit ?message)" "\<not> hasSubstring ''webhook dial blocked'' ?message"
    "length ?message > lastStatusLimit" by code_simp+
  then show ?thesis using cut_status_uncounted [of _ "failing\<lparr>dp_network := \<lambda>_ _. NoResponse (OtherError ?message)\<rparr>" 0 ?message]
    by (simp add: Let_def del: replicate.simps)
qed

section \<open>The task service\<close>

text \<open>C24: Opening, cancelling and unpublishing through the service follow the task machine: the
  one who asks owns the task or acts for the organization that does, the step from the state
  that was read is one of the machine, and the stored task is in the new state with what that
  state requires (a backed reward when open, released reservations when cancelled).\<close>

theorem task_changes_follow:
  assumes "op \<in> {Open, Cancel, Unpublish}" "op actor t e n d = (TaskStateChanged r, d')"
  shows "\<exists>r0 owner. filter (\<lambda>r. tk_id r = t) (tasks d) = [r0] \<and> ownerOf r0 = Some owner \<and> mayOwn d actor owner \<and>
     task_step (tk_state r0) (tk_state r) \<and> r \<in> set (tasks d') \<and> tk_id r = t \<and> changed (tk_state r) t d'"
  using service_step [OF assms] .

theorem task_changes_follow_witness:
  "\<exists>r. r \<in> set (tasks (snd (Cancel (UserSubject ''alice'') ''t2'' calm 0 platform))) \<and> tk_id r = ''t2'' \<and> task_step StateOpen (tk_state r)"
proof -
  obtain r where run: "fst (Cancel (UserSubject ''alice'') ''t2'' calm 0 platform) = TaskStateChanged r"
    using cancelT2_runs by (cases "fst (Cancel (UserSubject ''alice'') ''t2'' calm 0 platform)") auto
  have "filter (\<lambda>r. tk_id r = ''t2'') (tasks platform) = [taskRow ''t2'' StateOpen RewardKindBundle (Some 20)]"
    by (simp add: platform_def taskRow_def)
  with task_changes_follow [of Cancel, OF _ fst_pair [OF run]] show ?thesis by (auto simp: taskRow_def)
qed

text \<open>C25: A reservation through the service is made only on an open task that accepts such
  assignees, by a user who may see it, did not create it and speaks for the assignee (is the
  assignee or a member of the team), and never through a task-scoped credential or one whose
  work policy does not allow the task; what is stored is that user's active reservation.\<close>

theorem reservations_guarded:
  assumes "reserveFor issuer u origin t assignee e n d = (ReservationCreated v secret, d')" "exactIDs e" "list_all team_ok (teams d)"
    "case assignee of UserAssignee w \<Rightarrow> w = u | _ \<Rightarrow> True"
  shows "reservable d u origin t assignee \<and>
     (\<exists>i c. rc_task c = t \<and> rc_assignee c = assignee \<and> rc_requested_by c = u \<and> reservationMade i c e d')"
  using reserveFor_created [OF assms] .

theorem reservations_guarded_witness: "reservable bookable ''bob'' WorkerIsUser ''t4'' (UserAssignee ''bob'')"
proof -
  let ?run = "reserveFor noIssuer ''bob'' WorkerIsUser ''t4'' (UserAssignee ''bob'') calm 0 bookable"
  obtain v secret where run: "fst ?run = ReservationCreated v secret"
    using bobReserves_runs by (cases "fst ?run") auto
  have "list_all team_ok (teams bookable)" by code_simp
  from reservations_guarded [OF fst_pair [OF run] calm_exact this] show ?thesis by simp
qed

text \<open>C28: A reservation is cancelled through the service only by its holder, who is recorded as
  such, or by someone with the owner's permission, and nothing of it but the state changes.\<close>

theorem reservation_cancelled:
  assumes "CancelReservation actor t i e n d = (ReservationStateChanged v, d')" "distinct (map rv_id (task_reservations d))"
  shows "\<exists>r owner w. filter (\<lambda>r. tk_id r = t) (tasks d) = [r] \<and> ownerOf r = Some owner \<and>
     w \<in> set (task_reservations d) \<and> rv_id w = i \<and> rv_task w = t \<and> v = w\<lparr>rv_state := rv_state v\<rparr> \<and>
     v \<in> set (task_reservations d') \<and> releasedBy actor w owner d (rv_state v)"
  using CancelReservation_released [OF assms] .

theorem reservation_cancelled_witness:
  "\<exists>v \<in> set (task_reservations (snd (CancelReservation (UserSubject ''bob'') ''t4'' ''v4'' calm 0 booked))). \<exists>w owner.
     rv_id w = ''v4'' \<and> releasedBy (UserSubject ''bob'') w owner booked (rv_state v)"
proof -
  let ?run = "CancelReservation (UserSubject ''bob'') ''t4'' ''v4'' calm 0 booked"
  obtain v where run: "fst ?run = ReservationStateChanged v" using bobReleases_runs by (cases "fst ?run") auto
  from reservation_cancelled [OF fst_pair [OF run] booked_ids] show ?thesis by blast
qed

section \<open>The outbox\<close>

text \<open>C21: A recovery sweep makes progress: when the database answers, new identifiers are
  new, and no more events are stale than a batch holds (200), one sweep leaves no stale event
  recorded, and every stale event with attempts left is dispatched, its recipients notified.
  A longer backlog is left to the next sweeps.\<close>

theorem sweep_complete:
  assumes "quiet e" "freshFrom e n s" "outbox_ok (s, ws)" "sweepRecordedEvents e n s = (res, n', s')"
    "length (filter (stale (clock e n - eventDispatchGracePeriod) s) (events s)) \<le> eventDispatchSweepBatch"
  shows "res = Inr () \<and> (\<forall>r \<in> set (events s'). \<not> stale (clock e n - eventDispatchGracePeriod) s' r) \<and>
    (\<forall>r \<in> set (events s). stale (clock e n - eventDispatchGracePeriod) s r \<and> ob_attempts s (ev_seq r) < MaxEventDispatchAttempts \<longrightarrow>
       (\<exists>r' \<in> set (events s'). ev_draft r' = ev_draft r \<and> ev_state r' = DispatchStateDispatched \<and> fannedOut s' (ev_draft r)))"
proof -
  have ok: "recorded_ok s" using assms(3) by (simp add: outbox_ok_def)
  have exact: "exactIDs e" using assms(1) by (simp add: quiet_def exactIDs_def)
  have "dispatched_ok s'" using steps_ok [OF sweep_interleaves [OF assms(4) exact ok] assms(3)] by (simp add: outbox_ok_def)
  with sweep_live [OF assms(1,2) ok assms(4,5)] show ?thesis unfolding dispatched_ok_def settledAs_def by metis
qed

theorem sweep_complete_witness:
  "\<exists>s'. snd (snd (sweepRecordedEvents calm 0 mailbox2)) = s' \<and> (\<forall>r \<in> set (events s'). \<not> stale (clock calm 0 - eventDispatchGracePeriod) s' r)"
proof -
  obtain res n' s' where run: "sweepRecordedEvents calm 0 mailbox2 = (res, n', s')" by (metis prod_cases3)
  have "outbox_ok (mailbox2, [])" using steps_ok [OF rtranclp_trans [OF mailbox_steps] emptyBox_ok] .
  from sweep_complete [OF calm_quiet calm_fresh [OF mailbox_empty] this run] show ?thesis
    by (simp add: run mailbox_stale eventDispatchSweepBatch_def)
qed

text \<open>C22: Reading a feed by cursor misses nothing and repeats nothing: a page, and the next page
  read from its last cursor, whatever happened in between, are together what one longer read
  of the later state shows: the events addressed to the reader in the order they were
  recorded.\<close>

theorem feed_complete:
  assumes "outbox_ok (s, ws)" "step\<^sup>*\<^sup>* (s, ws) (s', ws')" "actorsKnown s" "actorsKnown s'" "exactIDs e" "exactIDs e'"
    "ListForRecipient u (After c) \<lparr>page_limit = l, page_offset = 0\<rparr> e n s = (Inr shown, m)"
    "ListForRecipient u (After (resumeAfter c shown)) \<lparr>page_limit = l', page_offset = 0\<rparr> e' n' s' = (Inr followed, m')"
  shows "map WithoutEnrichment (shown @ followed) = take (length shown + nat l') (feedOf u c s')"
proof -
  have ok: "recorded_ok s" "recorded_ok s'" using assms(1) steps_ok [OF assms(2,1)] by (simp_all add: outbox_ok_def)
  have shown: "map WithoutEnrichment shown = take (nat l) (feedOf u c s)"
    using feed_listed [OF assms(7,5) ok(1) assms(3)] by (simp add: sqlPage_def)
  have followed: "map WithoutEnrichment followed = take (nat l') (feedOf u (resumeAfter c shown) s')"
    using feed_listed [OF assms(8,6) ok(2) assms(4)] by (simp add: sqlPage_def)
  have "later s s'" using steps_later [OF assms(2)] by simp
  from resume_feed [OF this ok shown] followed show ?thesis by simp
qed

theorem feed_complete_witness:
  "\<exists>shown followed. fst (ListForRecipient ''bob'' (After 0) firstPage calm 0 mailbox1) = Inr shown \<and>
     fst (ListForRecipient ''bob'' (After 1) firstPage calm 0 mailbox2) = Inr followed \<and>
     map WithoutEnrichment (shown @ followed) = take 2 (feedOf ''bob'' 0 mailbox2)"
proof -
  obtain shown m where shown: "ListForRecipient ''bob'' (After 0) firstPage calm 0 mailbox1 = (Inr shown, m)" "map se_cursor shown = [1]"
    using bobReads_runs(1) by (cases "ListForRecipient ''bob'' (After 0) firstPage calm 0 mailbox1") (auto split: sum.splits)
  obtain followed m' where followed: "ListForRecipient ''bob'' (After 1) firstPage calm 0 mailbox2 = (Inr followed, m')"
    using bobReads_runs(2) by (cases "ListForRecipient ''bob'' (After 1) firstPage calm 0 mailbox2") (auto split: sum.splits)
  have len: "length shown = 1" and resume: "resumeAfter 0 shown = 1" using shown(2) by (auto simp: resumeAfter_def)
  have "outbox_ok (mailbox1, [])" using steps_ok [OF mailbox_steps(1) emptyBox_ok] .
  from feed_complete [OF this mailbox_steps(2) mailbox_actors calm_exact calm_exact shown(1) [unfolded firstPage_def]] followed
  have "map WithoutEnrichment (shown @ followed) = take 2 (feedOf ''bob'' 0 mailbox2)"
    by (simp add: resume len firstPage_def numeral_2_eq_2)
  with shown(1) followed show ?thesis by auto
qed

text \<open>C37: Dispatch is exactly once in its effects, under any interleaving of transactions,
  recorders, sweeps, webhook dispatchers, crashes and failures, statement by statement, from an
  empty outbox on: no recipient has two inbox rows of one event and no subscription two
  deliveries of it; inbox rows go to recipients of recorded events and never to the actor;
  deliveries exist only for dispatched events, which have all their inbox rows; an event is
  given up only after the attempts allowed.  A sweep that runs undisturbed counts no attempt
  past the limit (sweeps that overlap may).  The code of the recorder, the sweep and the
  dispatcher is among those interleavings.\<close>

theorem dispatch_once:
  assumes "step\<^sup>*\<^sup>* (s, []) (s', ws)" "events s = []" "ob_notifications s = []" "ob_deliveries s = []"
  shows "(distinct (map inboxKey (ob_notifications s')) \<and> (\<forall>x \<in> set (ob_notifications s'). \<exists>d. sourceOf s' x d)) \<and>
    (distinct (map deliveryKey (ob_deliveries s')) \<and> walk_ok (map ed_row (ob_deliveries s')) \<and>
     (\<forall>x \<in> set (ob_deliveries s'). \<exists>r \<in> set (events s'). ev_seq r = ed_event x \<and> ev_state r = DispatchStateDispatched)) \<and>
    (\<forall>r \<in> set (events s'). (ev_state r = DispatchStateDispatched \<longrightarrow> fannedOut s' (ev_draft r)) \<and>
       (ev_state r = DispatchStateFailed \<longrightarrow> MaxEventDispatchAttempts \<le> ob_attempts s' (ev_seq r))) \<and>
    (\<forall>cutoff limit e n res n' t q. ListRecordedBefore cutoff limit e n s' = (res, n', t) \<and> ob_attempts t q \<noteq> ob_attempts s' q \<longrightarrow>
       ob_attempts t q \<le> MaxEventDispatchAttempts) \<and>
    (\<forall>drafts e n n' t. Recorder_Dispatch drafts e n s' = (n', t) \<and> set drafts \<subseteq> ev_draft ` set (events s') \<longrightarrow> step\<^sup>*\<^sup>* (s', ws) (t, ws)) \<and>
    (\<forall>e n res n' t. sweepRecordedEvents e n s' = (res, n', t) \<and> exactIDs e \<longrightarrow> step\<^sup>*\<^sup>* (s', ws) (t, ws)) \<and>
    (\<forall>dp e n res n' rows. RunOnce dp e n (map ed_row (ob_deliveries s')) = (res, n', rows) \<and> exactIDs e \<longrightarrow>
       step\<^sup>*\<^sup>* (s', ws) (withRows rows s', ws))"
proof -
  have "outbox_ok (s, [])"
    using assms(2-4) by (simp add: outbox_ok_def recorded_ok_def events_ok_def dispatched_ok_def inbox_ok_def deliveries_ok_def
        walk_ok_def attempts_ok_def)
  from steps_ok [OF assms(1) this]
  have ok: "inbox_ok s'" "deliveries_ok s'" "dispatched_ok s'" "attempts_ok s'" "recorded_ok s'" by (simp_all add: outbox_ok_def)
  from ok(3,4) have rows: "\<forall>r \<in> set (events s'). (ev_state r = DispatchStateDispatched \<longrightarrow> fannedOut s' (ev_draft r)) \<and>
       (ev_state r = DispatchStateFailed \<longrightarrow> MaxEventDispatchAttempts \<le> ob_attempts s' (ev_seq r))"
    by (auto simp: dispatched_ok_def attempts_ok_def)
  have interleaved: "\<forall>drafts e n n' t. Recorder_Dispatch drafts e n s' = (n', t) \<and> set drafts \<subseteq> ev_draft ` set (events s') \<longrightarrow> step\<^sup>*\<^sup>* (s', ws) (t, ws)"
    "\<forall>e n res n' t. sweepRecordedEvents e n s' = (res, n', t) \<and> exactIDs e \<longrightarrow> step\<^sup>*\<^sup>* (s', ws) (t, ws)"
    "\<forall>dp e n res n' rows. RunOnce dp e n (map ed_row (ob_deliveries s')) = (res, n', rows) \<and> exactIDs e \<longrightarrow>
       step\<^sup>*\<^sup>* (s', ws) (withRows rows s', ws)"
    using recorder_interleaves sweep_interleaves [OF _ _ ok(5)] deliveries_interleave [OF _ _ ok(2)] by (blast, blast, auto)
  have counts: "\<forall>cutoff limit e n res n' t q. ListRecordedBefore cutoff limit e n s' = (res, n', t) \<and> ob_attempts t q \<noteq> ob_attempts s' q \<longrightarrow>
       ob_attempts t q \<le> MaxEventDispatchAttempts"
    using sweep_counts by (metis (no_types, lifting))
  show ?thesis
    using ok(1,2) rows interleaved counts unfolding inbox_ok_def deliveries_ok_def by (intro conjI) blast+
qed

theorem dispatch_once_witness:
  "distinct (map inboxKey (ob_notifications (snd (Recorder_Dispatch [fundedDraft ''n1''] calm 0 mailbox1)))) \<and>
   map nt_recipient (ob_notifications (snd (Recorder_Dispatch [fundedDraft ''n1''] calm 0 mailbox1))) = [''bob'']"
proof -
  obtain n t where run: "Recorder_Dispatch [fundedDraft ''n1''] calm 0 mailbox1 = (n, t)" by fastforce
  have start: "events emptyBox = []" "ob_notifications emptyBox = []" "ob_deliveries emptyBox = []" by (simp_all add: emptyBox_def platform_def)
  have "set [fundedDraft ''n1''] \<subseteq> ev_draft ` set (events mailbox1)"
    by (simp add: mailbox1_def insertDomainEvent_def insertEvent_def emptyBox_def platform_def Draft_Event_def eventDraft_def
        fundedDraft_def draftFor_def Let_def)
  with dispatch_once [OF mailbox_steps(1) start] run have "step\<^sup>*\<^sup>* (mailbox1, []) (t, [])" by blast
  from dispatch_once [OF rtranclp_trans [OF mailbox_steps(1) this] start] dispatch_runs(1) run show ?thesis by simp
qed

end
